(* ===== verification/Psdk_Prelude.thy ===== *)
theory Psdk_Prelude
  imports Main "HOL-Library.Word"
begin

text \<open>
  Shared vocabulary of the development: names for the C integer types, C strings and the
  bounded formatting buffers of \<^verbatim>\<open>snprintf\<close>, the fact collections the component proofs use,
  and the generic lemmas on lists they share.
\<close>

named_theorems cstring_simps \<open>C strings and formatting buffers\<close>
named_theorems fmt_length \<open>upper bounds on the length of formatted text\<close>
named_theorems trace_simps \<open>what an operation appends to the trace of calls\<close>

section \<open>C integer types\<close>

type_synonym u8 = "8 word"
type_synonym u16 = "16 word"
type_synonym u32 = "32 word"
type_synonym u64 = "64 word"

section \<open>C strings\<close>

text \<open>
  A \<^verbatim>\<open>char\<close> array is a list of bytes. A pointer to it read as a C string denotes the bytes before
  the first NUL.
\<close>

abbreviation NUL :: char where "NUL \<equiv> CHR 0x00"
abbreviation LF :: char where "LF \<equiv> CHR 0x0A"
abbreviation CR :: char where "CR \<equiv> CHR 0x0D"
abbreviation DQ :: char where "DQ \<equiv> CHR 0x22"

definition cstr :: "string \<Rightarrow> string" where
  "cstr buf = takeWhile (\<lambda>c. c \<noteq> NUL) buf"

definition strchr :: "string \<Rightarrow> char \<Rightarrow> bool" where
  "strchr s c \<longleftrightarrow> c \<in> set s"

fun is_prefix :: "string \<Rightarrow> string \<Rightarrow> bool" where
  "is_prefix [] s = True"
| "is_prefix (p # ps) [] = False"
| "is_prefix (p # ps) (c # cs) = (p = c \<and> is_prefix ps cs)"

fun strstr :: "string \<Rightarrow> string \<Rightarrow> bool" where
  "strstr [] pat = is_prefix pat []"
| "strstr (c # cs) pat = (is_prefix pat (c # cs) \<or> strstr cs pat)"

text \<open>
  \<^verbatim>\<open>snprintf(buf, sz, ...)\<close> with \<^verbatim>\<open>sz > 0\<close>: the bytes written (text cut to \<^verbatim>\<open>sz - 1\<close>, then NUL) and the
  returned length, which is that of the whole text, cut or not.
\<close>

definition snprintf :: "nat \<Rightarrow> string \<Rightarrow> string \<times> nat" where
  "snprintf sz s = (take (sz - 1) s @ [NUL], length s)"

text \<open>The text a caller of \<^verbatim>\<open>snprintf\<close> then reads back from the buffer as a C string.\<close>

definition snprintf_text :: "nat \<Rightarrow> string \<Rightarrow> string" where
  "snprintf_text sz s = cstr (fst (snprintf sz s))"

text \<open>Reading \<^verbatim>\<open>n\<close> bytes from the start of a buffer; \<^term>\<open>None\<close> is a read past its end.\<close>

definition read_bytes :: "string \<Rightarrow> nat \<Rightarrow> string option" where
  "read_bytes buf n = (if n \<le> length buf then Some (take n buf) else None)"

section \<open>Stripping a suffix\<close>

text \<open>
  The loop \<^verbatim>\<open>while (len > 0 && p(buf[len - 1])) buf[--len] = 0\<close> on the first \<^verbatim>\<open>len\<close> bytes.
\<close>

function strip_suffix :: "(char \<Rightarrow> bool) \<Rightarrow> string \<Rightarrow> string" where
  "strip_suffix p s = (if s \<noteq> [] \<and> p (last s) then strip_suffix p (butlast s) else s)"
  by pat_completeness auto
termination by (relation "measure (\<lambda>(p, s). length s)") auto

declare strip_suffix.simps [simp del]

text \<open>
  The same loop on the array, as the sources run it: each step overwrites the last byte of the message
  with NUL.
\<close>

fun strip_loop :: "(char \<Rightarrow> bool) \<Rightarrow> string \<Rightarrow> nat \<Rightarrow> string \<times> nat" where
  "strip_loop p buf 0 = (buf, 0)"
| "strip_loop p buf (Suc n) =
     (if p (buf ! n) then strip_loop p (buf[n := NUL]) n else (buf, Suc n))"

lemma strip_suffix_Nil [simp]: "strip_suffix p [] = []"
  by (simp add: strip_suffix.simps)

lemma strip_suffix_snoc [simp]:
  "strip_suffix p (s @ [c]) = (if p c then strip_suffix p s else s @ [c])"
  by (simp add: strip_suffix.simps [of p "s @ [c]"])

lemma strip_suffix_split:
  "\<exists>t. s = strip_suffix p s @ t \<and> (\<forall>c \<in> set t. p c)"
proof (induction s rule: rev_induct)
  case Nil
  then show ?case by simp
next
  case (snoc c s)
  then obtain t where t: "s = strip_suffix p s @ t" "\<forall>c \<in> set t. p c" by blast
  show ?case
  proof (cases "p c")
    case True
    have "s @ [c] = strip_suffix p (s @ [c]) @ (t @ [c])"
      using t(1) True by simp
    moreover have "\<forall>c \<in> set (t @ [c]). p c" using t(2) True by simp
    ultimately show ?thesis by blast
  next
    case False
    then show ?thesis by simp
  qed
qed

lemma strip_suffix_last:
  "strip_suffix p s \<noteq> [] \<Longrightarrow> \<not> p (last (strip_suffix p s))"
  by (induction s rule: rev_induct) (auto split: if_splits)

lemma strip_suffix_eq_Nil: "strip_suffix p s = [] \<longleftrightarrow> (\<forall>c \<in> set s. p c)"
  by (induction s rule: rev_induct) auto

lemma strip_suffix_append:
  "(\<forall>c \<in> set t. p c) \<Longrightarrow> strip_suffix p (s @ t) = strip_suffix p s"
proof (induction t rule: rev_induct)
  case (snoc c t)
  then show ?case by (simp flip: append_assoc)
qed simp

lemma length_strip_suffix: "length (strip_suffix p s) \<le> length s"
  by (induction s rule: rev_induct) auto

section \<open>Facts about C strings\<close>

lemma cstr_id [cstring_simps]: "NUL \<notin> set s \<Longrightarrow> cstr s = s"
  by (auto simp: cstr_def takeWhile_eq_all_conv)

lemma cstr_no_NUL [cstring_simps]: "NUL \<notin> set (cstr s)"
  by (auto simp: cstr_def dest: set_takeWhileD)

lemma cstr_append_NUL [cstring_simps]: "cstr (s @ [NUL]) = cstr s"
  by (induction s) (auto simp: cstr_def)

lemma cstr_stop: "NUL \<notin> set t \<Longrightarrow> cstr (t @ NUL # r) = t"
  by (induction t) (auto simp: cstr_def)

lemma length_cstr: "length (cstr s) \<le> length s"
  by (simp add: cstr_def length_takeWhile_le)

lemma snprintf_len [simp]: "snd (snprintf sz s) = length s"
  by (simp add: snprintf_def)

lemma snprintf_text_fits [cstring_simps]:
  assumes "NUL \<notin> set s" and "length s < sz"
  shows "snprintf_text sz s = s"
  using assms by (simp add: snprintf_text_def snprintf_def cstr_append_NUL cstr_id)

lemma snprintf_text_cut:
  assumes "NUL \<notin> set s"
  shows "snprintf_text sz s = take (sz - 1) s"
proof -
  have "NUL \<notin> set (take (sz - 1) s)" using assms by (auto dest: in_set_takeD)
  then show ?thesis by (simp add: snprintf_text_def snprintf_def cstr_append_NUL cstr_id)
qed

lemma length_snprintf_text: "0 < sz \<Longrightarrow> length (snprintf_text sz s) < sz"
proof -
  assume "0 < sz"
  have "length (cstr (take (sz - 1) s)) \<le> sz - 1"
    using length_cstr [of "take (sz - 1) s"] by simp
  with \<open>0 < sz\<close> show ?thesis
    by (simp add: snprintf_text_def snprintf_def cstr_append_NUL)
qed

lemma read_snprintf_fits [cstring_simps]:
  "length s < sz \<Longrightarrow> read_bytes (fst (snprintf sz s)) (length s) = Some s"
  by (simp add: read_bytes_def snprintf_def)

lemma read_snprintf_over:
  "0 < sz \<Longrightarrow> sz < length s \<Longrightarrow> read_bytes (fst (snprintf sz s)) (length s) = None"
  by (simp add: read_bytes_def snprintf_def)

lemma is_prefix_iff: "is_prefix p s \<longleftrightarrow> (\<exists>t. s = p @ t)"
  by (induction p s rule: is_prefix.induct) auto

lemma strstr_iff: "strstr s pat \<longleftrightarrow> (\<exists>a b. s = a @ pat @ b)"
proof (induction s)
  case Nil
  then show ?case by (auto simp: is_prefix_iff)
next
  case (Cons c cs)
  show ?case
  proof
    assume "strstr (c # cs) pat"
    then consider "is_prefix pat (c # cs)" | "strstr cs pat" by auto
    then show "\<exists>a b. c # cs = a @ pat @ b"
    proof cases
      case 1
      then obtain t where "c # cs = [] @ pat @ t" by (auto simp: is_prefix_iff)
      then show ?thesis by blast
    next
      case 2
      then obtain a b where "cs = a @ pat @ b" using Cons.IH by blast
      then have "c # cs = (c # a) @ pat @ b" by simp
      then show ?thesis by blast
    qed
  next
    assume "\<exists>a b. c # cs = a @ pat @ b"
    then obtain a b where ab: "c # cs = a @ pat @ b" by blast
    show "strstr (c # cs) pat"
    proof (cases a)
      case Nil
      then have "is_prefix pat (c # cs)" using ab by (auto simp: is_prefix_iff)
      then show ?thesis by simp
    next
      case (Cons d a')
      then have "cs = a' @ pat @ b" using ab by simp
      then have "strstr cs pat" using Cons.IH by blast
      then show ?thesis by simp
    qed
  qed
qed

section \<open>Stripping in the array\<close>

lemma strip_loop_spec:
  assumes "n \<le> length buf" and "strip_loop p buf n = (buf', n')"
  shows "take n' buf' = strip_suffix p (take n buf) \<and> n' \<le> n \<and>
         length buf' = length buf \<and> drop n buf' = drop n buf \<and>
         (n' < n \<longrightarrow> buf' ! n' = NUL)"
  using assms
proof (induction n arbitrary: buf)
  case 0
  then show ?case by simp
next
  case (Suc n)
  then have n: "n < length buf" by simp
  have snoc: "take (Suc n) buf = take n buf @ [buf ! n]" using n by (rule take_Suc_conv_app_nth)
  show ?case
  proof (cases "p (buf ! n)")
    case True
    with Suc.prems(2) have r: "strip_loop p (buf[n := NUL]) n = (buf', n')" by simp
    have "n \<le> length (buf[n := NUL])" using n by simp
    note IH = Suc.IH [OF this r]
    have nn: "buf' ! n = NUL"
    proof -
      have "drop n buf' = drop n (buf[n := NUL])" using IH by blast
      then have "hd (drop n buf') = hd (drop n (buf[n := NUL]))" by simp
      moreover have "n < length buf'" using IH n by simp
      ultimately show ?thesis using n by (simp add: hd_drop_conv_nth)
    qed
    have "drop (Suc n) buf' = drop (Suc n) buf"
    proof -
      have "drop 1 (drop n buf') = drop 1 (drop n (buf[n := NUL]))" using IH by simp
      then show ?thesis by simp
    qed
    moreover have "n' < Suc n \<longrightarrow> buf' ! n' = NUL" using IH nn by (auto simp: less_Suc_eq)
    ultimately show ?thesis using IH True snoc by simp
  next
    case False
    then show ?thesis using Suc.prems(2) snoc by simp
  qed
qed

lemma drop_nth_eq: "drop n xs = drop n ys \<Longrightarrow> n < length xs \<Longrightarrow> n < length ys \<Longrightarrow> xs ! n = ys ! n"
  by (metis hd_drop_conv_nth)

lemma cstr_take_nth:
  assumes "n < length buf" and "buf ! n = NUL"
  shows "cstr buf = cstr (take n buf)"
proof -
  have "buf = take n buf @ NUL # drop (Suc n) buf" using assms by (metis id_take_nth_drop)
  then have "cstr buf = cstr (take n buf @ NUL # drop (Suc n) buf)" by simp
  also have "\<dots> = cstr (take n buf)"
    by (auto simp: cstr_def takeWhile_append intro: takeWhile_eq_all_conv [THEN iffD2, symmetric])
  finally show ?thesis .
qed

end
