(* ===== verification/C_Format.thy ===== *)
theory C_Format
  imports Psdk_Prelude
begin

text \<open>
  The integer conversions of \<^verbatim>\<open>printf\<close> the daemon uses (\<^verbatim>\<open>%d\<close>, \<^verbatim>\<open>%u\<close>, \<^verbatim>\<open>%llu\<close>) and
  \<^verbatim>\<open>atoi\<close>, on mathematical integers: decimal text, how long it is, and that reading it back gives
  the number.
\<close>

section \<open>Decimal text\<close>

definition digit_char :: "int \<Rightarrow> char" where
  "digit_char d = char_of (48 + d)"

definition is_digit :: "char \<Rightarrow> bool" where
  "is_digit c \<longleftrightarrow> 48 \<le> (of_char c :: int) \<and> (of_char c :: int) \<le> 57"

definition digit_val :: "char \<Rightarrow> int" where
  "digit_val c = of_char c - 48"

fun dec :: "int \<Rightarrow> string" where
  "dec n = (if n < 10 then [digit_char n] else dec (n div 10) @ [digit_char (n mod 10)])"

declare dec.simps [simp del]

text \<open>\<^verbatim>\<open>%u\<close> and \<^verbatim>\<open>%llu\<close>\<close>

definition fmt_u :: "int \<Rightarrow> string" where
  "fmt_u n = dec n"

text \<open>\<^verbatim>\<open>%d\<close>\<close>

definition fmt_d :: "int \<Rightarrow> string" where
  "fmt_d i = (if i < 0 then CHR ''-'' # dec (- i) else dec i)"

text \<open>The number a run of digits denotes.\<close>

definition dec_val :: "string \<Rightarrow> int" where
  "dec_val s = foldl (\<lambda>a c. 10 * a + digit_val c) 0 s"

section \<open>atoi\<close>

text \<open>
  glibc's \<^verbatim>\<open>atoi\<close> is \<^verbatim>\<open>(int) strtol(s, NULL, 10)\<close>: leading white space, an optional sign, the
  longest run of digits (none gives 0), saturation at the 64-bit \<^verbatim>\<open>long\<close> range, then conversion to
  \<^verbatim>\<open>int\<close>, which keeps the low 32 bits.
\<close>

definition is_space :: "char \<Rightarrow> bool" where
  "is_space c \<longleftrightarrow> c \<in> {CHR '' '', CHR 0x09, CHR 0x0A, CHR 0x0B, CHR 0x0C, CHR 0x0D}"

definition strtol10 :: "string \<Rightarrow> int" where
  "strtol10 s =
     (let t = dropWhile is_space s;
          neg = (t \<noteq> [] \<and> hd t = CHR ''-'');
          u = (if t \<noteq> [] \<and> (hd t = CHR ''-'' \<or> hd t = CHR ''+'') then tl t else t);
          v = dec_val (takeWhile is_digit u)
      in if neg then max (- (2 ^ 63)) (- v) else min (2 ^ 63 - 1) v)"

definition atoi :: "string \<Rightarrow> int" where
  "atoi s = sint (word_of_int (strtol10 s) :: u32)"

section \<open>Digits\<close>

lemma of_char_digit_char: "0 \<le> d \<Longrightarrow> d < 10 \<Longrightarrow> (of_char (digit_char d) :: int) = 48 + d"
  by (simp add: digit_char_def)

lemma is_digit_digit_char [simp]: "0 \<le> d \<Longrightarrow> d < 10 \<Longrightarrow> is_digit (digit_char d)"
  by (simp add: is_digit_def of_char_digit_char)

lemma digit_val_digit_char [simp]: "0 \<le> d \<Longrightarrow> d < 10 \<Longrightarrow> digit_val (digit_char d) = d"
  by (simp add: digit_val_def of_char_digit_char)

lemma dec_digits: "0 \<le> n \<Longrightarrow> c \<in> set (dec n) \<Longrightarrow> is_digit c"
proof (induction n rule: dec.induct)
  case (1 n)
  show ?case
  proof (cases "n < 10")
    case True
    then show ?thesis using 1 by (simp add: dec.simps [of n])
  next
    case False
    then show ?thesis using 1 by (auto simp: dec.simps [of n])
  qed
qed

lemma dec_not_Nil [simp]: "dec n \<noteq> []"
  by (subst dec.simps) simp

lemma dec_val_snoc [simp]: "dec_val (s @ [c]) = 10 * dec_val s + digit_val c"
  by (simp add: dec_val_def)

lemma dec_val_Nil [simp]: "dec_val [] = 0"
  by (simp add: dec_val_def)

lemma dec_val_dec [simp]: "0 \<le> n \<Longrightarrow> dec_val (dec n) = n"
proof (induction n rule: dec.induct)
  case (1 n)
  show ?case
  proof (cases "n < 10")
    case True
    then show ?thesis using 1 by (simp add: dec.simps [of n] dec_val_def)
  next
    case False
    with 1 have "dec_val (dec (n div 10)) = n div 10" by simp
    with False show ?thesis by (simp add: dec.simps [of n])
  qed
qed

lemma length_dec: "0 < k \<Longrightarrow> n < 10 ^ k \<Longrightarrow> length (dec n) \<le> k"
proof (induction k arbitrary: n)
  case 0
  then show ?case by simp
next
  case (Suc k)
  show ?case
  proof (cases "n < 10")
    case True
    then show ?thesis by (simp add: dec.simps [of n])
  next
    case False
    with Suc.prems have "0 < k" by (cases k) auto
    moreover have "n div 10 < 10 ^ k" using Suc.prems(2) by simp
    ultimately have "length (dec (n div 10)) \<le> k" by (rule Suc.IH)
    with False show ?thesis by (simp add: dec.simps [of n])
  qed
qed

lemma length_fmt_u [fmt_length]: "0 < k \<Longrightarrow> n < 10 ^ k \<Longrightarrow> length (fmt_u n) \<le> k"
  by (simp add: fmt_u_def length_dec)

lemma length_fmt_d [fmt_length]: "0 < k \<Longrightarrow> \<bar>i\<bar> < 10 ^ k \<Longrightarrow> length (fmt_d i) \<le> Suc k"
  using length_dec [of k "\<bar>i\<bar>"] by (auto simp: fmt_d_def abs_if split: if_splits)

lemma length_fmt_u_u8 [fmt_length]: "length (fmt_u (uint (w :: u8))) \<le> 3"
proof (rule length_fmt_u)
  have "uint w < 2 ^ LENGTH(8)" by (rule unsigned_less)
  then show "uint w < 10 ^ 3" by simp
qed simp

lemma length_fmt_u_u32 [fmt_length]: "length (fmt_u (uint (w :: u32))) \<le> 10"
proof (rule length_fmt_u)
  have "uint w < 2 ^ LENGTH(32)" by (rule unsigned_less)
  then show "uint w < 10 ^ 10" by simp
qed simp

lemma length_fmt_u_u64 [fmt_length]: "length (fmt_u (uint (w :: u64))) \<le> 20"
proof (rule length_fmt_u)
  have "uint w < 2 ^ LENGTH(64)" by (rule unsigned_less)
  then show "uint w < 10 ^ 20" by simp
qed simp

lemma digit_not_special:
  "is_digit c \<Longrightarrow> c \<noteq> NUL \<and> c \<noteq> DQ \<and> c \<noteq> CHR ''-'' \<and> c \<noteq> CHR ''+'' \<and> c \<noteq> CHR '','' \<and> \<not> is_space c"
  by (auto simp: is_digit_def is_space_def)

lemma dec_no_special:
  assumes "0 \<le> n"
  shows "NUL \<notin> set (dec n)" "DQ \<notin> set (dec n)" "CHR '','' \<notin> set (dec n)"
  using dec_digits [OF assms] digit_not_special by blast+

lemma fmt_u_no_NUL [cstring_simps]: "0 \<le> n \<Longrightarrow> NUL \<notin> set (fmt_u n)"
  by (simp add: fmt_u_def dec_no_special)

lemma fmt_d_no_NUL [cstring_simps]: "NUL \<notin> set (fmt_d i)"
  by (simp add: fmt_d_def dec_no_special)

lemma fmt_d_chars: "c \<in> set (fmt_d i) \<Longrightarrow> is_digit c \<or> c = CHR ''-''"
  using dec_digits [of i] dec_digits [of "- i"] by (auto simp: fmt_d_def split: if_splits)

section \<open>Reading the text back\<close>

lemma hd_dec: "0 \<le> n \<Longrightarrow> is_digit (hd (dec n))"
  using dec_digits [of n "hd (dec n)"] by (cases "dec n") auto

lemma takeWhile_dec [simp]: "0 \<le> n \<Longrightarrow> takeWhile is_digit (dec n) = dec n"
  using dec_digits by (auto simp: takeWhile_eq_all_conv)

lemma dropWhile_space_dec [simp]: "0 \<le> n \<Longrightarrow> dropWhile is_space (dec n) = dec n"
  using hd_dec [of n] digit_not_special by (cases "dec n") auto

lemma strtol10_fmt_d:
  assumes "- (2 ^ 63) \<le> i" and "i < 2 ^ 63"
  shows "strtol10 (fmt_d i) = i"
proof (cases "i < 0")
  case True
  have m: "\<not> is_space (CHR ''-'')" by (simp add: is_space_def)
  show ?thesis using True assms m by (simp add: strtol10_def fmt_d_def Let_def)
next
  case False
  then have "hd (dec i) \<noteq> CHR ''-'' \<and> hd (dec i) \<noteq> CHR ''+''"
    using hd_dec [of i] digit_not_special by fastforce
  then show ?thesis using False assms by (simp add: strtol10_def fmt_d_def Let_def)
qed

lemma takeWhile_dec_stop:
  "0 \<le> n \<Longrightarrow> \<not> is_digit c \<Longrightarrow> takeWhile is_digit (dec n @ c # r) = dec n"
  using dec_digits [of n] by (simp add: takeWhile_append)

lemma strtol10_stop:
  assumes "\<not> is_digit c" and "- (2 ^ 63) \<le> i" and "i < 2 ^ 63"
  shows "strtol10 (fmt_d i @ c # r) = i"
proof (cases "i < 0")
  case True
  have m: "\<not> is_space (CHR ''-'')" by (simp add: is_space_def)
  show ?thesis using True assms m by (simp add: strtol10_def fmt_d_def Let_def takeWhile_dec_stop)
next
  case False
  have d: "dropWhile is_space (dec i @ c # r) = dec i @ c # r" "dec i @ c # r \<noteq> []"
      "hd (dec i @ c # r) = hd (dec i)"
    using False hd_dec [of i] digit_not_special by (cases "dec i", auto)+
  have "hd (dec i) \<noteq> CHR ''-'' \<and> hd (dec i) \<noteq> CHR ''+''"
    using False hd_dec [of i] digit_not_special by fastforce
  then show ?thesis using False assms
    by (simp add: strtol10_def fmt_d_def Let_def d takeWhile_dec_stop)
qed

lemma atoi_stop:
  assumes "\<not> is_digit c" and "- (2 ^ 31) \<le> i" and "i < 2 ^ 31"
  shows "atoi (fmt_d i @ c # r) = i"
proof -
  have "strtol10 (fmt_d i @ c # r) = i" using assms by (intro strtol10_stop) simp_all
  moreover have "sint (word_of_int i :: u32) = i"
    using assms by (simp add: sint_sbintrunc' signed_take_bit_int_eq_self)
  ultimately show ?thesis by (simp add: atoi_def)
qed

lemma atoi_fmt_d:
  assumes "- (2 ^ 31) \<le> i" and "i < 2 ^ 31"
  shows "atoi (fmt_d i) = i"
proof -
  have "strtol10 (fmt_d i) = i" using assms by (intro strtol10_fmt_d) simp_all
  moreover have "sint (word_of_int i :: u32) = i"
    using assms by (simp add: sint_sbintrunc' signed_take_bit_int_eq_self)
  ultimately show ?thesis by (simp add: atoi_def)
qed

lemma fmt_d_undo:
  "(if hd (fmt_d i) = CHR ''-'' then - dec_val (tl (fmt_d i)) else dec_val (fmt_d i)) = i"
proof (cases "i < 0")
  case False
  then have "hd (dec i) \<noteq> CHR ''-''" using hd_dec [of i] digit_not_special by fastforce
  with False show ?thesis by (simp add: fmt_d_def)
qed (simp add: fmt_d_def)

lemma fmt_d_inj: "fmt_d i = fmt_d j \<Longrightarrow> i = j"
  by (metis fmt_d_undo)

end
