(* ===== verification/C_Float.thy ===== *)
theory C_Float
  imports Complex_Main "HOL-Library.Log_Nat" C_Format
begin

text \<open>
  The \<^verbatim>\<open>float\<close> and \<^verbatim>\<open>double\<close> of the C code: IEEE 754 binary32 and binary64 values with signed
  zeros, infinities and NaNs, rounding to nearest with ties to even, the arithmetic, comparisons
  and conversions the sources use, and the conversion \<^verbatim>\<open>%.Nf\<close> of \<^verbatim>\<open>printf\<close>. A finite value is a
  sign and an exact rational magnitude, so every definition computes.
\<close>

section \<open>Values and formats\<close>

datatype fp = Fin bool rat | Inf bool | NaN bool

text \<open>
  A format has \<open>fmt_prec\<close> significant bits; its finite values are \<open>k * 2 ^ q\<close> with
  \<open>k < 2 ^ fmt_prec\<close> and \<open>fmt_qmin \<le> q \<le> fmt_qmax\<close>.
\<close>

record fpfmt =
  fmt_prec :: nat
  fmt_qmin :: int
  fmt_qmax :: int

definition f32 :: fpfmt where
  "f32 = \<lparr>fmt_prec = 24, fmt_qmin = -149, fmt_qmax = 104\<rparr>"

definition f64 :: fpfmt where
  "f64 = \<lparr>fmt_prec = 53, fmt_qmin = -1074, fmt_qmax = 971\<rparr>"

definition pow2 :: "int \<Rightarrow> rat" where
  "pow2 e = (if 0 \<le> e then 2 ^ nat e else 1 / 2 ^ nat (- e))"

fun fp_val :: "fp \<Rightarrow> rat" where
  "fp_val (Fin s m) = (if s then - m else m)"
| "fp_val (Inf s) = 0"
| "fp_val (NaN s) = 0"

fun is_fin :: "fp \<Rightarrow> bool" where
  "is_fin (Fin s m) = True"
| "is_fin (Inf s) = False"
| "is_fin (NaN s) = False"

fun fp_sign :: "fp \<Rightarrow> bool" where
  "fp_sign (Fin s m) = s"
| "fp_sign (Inf s) = s"
| "fp_sign (NaN s) = s"

section \<open>Rounding\<close>

definition round_even :: "rat \<Rightarrow> int" where
  "round_even x =
     (let f = \<lfloor>x\<rfloor>; d = x - of_int f
      in if d < 1 / 2 then f else if 1 / 2 < d then f + 1 else if even f then f else f + 1)"

text \<open>The exponent \<open>e\<close> with \<open>2 ^ e \<le> m < 2 ^ (e + 1)\<close>, for a positive rational \<open>m\<close>.\<close>

definition ilog2 :: "rat \<Rightarrow> int" where
  "ilog2 m =
     (let (a, b) = quotient_of m; e = bitlen a - bitlen b
      in if pow2 e \<le> m then e else e - 1)"

definition quantum :: "fpfmt \<Rightarrow> rat \<Rightarrow> int" where
  "quantum f m = max (fmt_qmin f) (ilog2 m - int (fmt_prec f) + 1)"

definition rnd_mag :: "fpfmt \<Rightarrow> rat \<Rightarrow> rat" where
  "rnd_mag f m =
     (if m = 0 then 0 else of_int (round_even (m / pow2 (quantum f m))) * pow2 (quantum f m))"

definition fp_round :: "fpfmt \<Rightarrow> bool \<Rightarrow> rat \<Rightarrow> fp" where
  "fp_round f s m =
     (let r = rnd_mag f m
      in if pow2 (fmt_qmax f + int (fmt_prec f)) \<le> r then Inf s else Fin s r)"

text \<open>Rounding of an exact result; the sign of an exact zero is given by the caller.\<close>

definition fp_of_rat :: "fpfmt \<Rightarrow> bool \<Rightarrow> rat \<Rightarrow> fp" where
  "fp_of_rat f zs x =
     (if x = 0 then Fin zs 0 else fp_round f (x < 0) \<bar>x\<bar>)"

section \<open>Arithmetic, comparison and conversion\<close>

text \<open>An invalid operation gives the default NaN.\<close>

fun fadd :: "fpfmt \<Rightarrow> fp \<Rightarrow> fp \<Rightarrow> fp" where
  "fadd f (NaN s) y = NaN s"
| "fadd f x (NaN s) = NaN s"
| "fadd f (Inf s) (Inf t) = (if s = t then Inf s else NaN False)"
| "fadd f (Inf s) (Fin t m) = Inf s"
| "fadd f (Fin t m) (Inf s) = Inf s"
| "fadd f (Fin s m) (Fin t n) =
     fp_of_rat f (s \<and> t) (fp_val (Fin s m) + fp_val (Fin t n))"

fun fneg :: "fp \<Rightarrow> fp" where
  "fneg (Fin s m) = Fin (\<not> s) m"
| "fneg (Inf s) = Inf (\<not> s)"
| "fneg (NaN s) = NaN (\<not> s)"

definition fsub :: "fpfmt \<Rightarrow> fp \<Rightarrow> fp \<Rightarrow> fp" where
  "fsub f x y = fadd f x (fneg y)"

fun fmul :: "fpfmt \<Rightarrow> fp \<Rightarrow> fp \<Rightarrow> fp" where
  "fmul f (NaN s) y = NaN s"
| "fmul f x (NaN s) = NaN s"
| "fmul f (Inf s) (Inf t) = Inf (s \<noteq> t)"
| "fmul f (Inf s) (Fin t m) = (if m = 0 then NaN False else Inf (s \<noteq> t))"
| "fmul f (Fin t m) (Inf s) = (if m = 0 then NaN False else Inf (s \<noteq> t))"
| "fmul f (Fin s m) (Fin t n) = fp_round f (s \<noteq> t) (m * n)"

fun fdiv :: "fpfmt \<Rightarrow> fp \<Rightarrow> fp \<Rightarrow> fp" where
  "fdiv f (NaN s) y = NaN s"
| "fdiv f x (NaN s) = NaN s"
| "fdiv f (Inf s) (Inf t) = NaN False"
| "fdiv f (Inf s) (Fin t m) = Inf (s \<noteq> t)"
| "fdiv f (Fin t m) (Inf s) = Fin (s \<noteq> t) 0"
| "fdiv f (Fin s m) (Fin t n) =
     (if n = 0 then (if m = 0 then NaN False else Inf (s \<noteq> t))
      else fp_round f (s \<noteq> t) (m / n))"

text \<open>The C operators \<^verbatim>\<open><\<close> and \<^verbatim>\<open>>\<close>: false when an operand is a NaN.\<close>

fun flt :: "fp \<Rightarrow> fp \<Rightarrow> bool" where
  "flt (NaN s) y = False"
| "flt x (NaN s) = False"
| "flt (Inf s) (Inf t) = (s \<and> \<not> t)"
| "flt (Inf s) (Fin t m) = s"
| "flt (Fin t m) (Inf s) = (\<not> s)"
| "flt (Fin s m) (Fin t n) = (fp_val (Fin s m) < fp_val (Fin t n))"

fun fge :: "fp \<Rightarrow> fp \<Rightarrow> bool" where
  "fge (NaN s) y = False"
| "fge x (NaN s) = False"
| "fge x y = (\<not> flt x y)"

definition fp_of_int :: "fpfmt \<Rightarrow> int \<Rightarrow> fp" where
  "fp_of_int f i = fp_of_rat f False (of_int i)"

text \<open>The cast \<^verbatim>\<open>(float) x\<close> of a \<^verbatim>\<open>double\<close>, and literals.\<close>

fun to_f32 :: "fp \<Rightarrow> fp" where
  "to_f32 (Fin s m) = fp_round f32 s m"
| "to_f32 (Inf s) = Inf s"
| "to_f32 (NaN s) = NaN s"

definition lit32 :: "rat \<Rightarrow> fp" where
  "lit32 x = fp_of_rat f32 False x"

definition lit64 :: "rat \<Rightarrow> fp" where
  "lit64 x = fp_of_rat f64 False x"

text \<open>
  The cast of a floating value to an unsigned integer of \<open>w\<close> bits truncates toward zero; it is
  undefined (\<^term>\<open>None\<close>) when the truncated value does not fit, and for infinities and NaNs.
\<close>

fun fp_to_uint :: "nat \<Rightarrow> fp \<Rightarrow> int option" where
  "fp_to_uint w (Fin s m) =
     (let t = \<lfloor>m\<rfloor> in
      if s \<and> 0 < t then None else if t < 2 ^ w then Some t else None)"
| "fp_to_uint w (Inf s) = None"
| "fp_to_uint w (NaN s) = None"

section \<open>printf conversion with a fixed number of decimals\<close>

definition zero_pad :: "nat \<Rightarrow> string \<Rightarrow> string" where
  "zero_pad w s = replicate (w - length s) (CHR ''0'') @ s"

definition fixed_dec :: "nat \<Rightarrow> int \<Rightarrow> string" where
  "fixed_dec p n =
     dec (n div 10 ^ p) @ (if p = 0 then [] else ''.'' @ zero_pad p (dec (n mod 10 ^ p)))"

fun fmt_f :: "nat \<Rightarrow> fp \<Rightarrow> string" where
  "fmt_f p (Fin s m) =
     (if s then ''-'' else '''') @ fixed_dec p (round_even (m * 10 ^ p))"
| "fmt_f p (Inf s) = (if s then ''-inf'' else ''inf'')"
| "fmt_f p (NaN s) = (if s then ''-nan'' else ''nan'')"

section \<open>Well-formed values of a format\<close>

definition representable :: "fpfmt \<Rightarrow> rat \<Rightarrow> bool" where
  "representable f m \<longleftrightarrow>
     (\<exists>k q. m = of_nat k * pow2 q \<and> k < 2 ^ fmt_prec f \<and> fmt_qmin f \<le> q \<and> q \<le> fmt_qmax f)"

definition in_range :: "fpfmt \<Rightarrow> fp \<Rightarrow> bool" where
  "in_range f x \<longleftrightarrow>
     (case x of Fin s m \<Rightarrow> 0 \<le> m \<and> m < pow2 (fmt_qmax f + int (fmt_prec f)) | _ \<Rightarrow> True)"

text \<open>A NaN, or a finite value of magnitude at most \<open>B\<close>.\<close>

definition fp_bounded :: "rat \<Rightarrow> fp \<Rightarrow> bool" where
  "fp_bounded B x \<longleftrightarrow> (case x of Fin s m \<Rightarrow> 0 \<le> m \<and> m \<le> B | Inf s \<Rightarrow> False | NaN s \<Rightarrow> True)"

section \<open>Facts about rounding\<close>

lemma round_even_of_int [simp]: "round_even (of_int i) = i"
  by (simp add: round_even_def)

lemma round_even_cases: "round_even x = \<lfloor>x\<rfloor> \<or> round_even x = \<lfloor>x\<rfloor> + 1"
  by (simp add: round_even_def Let_def)

lemma round_even_close: "\<bar>of_int (round_even x) - x\<bar> \<le> 1 / 2"
proof -
  have "of_int \<lfloor>x\<rfloor> \<le> x" "x < of_int \<lfloor>x\<rfloor> + 1" by linarith+
  then show ?thesis unfolding round_even_def Let_def by (auto simp: abs_le_iff)
qed

lemma round_even_mono:
  assumes "x \<le> y" shows "round_even x \<le> round_even y"
proof (cases "\<lfloor>x\<rfloor> = \<lfloor>y\<rfloor>")
  case True
  then show ?thesis using assms by (auto simp: round_even_def Let_def)
next
  case False
  then have "\<lfloor>x\<rfloor> + 1 \<le> \<lfloor>y\<rfloor>" using floor_mono [OF assms] by linarith
  then show ?thesis using round_even_cases [of x] round_even_cases [of y] by linarith
qed

lemma round_even_le_int: "x \<le> of_int i \<Longrightarrow> round_even x \<le> i"
  using round_even_mono [of x "of_int i"] by simp

lemma int_le_round_even: "of_int i \<le> x \<Longrightarrow> i \<le> round_even x"
  using round_even_mono [of "of_int i" x] by simp

lemma round_even_nonneg: "0 \<le> x \<Longrightarrow> 0 \<le> round_even x"
  using int_le_round_even [of 0 x] by simp

lemma pow2_pos [simp]: "0 < pow2 e"
  by (simp add: pow2_def)

lemma pow2_nonneg [simp]: "0 \<le> pow2 e"
  by (simp add: pow2_def)

lemma pow2_neq_0 [simp]: "pow2 e \<noteq> 0"
  by (simp add: pow2_def)

lemma pow2_powi: "pow2 e = 2 powi e"
  by (simp add: pow2_def power_int_def inverse_eq_divide power_one_over)

lemma pow2_add: "pow2 (a + b) = pow2 a * pow2 b"
  by (simp add: pow2_powi power_int_add)

lemma pow2_diff: "pow2 (a - b) = pow2 a / pow2 b"
  by (simp add: pow2_powi power_int_diff)

lemma pow2_mono: "a \<le> b \<Longrightarrow> pow2 a \<le> pow2 b"
  by (simp add: pow2_powi power_int_increasing)

lemma pow2_less_iff [simp]: "pow2 a < pow2 b \<longleftrightarrow> a < b"
  by (metis pow2_mono pow2_powi linorder_not_less power_int_strict_increasing one_less_numeral_iff semiring_norm(76))

lemma pow2_of_nat: "pow2 (int n) = of_int (2 ^ n)"
  by (simp add: pow2_def)

lemma pow2_int: "0 \<le> e \<Longrightarrow> pow2 e = of_int (2 ^ nat e)"
  by (simp add: pow2_def)

lemma bitlen_pow2_bounds:
  assumes "0 < a"
  shows "pow2 (bitlen a - 1) \<le> of_int a" and "of_int a < pow2 (bitlen a)"
proof -
  have pos: "1 \<le> bitlen a" using assms by (simp add: bitlen_alt_def)
  have b: "2 ^ nat (bitlen a - 1) \<le> a" "a < 2 ^ nat (bitlen a)"
    using bitlen_bounds [OF assms] by auto
  have "of_int (2 ^ nat (bitlen a - 1)) \<le> (of_int a :: rat)" using b(1) by (simp only: of_int_le_iff)
  then show "pow2 (bitlen a - 1) \<le> of_int a" using pos by (simp only: pow2_int)
  have "(of_int a :: rat) < of_int (2 ^ nat (bitlen a))" using b(2) by (simp only: of_int_less_iff)
  then show "of_int a < pow2 (bitlen a)" using pos by (simp only: pow2_int)
qed

lemma ilog2_bounds:
  assumes "0 < m"
  shows "pow2 (ilog2 m) \<le> m" and "m < pow2 (ilog2 m + 1)"
proof -
  obtain a b where ab: "quotient_of m = (a, b)" by fastforce
  have b: "0 < b" using quotient_of_denom_pos [OF ab] .
  have m: "m = of_int a / of_int b" using quotient_of_div [OF ab] .
  have a: "0 < a" using assms b m by (simp add: zero_less_divide_iff)
  have ba: "pow2 (bitlen a - 1) \<le> of_int a" "of_int a < pow2 (bitlen a)"
    and bb: "pow2 (bitlen b - 1) \<le> of_int b" "of_int b < pow2 (bitlen b)"
    using bitlen_pow2_bounds [OF a] bitlen_pow2_bounds [OF b] by auto
  let ?e = "bitlen a - bitlen b"
  have up: "m < pow2 (?e + 1)"
  proof -
    have "of_int a < pow2 (bitlen a)" by (rule ba)
    also have "pow2 (bitlen a) = pow2 (?e + 1) * pow2 (bitlen b - 1)" by (simp flip: pow2_add)
    also have "\<dots> \<le> pow2 (?e + 1) * of_int b" using bb(1) by (simp add: mult_left_mono)
    finally show ?thesis using b by (simp add: m pos_divide_less_eq)
  qed
  have lo: "pow2 (?e - 1) \<le> m"
  proof -
    have "pow2 (?e - 1) * of_int b \<le> pow2 (?e - 1) * pow2 (bitlen b)"
      using bb(2) by (simp add: mult_left_mono)
    also have "\<dots> = pow2 (bitlen a - 1)" by (simp flip: pow2_add)
    also have "\<dots> \<le> of_int a" by (rule ba)
    finally show ?thesis using b by (simp add: m pos_le_divide_eq)
  qed
  show "pow2 (ilog2 m) \<le> m" and "m < pow2 (ilog2 m + 1)"
    using up lo by (auto simp: ilog2_def ab Let_def)
qed

lemma ilog2_mono:
  assumes "0 < m" and "m \<le> n" shows "ilog2 m \<le> ilog2 n"
proof -
  have "pow2 (ilog2 m) < pow2 (ilog2 n + 1)"
    using ilog2_bounds(1) [of m] ilog2_bounds(2) [of n] assms by linarith
  then show ?thesis by simp
qed

lemma ilog2_less:
  assumes "0 < m" and "m < pow2 e" shows "ilog2 m < e"
  using ilog2_bounds(1) [OF assms(1)] assms(2) by (metis le_less_trans pow2_less_iff)

lemma pow2_div_int:
  assumes "q \<le> e" shows "of_int k * pow2 e / pow2 q = of_int (k * 2 ^ nat (e - q))"
proof -
  have "pow2 e / pow2 q = of_int (2 ^ nat (e - q))"
    using assms by (simp flip: pow2_diff add: pow2_int)
  then show ?thesis by (metis of_int_mult times_divide_eq_right)
qed

text \<open>Values on the grid of the format are fixed points of rounding.\<close>

lemma rnd_mag_grid:
  assumes "fmt_qmin f \<le> q" and "0 \<le> k" and "k < 2 ^ fmt_prec f"
  shows "rnd_mag f (of_int k * pow2 q) = of_int k * pow2 q"
proof (cases "k = 0")
  case True
  then show ?thesis by (simp add: rnd_mag_def)
next
  case False
  let ?m = "of_int k * pow2 q"
  have pos: "0 < ?m" using False assms(2) by simp
  have "of_int k < pow2 (int (fmt_prec f))"
    using assms(3) by (simp add: pow2_of_nat del: of_int_power)
  then have "?m < pow2 (int (fmt_prec f) + q)" by (simp add: pow2_add)
  then have "ilog2 ?m < int (fmt_prec f) + q" by (rule ilog2_less [OF pos])
  then have "quantum f ?m \<le> q" using assms(1) by (simp add: quantum_def)
  then have "?m / pow2 (quantum f ?m) = of_int (k * 2 ^ nat (q - quantum f ?m))"
    by (rule pow2_div_int)
  then have "of_int (round_even (?m / pow2 (quantum f ?m))) = ?m / pow2 (quantum f ?m)"
    by (simp only: round_even_of_int)
  then show ?thesis using pos by (simp add: rnd_mag_def)
qed

lemma rnd_mag_nonneg: "0 \<le> m \<Longrightarrow> 0 \<le> rnd_mag f m"
  by (simp add: rnd_mag_def round_even_nonneg)

lemma rnd_mag_mono_pos:
  assumes p: "0 < fmt_prec f" and m: "0 < m" and le: "m \<le> n"
  shows "rnd_mag f m \<le> rnd_mag f n"
proof -
  let ?q = "quantum f m" and ?r = "quantum f n"
  have n: "0 < n" using m le by linarith
  have qr: "?q \<le> ?r" using ilog2_mono [OF m le] by (simp add: quantum_def)
  show ?thesis
  proof (cases "?q = ?r")
    case True
    have "m / pow2 ?r \<le> n / pow2 ?r" using le by (simp add: divide_right_mono)
    then have "of_int (round_even (m / pow2 ?r)) \<le> (of_int (round_even (n / pow2 ?r)) :: rat)"
      by (simp add: round_even_mono)
    then show ?thesis using True m n by (simp add: rnd_mag_def)
  next
    case False
    let ?e = "ilog2 n"
    have r: "?r = ?e - int (fmt_prec f) + 1" and "fmt_qmin f \<le> ?q"
      using False qr by (auto simp: quantum_def max_def split: if_splits)
    have re: "?r \<le> ?e" using r p by simp
    have "ilog2 m + 1 \<le> ?e" using False qr r by (auto simp: quantum_def max_def split: if_splits)
    then have me: "m \<le> pow2 ?e" using ilog2_bounds(2) [OF m] pow2_mono [of "ilog2 m + 1" ?e] by linarith
    have qe: "?q \<le> ?e" using qr re by linarith
    have "m / pow2 ?q \<le> pow2 ?e / pow2 ?q" using me by (simp add: divide_right_mono)
    also have "\<dots> = of_int (2 ^ nat (?e - ?q))" using pow2_div_int [OF qe, of 1] by simp
    finally have "round_even (m / pow2 ?q) \<le> 2 ^ nat (?e - ?q)" by (rule round_even_le_int)
    then have "rnd_mag f m \<le> of_int (2 ^ nat (?e - ?q)) * pow2 ?q"
      using m by (simp add: rnd_mag_def mult_right_mono del: of_int_power)
    also have "\<dots> = pow2 ?e" using pow2_div_int [OF qe, of 1] by (simp add: field_simps)
    also have "\<dots> = of_int (2 ^ nat (?e - ?r)) * pow2 ?r"
      using pow2_div_int [OF re, of 1] by (simp add: field_simps)
    also have "\<dots> \<le> rnd_mag f n"
    proof -
      have "of_int (2 ^ nat (?e - ?r)) \<le> n / pow2 ?r"
        using ilog2_bounds(1) [OF n] pow2_div_int [OF re, of 1] by (simp add: divide_right_mono field_simps)
      then have "2 ^ nat (?e - ?r) \<le> round_even (n / pow2 ?r)" by (rule int_le_round_even)
      then show ?thesis using n by (simp add: rnd_mag_def mult_right_mono del: of_int_power)
    qed
    finally show ?thesis .
  qed
qed

lemma rnd_mag_mono:
  assumes "0 < fmt_prec f" and "0 \<le> m" and "m \<le> n"
  shows "rnd_mag f m \<le> rnd_mag f n"
proof (cases "m = 0")
  case True
  then show ?thesis using assms rnd_mag_nonneg [of n f] by (simp add: rnd_mag_def [of f 0])
next
  case False
  then show ?thesis using assms by (intro rnd_mag_mono_pos) auto
qed

lemma rnd_mag_le_int:
  assumes "f = f32 \<or> f = f64" and "0 \<le> m" and "m \<le> of_int k" and "k < 2 ^ fmt_prec f"
  shows "rnd_mag f m \<le> of_int k"
proof -
  have k: "0 \<le> k" using assms(2,3) by linarith
  have "rnd_mag f m \<le> rnd_mag f (of_int k)"
    by (rule rnd_mag_mono) (use assms in \<open>auto simp: f32_def f64_def\<close>)
  also have "rnd_mag f (of_int k * pow2 0) = of_int k * pow2 0"
    by (rule rnd_mag_grid) (use assms k in \<open>auto simp: f32_def f64_def\<close>)
  then have "rnd_mag f (of_int k) = of_int k" by (simp add: pow2_def)
  finally show ?thesis .
qed

lemma rnd_mag_of_int:
  assumes "f = f32 \<or> f = f64" and "0 \<le> k" and "k < 2 ^ fmt_prec f"
  shows "rnd_mag f (of_int k) = of_int k"
proof -
  have "rnd_mag f (of_int k * pow2 0) = of_int k * pow2 0"
    by (rule rnd_mag_grid) (use assms in \<open>auto simp: f32_def f64_def\<close>)
  then show ?thesis by (simp add: pow2_def)
qed

lemma int_le_rnd_mag:
  assumes "f = f32 \<or> f = f64" and "0 \<le> k" and "of_int k \<le> m" and "k < 2 ^ fmt_prec f"
  shows "of_int k \<le> rnd_mag f m"
proof -
  have "rnd_mag f (of_int k) \<le> rnd_mag f m"
    by (rule rnd_mag_mono) (use assms in \<open>auto simp: f32_def f64_def\<close>)
  then show ?thesis using rnd_mag_of_int [OF assms(1,2,4)] by simp
qed

section \<open>Bounded values\<close>

lemma int_below_overflow:
  assumes "f = f32 \<or> f = f64" and "k < 2 ^ fmt_prec f"
  shows "of_int k < pow2 (fmt_qmax f + int (fmt_prec f))"
proof -
  have "of_int k < (of_int (2 ^ fmt_prec f) :: rat)" using assms(2) by (simp only: of_int_less_iff)
  also have "\<dots> = pow2 (int (fmt_prec f))" by (simp add: pow2_def)
  also have "\<dots> \<le> pow2 (fmt_qmax f + int (fmt_prec f))"
    using assms(1) by (intro pow2_mono) (auto simp: f32_def f64_def)
  finally show ?thesis .
qed

lemma fp_bounded_round:
  assumes "f = f32 \<or> f = f64" and "0 \<le> m" and "m \<le> of_int k" and "k < 2 ^ fmt_prec f"
  shows "fp_bounded (of_int k) (fp_round f s m)"
  using rnd_mag_le_int [OF assms] int_below_overflow [OF assms(1,4)] rnd_mag_nonneg [OF assms(2), of f]
  by (auto simp: fp_bounded_def fp_round_def Let_def)

lemma fp_bounded_of_rat:
  assumes "f = f32 \<or> f = f64" and "\<bar>x\<bar> \<le> of_int k" and "k < 2 ^ fmt_prec f"
  shows "fp_bounded (of_int k) (fp_of_rat f s x)"
proof (cases "x = 0")
  case True
  then show ?thesis using assms(2) by (simp add: fp_of_rat_def fp_bounded_def)
next
  case False
  then show ?thesis using fp_bounded_round [OF assms(1) _ assms(2,3)] by (simp add: fp_of_rat_def)
qed

lemma fp_bounded_fadd:
  assumes "f = f32 \<or> f = f64" and "fp_bounded a x" and "fp_bounded b y"
    and "a + b \<le> of_int k" and "k < 2 ^ fmt_prec f"
  shows "fp_bounded (of_int k) (fadd f x y)"
proof (cases "is_fin x \<and> is_fin y")
  case True
  then obtain s m t n where xy: "x = Fin s m" "y = Fin t n" by (cases x; cases y) auto
  have "\<bar>fp_val x + fp_val y\<bar> \<le> of_int k"
    using assms(2-4) by (auto simp: xy fp_bounded_def abs_le_iff)
  then show ?thesis using fp_bounded_of_rat [OF assms(1) _ assms(5)] by (simp add: xy)
next
  case False
  then show ?thesis using assms(2,3) by (cases x; cases y) (auto simp: fp_bounded_def)
qed

lemma fp_bounded_fmul:
  assumes "f = f32 \<or> f = f64" and "fp_bounded a x" and "fp_bounded b y"
    and "a * b \<le> of_int k" and "k < 2 ^ fmt_prec f"
  shows "fp_bounded (of_int k) (fmul f x y)"
proof (cases "is_fin x \<and> is_fin y")
  case True
  then obtain s m t n where xy: "x = Fin s m" "y = Fin t n" by (cases x; cases y) auto
  have b: "0 \<le> m" "m \<le> a" "0 \<le> n" "n \<le> b" using assms(2,3) by (auto simp: xy fp_bounded_def)
  then have "m * n \<le> a * b" by (intro mult_mono) auto
  then show ?thesis using fp_bounded_round [OF assms(1) _ _ assms(5)] assms(4) b by (simp add: xy)
next
  case False
  then show ?thesis using assms(2,3) by (cases x; cases y) (auto simp: fp_bounded_def)
qed

lemma fp_bounded_fdiv:
  assumes "f = f32 \<or> f = f64" and "fp_bounded a x" and "1 \<le> n"
    and "a \<le> of_int k" and "k < 2 ^ fmt_prec f"
  shows "fp_bounded (of_int k) (fdiv f x (Fin t n))"
proof (cases x)
  case (Fin s m)
  have b: "0 \<le> m" "m \<le> a" using assms(2) by (auto simp: Fin fp_bounded_def)
  have "m / n \<le> m / 1" using b assms(3) by (intro divide_left_mono) auto
  then have "m / n \<le> of_int k" using b assms(4) by linarith
  then show ?thesis using fp_bounded_round [OF assms(1) _ _ assms(5), of "m / n"] b assms(3)
    by (simp add: Fin)
qed (use assms in \<open>auto simp: fp_bounded_def\<close>)

lemma fp_bounded_weaken: "fp_bounded a x \<Longrightarrow> a \<le> b \<Longrightarrow> fp_bounded b x"
  by (auto simp: fp_bounded_def split: fp.splits)

lemma fp_bounded_in_range:
  assumes "f = f32 \<or> f = f64" and "fp_bounded (of_int k) x" and "k < 2 ^ fmt_prec f"
  shows "in_range f x"
  using int_below_overflow [OF assms(1,3)] assms(2)
  by (auto simp: fp_bounded_def in_range_def split: fp.splits)

lemma bounded_in_range_f64: "fp_bounded a x \<Longrightarrow> a \<le> 1000 \<Longrightarrow> in_range f64 x"
  using fp_bounded_in_range [of f64 1000 x] fp_bounded_weaken [of a x 1000] by (simp add: f64_def)

lemma bounded_in_range_f32: "fp_bounded a x \<Longrightarrow> a \<le> 1000 \<Longrightarrow> in_range f32 x"
  using fp_bounded_in_range [of f32 1000 x] fp_bounded_weaken [of a x 1000] by (simp add: f32_def)

text \<open>Integer literals are exact; the others round.\<close>

lemma fp_of_rat_of_int:
  assumes "f = f32 \<or> f = f64" and "0 \<le> k" and "k < 2 ^ fmt_prec f"
  shows "fp_of_rat f False (of_int k) = Fin False (of_int k)"
  using assms int_below_overflow [OF assms(1,3)] rnd_mag_of_int [OF assms]
  by (auto simp: fp_of_rat_def fp_round_def Let_def)

lemma lit32_int:
  "lit32 (numeral k) = Fin False (numeral k)" if "numeral k < (2 :: int) ^ 24"
  using fp_of_rat_of_int [of f32 "numeral k"] that by (simp add: lit32_def f32_def)

lemma lit64_int:
  "lit64 (numeral k) = Fin False (numeral k)" if "numeral k < (2 :: int) ^ 53"
  using fp_of_rat_of_int [of f64 "numeral k"] that by (simp add: lit64_def f64_def)

lemma lit_small [simp]: "lit32 0 = Fin False 0" "lit32 1 = Fin False 1"
  using fp_of_rat_of_int [of f32 0] fp_of_rat_of_int [of f32 1] by (simp_all add: lit32_def f32_def)

section \<open>Results of the operations stay in the format\<close>

lemma in_range_fp_round: "0 \<le> m \<Longrightarrow> in_range f (fp_round f s m)"
  by (simp add: in_range_def fp_round_def Let_def rnd_mag_nonneg)

lemma in_range_fp_of_rat: "in_range f (fp_of_rat f s x)"
  by (cases "x = 0") (simp add: in_range_def fp_of_rat_def, simp add: fp_of_rat_def in_range_fp_round)

lemma in_range_to_f32: "in_range g x \<Longrightarrow> in_range f32 (to_f32 x)"
  by (cases x) (auto simp: in_range_def in_range_fp_round [unfolded in_range_def])

lemma in_range_lit32: "in_range f32 (lit32 x)"
  by (simp add: lit32_def in_range_fp_of_rat)

lemma in_range_lit64: "in_range f64 (lit64 x)"
  by (simp add: lit64_def in_range_fp_of_rat)

lemma in_range_fadd: "in_range f x \<Longrightarrow> in_range f y \<Longrightarrow> in_range f (fadd f x y)"
  by (cases x; cases y) (auto simp: in_range_fp_of_rat, auto simp: in_range_def)

lemma in_range_fmul: "in_range f x \<Longrightarrow> in_range f y \<Longrightarrow> in_range f (fmul f x y)"
  by (cases x; cases y) (auto simp: in_range_fp_round [unfolded in_range_def] in_range_def)

lemma in_range_fdiv: "in_range f x \<Longrightarrow> in_range f y \<Longrightarrow> in_range f (fdiv f x y)"
  by (cases x; cases y) (auto simp: in_range_fp_round [unfolded in_range_def] in_range_def)

section \<open>Length and characters of formatted values\<close>

lemma length_zero_pad: "0 < p \<Longrightarrow> n < 10 ^ p \<Longrightarrow> length (zero_pad p (dec n)) = p"
  using length_dec [of p n] by (simp add: zero_pad_def)

lemma length_fixed_dec:
  assumes "0 < p" and "0 < k" and "n div 10 ^ p < 10 ^ k"
  shows "length (fixed_dec p n) \<le> k + 1 + p"
  using assms length_dec [of k "n div 10 ^ p"] length_zero_pad [of p "n mod 10 ^ p"]
  by (simp add: fixed_dec_def)

lemma length_fmt_f_Fin:
  assumes "0 < p" and "0 < k" and "m \<le> of_int M" and "M < 10 ^ k"
  shows "length (fmt_f p (Fin s m)) \<le> k + 2 + p"
proof -
  let ?n = "round_even (m * 10 ^ p)"
  have "m * 10 ^ p \<le> of_int (M * 10 ^ p)" using assms(3) by simp
  then have "?n \<le> M * 10 ^ p" by (rule round_even_le_int)
  then have "?n div 10 ^ p \<le> M" using zdiv_mono1 [of ?n "M * 10 ^ p" "10 ^ p"] by simp
  then have "length (fixed_dec p ?n) \<le> k + 1 + p"
    using assms by (intro length_fixed_dec) auto
  then show ?thesis by simp
qed

lemma length_fmt_f:
  assumes "2 \<le> k" and "0 < p"
    and "\<And>s m. x = Fin s m \<Longrightarrow> m \<le> of_int M" and "M < 10 ^ k"
  shows "length (fmt_f p x) \<le> k + 2 + p"
proof (cases x)
  case (Fin s m)
  then show ?thesis using length_fmt_f_Fin [of p k m M s] assms by auto
qed (use assms in auto)

lemma length_fmt_f_f32:
  assumes "in_range f32 x" and "0 < p"
  shows "length (fmt_f p x) \<le> 41 + p"
proof -
  have "length (fmt_f p x) \<le> 39 + 2 + p"
  proof (rule length_fmt_f [where M = "2 ^ 128"])
    fix s m assume "x = Fin s m"
    then show "m \<le> of_int (2 ^ 128)" using assms(1) by (simp add: in_range_def f32_def pow2_def)
  qed (use assms in auto)
  then show ?thesis by simp
qed

lemma fixed_dec_chars:
  assumes "0 \<le> n" shows "c \<in> set (fixed_dec p n) \<Longrightarrow> is_digit c \<or> c = CHR ''.''"
proof -
  have z: "is_digit (CHR ''0'')" by (simp add: is_digit_def)
  assume "c \<in> set (fixed_dec p n)"
  then show ?thesis using assms z dec_digits [of "n div 10 ^ p" c] dec_digits [of "n mod 10 ^ p" c]
    by (auto simp: fixed_dec_def zero_pad_def pos_imp_zdiv_nonneg_iff split: if_splits)
qed

lemma fmt_f_chars:
  assumes "\<forall>s m. x = Fin s m \<longrightarrow> 0 \<le> m" and "is_fin x" and "c \<in> set (fmt_f p x)"
  shows "is_digit c \<or> c = CHR ''.'' \<or> c = CHR ''-''"
proof (cases x)
  case (Fin s m)
  then have "0 \<le> round_even (m * 10 ^ p)" using assms(1) by (intro round_even_nonneg) simp
  then show ?thesis using assms(3) Fin fixed_dec_chars by (auto split: if_splits)
qed (use assms in auto)

lemma fmt_f_no_NUL: "\<forall>s m. x = Fin s m \<longrightarrow> 0 \<le> m \<Longrightarrow> NUL \<notin> set (fmt_f p x)"
proof (cases "is_fin x")
  case True
  assume "\<forall>s m. x = Fin s m \<longrightarrow> 0 \<le> m"
  from fmt_f_chars [OF this True, where c = NUL] digit_not_special show ?thesis by auto
next
  case False
  then show ?thesis by (cases x) auto
qed

lemma fmt_f_in_range_no_NUL: "in_range f x \<Longrightarrow> NUL \<notin> set (fmt_f p x)"
  by (rule fmt_f_no_NUL) (auto simp: in_range_def)

end
