(* ===== verification/Drone_Types.thy ===== *)
theory Drone_Types
  imports C_Float
begin

text \<open>
  The shared types of \<^verbatim>\<open>include/drone_types.h\<close>: limits, error codes and the records the BSP fills
  and the RPC handlers print. A C enum that the code casts from a client-supplied \<^verbatim>\<open>int\<close> stays an
  integer with named constants, since the cast accepts any value.
\<close>

section \<open>Server configuration\<close>

definition DRONE_SERVER_PORT :: u16 where "DRONE_SERVER_PORT = 5555"
definition DRONE_RPC_BACKLOG :: int where "DRONE_RPC_BACKLOG = 4"
definition DRONE_MAX_CLIENTS :: nat where "DRONE_MAX_CLIENTS = 8"
definition DRONE_MAX_MSG_LEN :: nat where "DRONE_MAX_MSG_LEN = 4096"
definition DRONE_RECV_BUF_LEN :: nat where "DRONE_RECV_BUF_LEN = 8192"

section \<open>Error codes\<close>

datatype DroneError =
    DRONE_OK
  | DRONE_ERR_PSDK
  | DRONE_ERR_PARAM
  | DRONE_ERR_STATE
  | DRONE_ERR_TIMEOUT
  | DRONE_ERR_UNKNOWN

fun drone_error_code :: "DroneError \<Rightarrow> int" where
  "drone_error_code DRONE_OK = 0"
| "drone_error_code DRONE_ERR_PSDK = -1"
| "drone_error_code DRONE_ERR_PARAM = -2"
| "drone_error_code DRONE_ERR_STATE = -3"
| "drone_error_code DRONE_ERR_TIMEOUT = -4"
| "drone_error_code DRONE_ERR_UNKNOWN = -99"

section \<open>Records filled by the BSP\<close>

record DroneTelemetry =
  t_lat :: fp
  t_lon :: fp
  t_alt_msl_m :: fp
  t_alt_rel_m :: fp
  t_vx_ms :: fp
  t_vy_ms :: fp
  t_vz_ms :: fp
  t_heading_deg :: fp
  t_battery_pct :: u8
  t_battery_mv :: u32
  t_gps_sats :: u8
  t_gps_fix :: u8
  t_flight_status :: u8
  t_motors_on :: bool

record DroneGimbalAngle =
  pitch :: fp
  roll :: fp
  yaw :: fp

type_synonym CameraMode = int

definition CAMERA_MODE_PHOTO :: CameraMode where "CAMERA_MODE_PHOTO = 0"
definition CAMERA_MODE_VIDEO :: CameraMode where "CAMERA_MODE_VIDEO = 1"

record DroneCameraState =
  c_mode :: CameraMode
  c_is_recording :: bool
  c_zoom_factor :: fp

text \<open>\<open>b_current_ma\<close> and \<open>b_temperature_dc\<close> are \<^verbatim>\<open>int32_t\<close> and \<^verbatim>\<open>int16_t\<close>: read them with \<^const>\<open>sint\<close>.\<close>

record DroneBatteryInfo =
  b_voltage_mv :: u32
  b_current_ma :: u32
  b_remaining_pct :: u8
  b_temperature_dc :: u16
  b_cycle_count :: u32

record DroneRtkStatus =
  r_enabled :: bool
  r_fix_type :: u8
  r_satellites :: u8
  r_lat :: fp
  r_lon :: fp
  r_alt_m :: fp

record DroneHomeLocation =
  h_lat :: fp
  h_lon :: fp
  h_alt_m :: fp

type_synonym ObstacleAvoidMode = int

definition OBSTACLE_AVOID_CLOSE :: ObstacleAvoidMode where "OBSTACLE_AVOID_CLOSE = 0"
definition OBSTACLE_AVOID_OPEN :: ObstacleAvoidMode where "OBSTACLE_AVOID_OPEN = 1"
definition OBSTACLE_AVOID_BRAKE :: ObstacleAvoidMode where "OBSTACLE_AVOID_BRAKE = 2"

text \<open>The all-zero values that \<^verbatim>\<open>memset(out, 0, sizeof(*out))\<close> leaves.\<close>

abbreviation fzero :: fp where "fzero \<equiv> Fin False 0"

definition zero_telemetry :: DroneTelemetry where
  "zero_telemetry =
     \<lparr>t_lat = fzero, t_lon = fzero, t_alt_msl_m = fzero, t_alt_rel_m = fzero,
      t_vx_ms = fzero, t_vy_ms = fzero, t_vz_ms = fzero, t_heading_deg = fzero,
      t_battery_pct = 0, t_battery_mv = 0, t_gps_sats = 0, t_gps_fix = 0,
      t_flight_status = 0, t_motors_on = False\<rparr>"

definition zero_battery :: DroneBatteryInfo where
  "zero_battery =
     \<lparr>b_voltage_mv = 0, b_current_ma = 0, b_remaining_pct = 0, b_temperature_dc = 0,
      b_cycle_count = 0\<rparr>"

definition zero_rtk :: DroneRtkStatus where
  "zero_rtk =
     \<lparr>r_enabled = False, r_fix_type = 0, r_satellites = 0,
      r_lat = fzero, r_lon = fzero, r_alt_m = fzero\<rparr>"

lemmas drone_limits = DRONE_MAX_CLIENTS_def DRONE_MAX_MSG_LEN_def DRONE_RECV_BUF_LEN_def

end
