(* ===== verification/Environment.thy ===== *)
theory Environment
  imports Drone_Types
begin

text \<open>
  Everything outside the repository that the C code calls: the kernel and libc (clock, sockets,
  files), the math library and the DJI Payload SDK. A run is described by its trace, the list of
  calls made so far, oldest first. The environment \<^verbatim>\<open>env\<close> answers a call as a function of the trace
  that ends with it, so that its answers may depend on everything that happened before; it is a
  parameter of every definition that makes such a call, and theorems hold for every environment
  that satisfies the hypotheses they state.
\<close>

section \<open>Data crossing the boundary\<close>

record timespec =
  tv_sec :: int
  tv_nsec :: int

record sockaddr_in =
  sin_addr :: u32
  sin_port :: u16

datatype topic =
    TOPIC_POSITION_FUSED | TOPIC_VELOCITY | TOPIC_QUATERNION | TOPIC_GPS_DETAILS
  | TOPIC_STATUS_FLIGHT | TOPIC_BATTERY_INFO | TOPIC_BATTERY_SINGLE_INFO_INDEX1
  | TOPIC_BATTERY_SINGLE_INFO_INDEX2 | TOPIC_GIMBAL_ANGLES

datatype topic_freq = TOPIC_1_HZ | TOPIC_10_HZ

datatype topic_cb =
    CB_pos | CB_vel | CB_quat | CB_gps | CB_flight_status | CB_battery
  | CB_battery_single_1 | CB_battery_single_2 | CB_gimbal

datatype work_mode = SHOOT_PHOTO | RECORD_VIDEO | OTHER_MODE

datatype zoom_dir = ZOOM_IN | ZOOM_OUT

section \<open>Calls\<close>

datatype fc_call =
    DjiFcSubscription_Init
  | DjiFcSubscription_SubscribeTopic topic topic_freq topic_cb
  | DjiFcSubscription_DeInit
  | DjiFlightController_SetGoHomeAltitude int
  | DjiFlightController_SetHomeLocation fp fp
  | DjiFlightController_SetHorizontalAvoidance bool
  | DjiFlightController_SetUpwardsAvoidance bool

datatype cam_call =
    DjiCameraManager_Init
  | DjiCameraManager_DeInit
  | DjiCameraManager_GetMode
  | DjiCameraManager_GetRecordingState
  | DjiCameraManager_GetOpticalZoomParam
  | DjiCameraManager_SetMode work_mode
  | DjiCameraManager_SetOpticalZoomParam zoom_dir fp
  | DjiCameraManager_StartShootPhoto
  | DjiCameraManager_StartRecordVideo
  | DjiCameraManager_StopRecordVideo
  | DjiGimbalManager_Init
  | DjiGimbalManager_Deinit
  | DjiGimbalManager_Rotate fp fp fp fp

datatype wp_call =
    DjiWaypointV3_Init
  | DjiWaypointV3_RegMissionStateCallback
  | DjiWaypointV3_RegActionStateCallback
  | DjiWaypointV3_UploadKmzFile string int
  | DjiWaypointV3_DeInit

text \<open>The credentials given to \<^verbatim>\<open>DjiCore_Init\<close>, field by field as the bytes of their arrays.\<close>

record user_info =
  appName :: string
  appId :: string
  appKey :: string
  appLicense :: string
  developerAccount :: string
  baudRate :: string

text \<open>A platform handler table is registered as a list of (slot, implementation) names.\<close>

type_synonym handler_table = "(string \<times> string) list"

datatype core_call =
    DjiPlatform_RegOsalHandler handler_table
  | DjiPlatform_RegHalUartHandler handler_table
  | DjiPlatform_RegHalUsbBulkHandler handler_table
  | DjiPlatform_RegHalNetworkHandler handler_table
  | DjiPlatform_RegSocketHandler handler_table
  | DjiPlatform_RegFileSystemHandler handler_table
  | DjiLogger_AddConsole
  | DjiCore_Init user_info
  | DjiCore_SetAlias string
  | DjiCore_SetFirmwareVersion int int int int
  | DjiCore_SetSerialNumber string
  | DjiCore_ApplicationStart
  | DjiCore_DeInit

datatype file_call =
    Fopen string
  | Fseek_End
  | Ftell
  | Fseek_Set
  | Fread int
  | Fclose
  | GetOsalHandler
  | Osal_Malloc int
  | Osal_Free

datatype net_call =
    Calloc_Server
  | Free_Server
  | Socket_Dgram
  | Setsockopt_Reuse int
  | Inet_pton string
  | Bind int u32 u16
  | Close_Fd int
  | Poll int int
  | Recvfrom int nat
  | Sendto int sockaddr_in string
  | Socket_Stream
  | Listen int int
  | Accept int
  | Epoll_Create
  | Epoll_Add int int
  | Epoll_Del int int
  | Epoll_Wait int nat int
  | Fcntl_Getfl int
  | Fcntl_Setfl int int
  | Setsockopt_Nodelay int
  | Read int nat
  | Write int string

text \<open>
  Ownership of a parsed JSON document: created by the parser, released by \<^verbatim>\<open>json_object_put\<close>.
\<close>

datatype json_op = Tok_New | Root_New | Tok_Free | Root_Put

text \<open>Undefined behaviour of C reached by the code, recorded at the point where it happens.\<close>

datatype ub =
    Over_Read nat nat
  | Over_Write int int
  | Null_Deref
  | Float_Cast fp
  | Signed_Overflow int

datatype ev =
    Clock_Monotonic
  | Sigaction int
  | FC fc_call
  | Cam cam_call
  | WP wp_call
  | Core core_call
  | File file_call
  | Net net_call
  | Json json_op
  | UB ub

type_synonym trace = "ev list"

section \<open>The environment\<close>

text \<open>
  What the outside answers. \<open>env_undef_cast\<close> is what a cast of a value that does not fit happens to give.
\<close>

record env =
  env_clock :: "trace \<Rightarrow> timespec"
  env_ret :: "trace \<Rightarrow> int"
  env_dji_ok :: "trace \<Rightarrow> bool"
  env_work_mode :: "trace \<Rightarrow> work_mode"
  env_recording :: "trace \<Rightarrow> bool"
  env_zoom :: "trace \<Rightarrow> fp"
  env_datagram :: "trace \<Rightarrow> sockaddr_in \<times> string"
  env_read_data :: "trace \<Rightarrow> string"
  env_would_block :: "trace \<Rightarrow> bool"
  env_epoll :: "trace \<Rightarrow> int list"
  env_file_data :: "trace \<Rightarrow> string"
  env_sizeof :: "topic \<Rightarrow> nat"
  env_sin :: "fp \<Rightarrow> fp"
  env_cos :: "fp \<Rightarrow> fp"
  env_atan2f :: "fp \<Rightarrow> fp \<Rightarrow> fp"
  env_undef_cast :: "fp \<Rightarrow> int"

definition clock_gettime :: "env \<Rightarrow> trace \<Rightarrow> timespec \<times> trace" where
  "clock_gettime e tr = (env_clock e (tr @ [Clock_Monotonic]), tr @ [Clock_Monotonic])"

text \<open>A libc call with an integer result, and an SDK call with its status.\<close>

definition libc :: "env \<Rightarrow> ev \<Rightarrow> trace \<Rightarrow> int \<times> trace" where
  "libc e c tr = (env_ret e (tr @ [c]), tr @ [c])"

definition dji :: "env \<Rightarrow> ev \<Rightarrow> trace \<Rightarrow> bool \<times> trace" where
  "dji e c tr = (env_dji_ok e (tr @ [c]), tr @ [c])"

text \<open>
  What POSIX promises of \<^verbatim>\<open>CLOCK_MONOTONIC\<close>: readings are normalised, nonnegative and never go back.
\<close>

definition ts_ns :: "timespec \<Rightarrow> int" where
  "ts_ns t = tv_sec t * 1000000000 + tv_nsec t"

definition valid_ts :: "timespec \<Rightarrow> bool" where
  "valid_ts t \<longleftrightarrow> 0 \<le> tv_sec t \<and> 0 \<le> tv_nsec t \<and> tv_nsec t < 1000000000"

definition monotonic_clock :: "env \<Rightarrow> bool" where
  "monotonic_clock e \<longleftrightarrow>
     (\<forall>tr. valid_ts (env_clock e tr)) \<and>
     (\<forall>tr evs. ts_ns (env_clock e tr) \<le> ts_ns (env_clock e (tr @ evs)))"

text \<open>Milliseconds of a clock reading, and a clock whose milliseconds fit 64 bits.\<close>

definition ts_ms :: "timespec \<Rightarrow> int" where
  "ts_ms t = ts_ns t div 1000000"

definition clock_bounded :: "env \<Rightarrow> bool" where
  "clock_bounded e \<longleftrightarrow> (\<forall>tr. tv_sec (env_clock e tr) < 2 ^ 53)"

text \<open>
  What the code relies on of the math library: sine and cosine lie in [-1, 1] and the single-precision
  \<^verbatim>\<open>atan2f\<close> between minus and plus the \<^verbatim>\<open>float\<close> nearest to pi, or they are NaN.
\<close>

definition PI_F32 :: rat where "PI_F32 = 13176795 / 4194304"

definition libm_ok :: "env \<Rightarrow> bool" where
  "libm_ok e \<longleftrightarrow>
     (\<forall>x. fp_bounded 1 (env_sin e x) \<and> fp_bounded 1 (env_cos e x)) \<and>
     (\<forall>y x. fp_bounded PI_F32 (env_atan2f e y x))"

text \<open>Classes of events the component contracts talk about.\<close>

fun is_net :: "ev \<Rightarrow> bool" where
  "is_net (Net c) = True"
| "is_net _ = False"

fun is_ub :: "ev \<Rightarrow> bool" where
  "is_ub (UB u) = True"
| "is_ub _ = False"

definition sends :: "trace \<Rightarrow> (int \<times> sockaddr_in \<times> string) list" where
  "sends tr = List.map_filter
     (\<lambda>ev. case ev of Net (Sendto fd p m) \<Rightarrow> Some (fd, p, m) | _ \<Rightarrow> None) tr"

section \<open>Facts about traces\<close>

lemma sends_append [trace_simps]: "sends (a @ b) = sends a @ sends b"
  by (simp add: sends_def map_filter_def)

lemma sends_Nil [trace_simps]: "sends [] = []"
  by (simp add: sends_def map_filter_def)

lemma sends_Cons [trace_simps]:
  "sends (ev # evs) =
     (case ev of Net (Sendto fd p m) \<Rightarrow> (fd, p, m) # sends evs | _ \<Rightarrow> sends evs)"
proof (cases ev)
  case (Net c)
  then show ?thesis by (cases c) (simp_all add: sends_def map_filter_simps)
qed (simp_all add: sends_def map_filter_simps)

lemma sends_no_net [trace_simps]: "(\<forall>ev \<in> set evs. \<not> is_net ev) \<Longrightarrow> sends evs = []"
proof (induction evs)
  case (Cons ev evs)
  then show ?case by (cases ev) (auto simp: sends_Cons)
qed (simp add: sends_Nil)

section \<open>Milliseconds\<close>

lemma ts_ms_split: "ts_ms t = tv_sec t * 1000 + tv_nsec t div 1000000"
proof -
  have "ts_ns t = tv_nsec t + (tv_sec t * 1000) * 1000000" by (simp add: ts_ns_def)
  then show ?thesis by (simp add: ts_ms_def)
qed

lemma uint_ms_word:
  assumes "0 \<le> s" and "s < 2 ^ 53" and "0 \<le> n" and "n < 1000000000"
  shows "uint (word_of_int s * 1000 + word_of_int n div 1000000 :: u64) = s * 1000 + n div 1000000"
proof -
  have n: "uint (word_of_int n div 1000000 :: u64) = n div 1000000"
    using assms(3,4) by (simp add: uint_div_distrib uint_word_of_int_eq take_bit_int_eq_self)
  have s: "uint (word_of_int s * 1000 :: u64) = s * 1000"
    using assms(1,2) by (simp add: uint_word_arith_bintrs uint_word_of_int_eq take_bit_int_eq_self)
  have "n div 1000000 < 1000" using assms(4) by simp
  then show ?thesis
    using assms by (simp add: uint_add_lem [THEN iffD1] n s)
qed

end
