(* ===== verification/Drone_Ctrl_Api.thy ===== *)
theory Drone_Ctrl_Api
  imports Environment
begin

text \<open>
  The interface \<^verbatim>\<open>bsp/drone_ctrl.h\<close> between the RPC handlers and the board support package. The
  build links one of two providers, the stub or the PSDK implementation; a provider is a record of
  its operations over its own state. A getter returns its output structure or an error; an action
  returns its error code; a NULL path is \<^term>\<open>None\<close>. \<open>drone_bsp\<close> is the contract the handlers rely on.
\<close>

type_synonym ('b, 'r) bsp_op = "'b \<Rightarrow> trace \<Rightarrow> 'r \<times> 'b \<times> trace"

record 'b drone_ops =
  op_get_telemetry :: "('b, DroneError + DroneTelemetry) bsp_op"
  op_get_battery_info :: "('b, DroneError + DroneBatteryInfo) bsp_op"
  op_get_gimbal_angle :: "('b, DroneError + DroneGimbalAngle) bsp_op"
  op_get_camera_state :: "('b, DroneError + DroneCameraState) bsp_op"
  op_get_rtk_status :: "('b, DroneError + DroneRtkStatus) bsp_op"
  op_set_rth_altitude :: "fp \<Rightarrow> ('b, DroneError) bsp_op"
  op_set_gimbal_angle :: "DroneGimbalAngle \<Rightarrow> ('b, DroneError) bsp_op"
  op_set_camera_mode :: "CameraMode \<Rightarrow> ('b, DroneError) bsp_op"
  op_set_camera_zoom :: "fp \<Rightarrow> ('b, DroneError) bsp_op"
  op_set_home_location :: "DroneHomeLocation \<Rightarrow> ('b, DroneError) bsp_op"
  op_set_obstacle_avoidance :: "ObstacleAvoidMode \<Rightarrow> ('b, DroneError) bsp_op"
  op_shoot_photo :: "('b, DroneError) bsp_op"
  op_start_recording :: "('b, DroneError) bsp_op"
  op_stop_recording :: "('b, DroneError) bsp_op"
  op_upload_kmz :: "string option \<Rightarrow> ('b, DroneError) bsp_op"

text \<open>
  The directory uploads are read from, and the paths the upload handler builds in it: the directory,
  a slash and a file name that is not empty and contains neither a slash nor two adjacent dots, cut to
  the size of the path buffer.
\<close>

definition KMZ_BASE_DIR :: string where "KMZ_BASE_DIR = ''/home/orangepi/PSDK/kmz_data''"
definition PATH_MAX :: nat where "PATH_MAX = 4096"

definition kmz_path :: "string \<Rightarrow> bool" where
  "kmz_path p \<longleftrightarrow>
     (\<exists>name. name \<noteq> [] \<and> NUL \<notin> set name \<and> \<not> strstr name ''..'' \<and> \<not> strchr name (CHR ''/'') \<and>
        p = snprintf_text PATH_MAX (KMZ_BASE_DIR @ ''/'' @ name))"

text \<open>Calls a provider may make while it serves a request.\<close>

fun bsp_ev :: "ev \<Rightarrow> bool" where
  "bsp_ev (Net c) = False"
| "bsp_ev (File c) = (case c of Fopen p \<Rightarrow> kmz_path p | _ \<Rightarrow> True)"
| "bsp_ev _ = True"

lemma bsp_ev_not_net: "bsp_ev ev \<Longrightarrow> \<not> is_net ev"
  by (cases ev) auto

text \<open>
  One operation of a provider: it keeps the provider's invariant and only appends calls of this kind:
  no network call, and no file opened outside the upload directory.
\<close>

definition bsp_step :: "('b \<Rightarrow> bool) \<Rightarrow> ('b, 'r) bsp_op \<Rightarrow> bool" where
  "bsp_step I f \<longleftrightarrow>
     (\<forall>s tr r s' tr'. I s \<longrightarrow> f s tr = (r, s', tr') \<longrightarrow>
        I s' \<and> (\<exists>evs. tr' = tr @ evs \<and> (\<forall>ev \<in> set evs. bsp_ev ev)))"

definition gimbal_ok :: "DroneGimbalAngle \<Rightarrow> bool" where
  "gimbal_ok a \<longleftrightarrow> in_range f32 (pitch a) \<and> in_range f32 (roll a) \<and> in_range f32 (yaw a)"

lemma bsp_stepI:
  assumes "\<And>s tr r s' tr'. I s \<Longrightarrow> f s tr = (r, s', tr') \<Longrightarrow>
             I s' \<and> (\<exists>evs. tr' = tr @ evs \<and> (\<forall>ev \<in> set evs. bsp_ev ev))"
  shows "bsp_step I f"
  using assms unfolding bsp_step_def by blast

lemma bsp_stepE:
  assumes "bsp_step I f" and "I s" and "f s tr = (r, s', tr')"
  obtains evs where "I s'" and "tr' = tr @ evs" and "\<forall>ev \<in> set evs. bsp_ev ev"
  using assms unfolding bsp_step_def by blast

locale drone_bsp =
  fixes ops :: "'b drone_ops"
    and I :: "'b \<Rightarrow> bool"
  assumes get_telemetry: "bsp_step I (op_get_telemetry ops)"
    and get_battery_info: "bsp_step I (op_get_battery_info ops)"
    and get_gimbal_angle: "bsp_step I (op_get_gimbal_angle ops)"
    and get_camera_state: "bsp_step I (op_get_camera_state ops)"
    and get_rtk_status: "bsp_step I (op_get_rtk_status ops)"
    and set_rth_altitude: "in_range f32 x \<Longrightarrow> bsp_step I (op_set_rth_altitude ops x)"
    and set_gimbal_angle: "gimbal_ok a \<Longrightarrow> bsp_step I (op_set_gimbal_angle ops a)"
    and set_camera_mode: "0 \<le> m \<Longrightarrow> m < 2 ^ 31 \<Longrightarrow> bsp_step I (op_set_camera_mode ops m)"
    and set_camera_zoom: "in_range f32 x \<Longrightarrow> bsp_step I (op_set_camera_zoom ops x)"
    and set_home_location: "bsp_step I (op_set_home_location ops l)"
    and set_obstacle_avoidance: "bsp_step I (op_set_obstacle_avoidance ops m)"
    and shoot_photo: "bsp_step I (op_shoot_photo ops)"
    and start_recording: "bsp_step I (op_start_recording ops)"
    and stop_recording: "bsp_step I (op_stop_recording ops)"
    and upload_kmz: "kmz_path path \<Longrightarrow> bsp_step I (op_upload_kmz ops (Some path))"

text \<open>A hypothesis that does not mention the state can be carried in the invariant.\<close>

lemma bsp_step_const: "bsp_step I f \<Longrightarrow> bsp_step (\<lambda>s. I s \<and> P) f"
  unfolding bsp_step_def by blast

lemma drone_bsp_const: "drone_bsp ops I \<Longrightarrow> drone_bsp ops (\<lambda>s. I s \<and> P)"
  unfolding drone_bsp_def by (intro conjI allI impI bsp_step_const) auto

end
