(* ===== verification/Drone_Real.thy ===== *)
theory Drone_Real
  imports Drone_Ctrl_Api
begin

text \<open>
  The hardware build of \<^verbatim>\<open>bsp/drone_ctrl.c\<close> (\<^verbatim>\<open>PSDK_REAL\<close>): nine topic subscriptions whose callbacks
  cache the latest sample, readings computed from the cache, commands forwarded to the SDK, and the
  upload of a KMZ file. The samples are SDK structures of which the model keeps the fields the code
  reads; an integer field is its value as an integer, and the conversions the code writes are applied
  where it writes them. Here each callback and each operation is one step; \<^verbatim>\<open>Sdk_Threads\<close> has those that
  share the caches access by access.
\<close>

section \<open>Cached samples\<close>

record pos_sample =
  p_longitude :: fp
  p_latitude :: fp
  p_altitude :: fp
  p_visibleSatelliteNumber :: int

record vel_sample =
  v_x :: fp
  v_y :: fp
  v_z :: fp

record quat_sample =
  q0 :: fp
  q1 :: fp
  q2 :: fp
  q3 :: fp

record gps_sample =
  g_gpsSatelliteNumberUsed :: int
  g_fixState :: fp

record battery_sample =
  w_voltage :: int
  w_current :: int
  w_percentage :: int

record single_sample =
  s_batteryCapacityPercent :: int
  s_currentElectric :: int
  s_currentVoltage :: int
  s_batteryTemperature :: int

record gimbal_sample =
  gs_x :: fp
  gs_y :: fp
  gs_z :: fp

record TopicStats =
  ts_count :: u32
  ts_last_update_ms :: u64
  ts_logged :: bool

definition stats0 :: TopicStats where
  "stats0 = \<lparr>ts_count = 0, ts_last_update_ms = 0, ts_logged = False\<rparr>"

record real_state =
  g_quat :: quat_sample
  g_vel :: vel_sample
  g_pos_fused :: pos_sample
  g_gps :: gps_sample
  g_flight_status :: int
  g_battery :: battery_sample
  g_battery_single_1 :: single_sample
  g_battery_single_2 :: single_sample
  g_gimbal :: gimbal_sample
  g_pos_stats :: TopicStats
  g_vel_stats :: TopicStats
  g_quat_stats :: TopicStats
  g_gps_stats :: TopicStats
  g_flight_stats :: TopicStats
  g_battery_stats :: TopicStats
  g_battery_single_1_stats :: TopicStats
  g_battery_single_2_stats :: TopicStats
  g_gimbal_stats :: TopicStats
  s_waypoint_v3_inited :: bool

text \<open>Static storage starts zeroed.\<close>

definition real_initial :: real_state where
  "real_initial =
     \<lparr>g_quat = \<lparr>q0 = fzero, q1 = fzero, q2 = fzero, q3 = fzero\<rparr>,
      g_vel = \<lparr>v_x = fzero, v_y = fzero, v_z = fzero\<rparr>,
      g_pos_fused = \<lparr>p_longitude = fzero, p_latitude = fzero, p_altitude = fzero,
                     p_visibleSatelliteNumber = 0\<rparr>,
      g_gps = \<lparr>g_gpsSatelliteNumberUsed = 0, g_fixState = fzero\<rparr>,
      g_flight_status = 0,
      g_battery = \<lparr>w_voltage = 0, w_current = 0, w_percentage = 0\<rparr>,
      g_battery_single_1 = \<lparr>s_batteryCapacityPercent = 0, s_currentElectric = 0,
                            s_currentVoltage = 0, s_batteryTemperature = 0\<rparr>,
      g_battery_single_2 = \<lparr>s_batteryCapacityPercent = 0, s_currentElectric = 0,
                            s_currentVoltage = 0, s_batteryTemperature = 0\<rparr>,
      g_gimbal = \<lparr>gs_x = fzero, gs_y = fzero, gs_z = fzero\<rparr>,
      g_pos_stats = stats0, g_vel_stats = stats0, g_quat_stats = stats0, g_gps_stats = stats0,
      g_flight_stats = stats0, g_battery_stats = stats0, g_battery_single_1_stats = stats0,
      g_battery_single_2_stats = stats0, g_gimbal_stats = stats0,
      s_waypoint_v3_inited = False\<rparr>"

section \<open>Time and freshness\<close>

definition monotonic_ms :: "env \<Rightarrow> trace \<Rightarrow> u64 \<times> trace" where
  "monotonic_ms e tr =
     (let (ts, tr) = clock_gettime e tr
      in (word_of_int (tv_sec ts) * 1000 + word_of_int (tv_nsec ts) div 1000000, tr))"

definition mark_topic_rx :: "env \<Rightarrow> TopicStats \<Rightarrow> trace \<Rightarrow> TopicStats \<times> trace" where
  "mark_topic_rx e stats tr =
     (let stats = stats\<lparr>ts_count := ts_count stats + 1\<rparr>;
          (now, tr) = monotonic_ms e tr;
          stats = stats\<lparr>ts_last_update_ms := now\<rparr>
      in (if \<not> ts_logged stats then stats\<lparr>ts_logged := True\<rparr> else stats, tr))"

definition topic_is_fresh :: "env \<Rightarrow> TopicStats \<Rightarrow> u64 \<Rightarrow> trace \<Rightarrow> bool \<times> trace" where
  "topic_is_fresh e stats max_age_ms tr =
     (if ts_last_update_ms stats = 0 then (False, tr)
      else
        let (now_ms, tr) = monotonic_ms e tr
        in (ts_last_update_ms stats \<le> now_ms \<and> now_ms - ts_last_update_ms stats \<le> max_age_ms, tr))"

section \<open>Subscription callbacks\<close>

text \<open>
  A callback is given the received length and the sample its leading bytes denote. A buffer shorter
  than the sample structure, whose size is the SDK's, is dropped.
\<close>

definition cb_pos :: "env \<Rightarrow> pos_sample \<Rightarrow> nat \<Rightarrow> real_state \<Rightarrow> trace \<Rightarrow> real_state \<times> trace" where
  "cb_pos e data len s tr =
     (if env_sizeof e TOPIC_POSITION_FUSED \<le> len
      then let s = s\<lparr>g_pos_fused := data\<rparr>; (st, tr) = mark_topic_rx e (g_pos_stats s) tr
           in (s\<lparr>g_pos_stats := st\<rparr>, tr)
      else (s, tr))"

definition cb_vel :: "env \<Rightarrow> vel_sample \<Rightarrow> nat \<Rightarrow> real_state \<Rightarrow> trace \<Rightarrow> real_state \<times> trace" where
  "cb_vel e data len s tr =
     (if env_sizeof e TOPIC_VELOCITY \<le> len
      then let s = s\<lparr>g_vel := data\<rparr>; (st, tr) = mark_topic_rx e (g_vel_stats s) tr
           in (s\<lparr>g_vel_stats := st\<rparr>, tr)
      else (s, tr))"

definition cb_quat :: "env \<Rightarrow> quat_sample \<Rightarrow> nat \<Rightarrow> real_state \<Rightarrow> trace \<Rightarrow> real_state \<times> trace" where
  "cb_quat e data len s tr =
     (if env_sizeof e TOPIC_QUATERNION \<le> len
      then let s = s\<lparr>g_quat := data\<rparr>; (st, tr) = mark_topic_rx e (g_quat_stats s) tr
           in (s\<lparr>g_quat_stats := st\<rparr>, tr)
      else (s, tr))"

definition cb_gps :: "env \<Rightarrow> gps_sample \<Rightarrow> nat \<Rightarrow> real_state \<Rightarrow> trace \<Rightarrow> real_state \<times> trace" where
  "cb_gps e data len s tr =
     (if env_sizeof e TOPIC_GPS_DETAILS \<le> len
      then let s = s\<lparr>g_gps := data\<rparr>; (st, tr) = mark_topic_rx e (g_gps_stats s) tr
           in (s\<lparr>g_gps_stats := st\<rparr>, tr)
      else (s, tr))"

definition cb_flight_status :: "env \<Rightarrow> int \<Rightarrow> nat \<Rightarrow> real_state \<Rightarrow> trace \<Rightarrow> real_state \<times> trace" where
  "cb_flight_status e data len s tr =
     (if env_sizeof e TOPIC_STATUS_FLIGHT \<le> len
      then let s = s\<lparr>g_flight_status := data\<rparr>; (st, tr) = mark_topic_rx e (g_flight_stats s) tr
           in (s\<lparr>g_flight_stats := st\<rparr>, tr)
      else (s, tr))"

definition cb_battery :: "env \<Rightarrow> battery_sample \<Rightarrow> nat \<Rightarrow> real_state \<Rightarrow> trace \<Rightarrow> real_state \<times> trace" where
  "cb_battery e data len s tr =
     (if env_sizeof e TOPIC_BATTERY_INFO \<le> len
      then let s = s\<lparr>g_battery := data\<rparr>; (st, tr) = mark_topic_rx e (g_battery_stats s) tr
           in (s\<lparr>g_battery_stats := st\<rparr>, tr)
      else (s, tr))"

definition cb_battery_single_1 ::
    "env \<Rightarrow> single_sample \<Rightarrow> nat \<Rightarrow> real_state \<Rightarrow> trace \<Rightarrow> real_state \<times> trace" where
  "cb_battery_single_1 e data len s tr =
     (if env_sizeof e TOPIC_BATTERY_SINGLE_INFO_INDEX1 \<le> len
      then let s = s\<lparr>g_battery_single_1 := data\<rparr>;
               (st, tr) = mark_topic_rx e (g_battery_single_1_stats s) tr
           in (s\<lparr>g_battery_single_1_stats := st\<rparr>, tr)
      else (s, tr))"

definition cb_battery_single_2 ::
    "env \<Rightarrow> single_sample \<Rightarrow> nat \<Rightarrow> real_state \<Rightarrow> trace \<Rightarrow> real_state \<times> trace" where
  "cb_battery_single_2 e data len s tr =
     (if env_sizeof e TOPIC_BATTERY_SINGLE_INFO_INDEX2 \<le> len
      then let s = s\<lparr>g_battery_single_2 := data\<rparr>;
               (st, tr) = mark_topic_rx e (g_battery_single_2_stats s) tr
           in (s\<lparr>g_battery_single_2_stats := st\<rparr>, tr)
      else (s, tr))"

definition cb_gimbal :: "env \<Rightarrow> gimbal_sample \<Rightarrow> nat \<Rightarrow> real_state \<Rightarrow> trace \<Rightarrow> real_state \<times> trace" where
  "cb_gimbal e data len s tr =
     (if env_sizeof e TOPIC_GIMBAL_ANGLES \<le> len
      then let s = s\<lparr>g_gimbal := data\<rparr>; (st, tr) = mark_topic_rx e (g_gimbal_stats s) tr
           in (s\<lparr>g_gimbal_stats := st\<rparr>, tr)
      else (s, tr))"

section \<open>Init and deinit\<close>

definition subscriptions :: "(topic \<times> topic_freq \<times> topic_cb) list" where
  "subscriptions =
     [(TOPIC_POSITION_FUSED, TOPIC_10_HZ, CB_pos),
      (TOPIC_VELOCITY, TOPIC_10_HZ, CB_vel),
      (TOPIC_QUATERNION, TOPIC_10_HZ, CB_quat),
      (TOPIC_GPS_DETAILS, TOPIC_1_HZ, CB_gps),
      (TOPIC_STATUS_FLIGHT, TOPIC_1_HZ, CB_flight_status),
      (TOPIC_BATTERY_INFO, TOPIC_1_HZ, CB_battery),
      (TOPIC_BATTERY_SINGLE_INFO_INDEX1, TOPIC_1_HZ, CB_battery_single_1),
      (TOPIC_BATTERY_SINGLE_INFO_INDEX2, TOPIC_1_HZ, CB_battery_single_2),
      (TOPIC_GIMBAL_ANGLES, TOPIC_10_HZ, CB_gimbal)]"

text \<open>A subscription that fails is only logged.\<close>

fun subscribe_all :: "env \<Rightarrow> (topic \<times> topic_freq \<times> topic_cb) list \<Rightarrow> trace \<Rightarrow> trace" where
  "subscribe_all e [] tr = tr"
| "subscribe_all e ((t, f, cb) # subs) tr =
     (let (_, tr) = dji e (FC (DjiFcSubscription_SubscribeTopic t f cb)) tr
      in subscribe_all e subs tr)"

definition real_drone_ctrl_init :: "env \<Rightarrow> real_state \<Rightarrow> trace \<Rightarrow> int \<times> real_state \<times> trace" where
  "real_drone_ctrl_init e s tr =
     (let (ok, tr) = dji e (FC DjiFcSubscription_Init) tr in
      if \<not> ok then (-1, s, tr) else
      let tr = subscribe_all e subscriptions tr;
          (_, tr) = dji e (Cam DjiCameraManager_Init) tr;
          (_, tr) = dji e (Cam DjiGimbalManager_Init) tr
      in (0, s, tr))"

definition real_drone_ctrl_deinit :: "env \<Rightarrow> real_state \<Rightarrow> trace \<Rightarrow> real_state \<times> trace" where
  "real_drone_ctrl_deinit e s tr =
     (let (s, tr) =
            (if s_waypoint_v3_inited s
             then let (_, tr) = dji e (WP DjiWaypointV3_DeInit) tr
                  in (s\<lparr>s_waypoint_v3_inited := False\<rparr>, tr)
             else (s, tr));
          (_, tr) = dji e (Cam DjiGimbalManager_Deinit) tr;
          (_, tr) = dji e (Cam DjiCameraManager_DeInit) tr;
          (_, tr) = dji e (FC DjiFcSubscription_DeInit) tr
      in (s, tr))"

section \<open>Readings\<close>

definition yaw_to_heading :: "fp \<Rightarrow> fp" where
  "yaw_to_heading y =
     (let deg = fdiv f32 (fmul f32 y (lit32 180)) (lit32 (314159265 / 100000000))
      in if flt deg (lit32 0) then fadd f32 deg (lit32 360) else deg)"

definition quat_to_heading :: "env \<Rightarrow> quat_sample \<Rightarrow> fp" where
  "quat_to_heading e q =
     (let mul = fmul f32; add = fadd f32;
          yaw = env_atan2f e
                  (mul (lit32 2) (add (mul (q0 q) (q3 q)) (mul (q1 q) (q2 q))))
                  (fsub f32 (lit32 1)
                     (mul (lit32 2) (add (mul (q2 q) (q2 q)) (mul (q3 q) (q3 q)))))
      in yaw_to_heading yaw)"

definition rad_to_deg :: "fp \<Rightarrow> fp" where
  "rad_to_deg x = fdiv f64 (fmul f64 x (lit64 180)) (lit64 (314159265358979 / 100000000000000))"

text \<open>
  \<^verbatim>\<open>a += d\<close> on an \<^verbatim>\<open>int32_t\<close>: the sum is kept at its width, and a sum that does not fit is recorded as
  undefined.
\<close>

definition add_i32 :: "u32 \<Rightarrow> int \<Rightarrow> trace \<Rightarrow> u32 \<times> trace" where
  "add_i32 a d tr =
     (a + word_of_int d,
      if sint a + d < - (2 ^ 31) \<or> 2 ^ 31 \<le> sint a + d then tr @ [UB (Signed_Overflow (sint a + d))] else tr)"

text \<open>
  The cast of a \<^verbatim>\<open>float\<close> to an unsigned integer of \<open>w\<close> bits. A value that does not fit is recorded as
  undefined, and the program goes on with whatever the environment makes of the cast.
\<close>

definition cast_uint :: "env \<Rightarrow> nat \<Rightarrow> fp \<Rightarrow> trace \<Rightarrow> int \<times> trace" where
  "cast_uint e w x tr =
     (case fp_to_uint w x of
        Some n \<Rightarrow> (n, tr)
      | None \<Rightarrow> (env_undef_cast e x mod 2 ^ w, tr @ [UB (Float_Cast x)]))"

text \<open>
  The fallback to the single-battery topics when the whole-battery topic is stale: the mean of the
  percentages and the larger voltage of the batteries heard so far. The sum of the currents is
  computed but not reported.
\<close>

definition real_get_telemetry :: "env \<Rightarrow> (real_state, DroneError + DroneTelemetry) bsp_op" where
  "real_get_telemetry e s tr =
     (let sats_from_pos = (word_of_int (p_visibleSatelliteNumber (g_pos_fused s)) :: u32);
          sats_from_gps = (word_of_int (g_gpsSatelliteNumberUsed (g_gps s)) :: u32);
          (fix, tr) = cast_uint e 8 (g_fixState (g_gps s)) tr;
          out = zero_telemetry
            \<lparr>t_lat := rad_to_deg (p_latitude (g_pos_fused s)),
             t_lon := rad_to_deg (p_longitude (g_pos_fused s)),
             t_alt_msl_m := p_altitude (g_pos_fused s),
             t_alt_rel_m := p_altitude (g_pos_fused s),
             t_vx_ms := v_x (g_vel s),
             t_vy_ms := v_y (g_vel s),
             t_vz_ms := v_z (g_vel s),
             t_heading_deg := quat_to_heading e (g_quat s),
             t_battery_pct := word_of_int (w_percentage (g_battery s)),
             t_battery_mv := word_of_int (w_voltage (g_battery s)),
             t_gps_sats := ucast (if sats_from_pos < sats_from_gps then sats_from_gps else sats_from_pos),
             t_gps_fix := word_of_int fix,
             t_flight_status := word_of_int (g_flight_status s),
             t_motors_on := (0 < g_flight_status s)\<rparr>;
          (fresh, tr) = topic_is_fresh e (g_battery_stats s) 5000 tr
      in
      if \<not> fresh then
        let r1 = (ts_last_update_ms (g_battery_single_1_stats s) \<noteq> 0);
            r2 = (ts_last_update_ms (g_battery_single_2_stats s) \<noteq> 0)
        in
        if r1 \<or> r2 then
          let pct_sum = (0 :: u32); pct_count = (0 :: u32); current_sum = (0 :: u32); voltage_mv = (0 :: u32);
              (pct_sum, pct_count, voltage_mv, current_sum, tr) =
                (if r1 then
                   let v = word_of_int (s_currentVoltage (g_battery_single_1 s));
                       (current_sum, tr) = add_i32 current_sum (s_currentElectric (g_battery_single_1 s)) tr
                   in (pct_sum + word_of_int (s_batteryCapacityPercent (g_battery_single_1 s)),
                       pct_count + 1, if voltage_mv < v then v else voltage_mv, current_sum, tr)
                 else (pct_sum, pct_count, voltage_mv, current_sum, tr));
              (pct_sum, pct_count, voltage_mv, current_sum, tr) =
                (if r2 then
                   let v = word_of_int (s_currentVoltage (g_battery_single_2 s));
                       (current_sum, tr) = add_i32 current_sum (s_currentElectric (g_battery_single_2 s)) tr
                   in (pct_sum + word_of_int (s_batteryCapacityPercent (g_battery_single_2 s)),
                       pct_count + 1, if voltage_mv < v then v else voltage_mv, current_sum, tr)
                 else (pct_sum, pct_count, voltage_mv, current_sum, tr));
              out = (if 0 < pct_count then out\<lparr>t_battery_pct := ucast (pct_sum div pct_count)\<rparr> else out);
              out = out\<lparr>t_battery_mv := voltage_mv\<rparr>
          in (Inr out, s, tr)
        else (Inr out, s, tr)
      else (Inr out, s, tr))"

text \<open>
  The same fallback for the battery reply; here voltage and current continue from the values of the
  whole-battery sample. The comparison of temperatures is signed.
\<close>

definition real_get_battery_info :: "env \<Rightarrow> (real_state, DroneError + DroneBatteryInfo) bsp_op" where
  "real_get_battery_info e s tr =
     (let out = zero_battery
            \<lparr>b_voltage_mv := word_of_int (w_voltage (g_battery s)),
             b_current_ma := word_of_int (w_current (g_battery s)),
             b_remaining_pct := word_of_int (w_percentage (g_battery s)),
             b_temperature_dc := 0,
             b_cycle_count := 0\<rparr>;
          (fresh, tr) = topic_is_fresh e (g_battery_stats s) 5000 tr
      in
      if \<not> fresh then
        let pct_sum = (0 :: u32); pct_count = (0 :: u32);
            b1 = g_battery_single_1 s; b2 = g_battery_single_2 s;
            (out, pct_sum, pct_count, tr) =
              (if ts_last_update_ms (g_battery_single_1_stats s) \<noteq> 0 then
                 let (current, tr) = add_i32 (b_current_ma out) (s_currentElectric b1) tr
                 in (out\<lparr>b_voltage_mv := word_of_int (s_currentVoltage b1),
                         b_current_ma := current,
                         b_temperature_dc := word_of_int (s_batteryTemperature b1)\<rparr>,
                     pct_sum + word_of_int (s_batteryCapacityPercent b1), pct_count + 1, tr)
               else (out, pct_sum, pct_count, tr));
            (out, pct_sum, pct_count, tr) =
              (if ts_last_update_ms (g_battery_single_2_stats s) \<noteq> 0 then
                 let voltage_mv = word_of_int (s_currentVoltage b2);
                     out = (if b_voltage_mv out < voltage_mv
                            then out\<lparr>b_voltage_mv := voltage_mv\<rparr> else out);
                     (current, tr) = add_i32 (b_current_ma out) (s_currentElectric b2) tr;
                     out = out\<lparr>b_current_ma := current\<rparr>;
                     out = (if sint (b_temperature_dc out) < s_batteryTemperature b2
                            then out\<lparr>b_temperature_dc := word_of_int (s_batteryTemperature b2)\<rparr>
                            else out)
                 in (out, pct_sum + word_of_int (s_batteryCapacityPercent b2), pct_count + 1, tr)
               else (out, pct_sum, pct_count, tr));
            out = (if 0 < pct_count then out\<lparr>b_remaining_pct := ucast (pct_sum div pct_count)\<rparr> else out)
        in (Inr out, s, tr)
      else (Inr out, s, tr))"

definition real_get_gimbal_angle :: "(real_state, DroneError + DroneGimbalAngle) bsp_op" where
  "real_get_gimbal_angle s tr =
     (Inr \<lparr>pitch = gs_x (g_gimbal s), roll = gs_y (g_gimbal s), yaw = gs_z (g_gimbal s)\<rparr>, s, tr)"

definition real_get_camera_state :: "env \<Rightarrow> (real_state, DroneError + DroneCameraState) bsp_op" where
  "real_get_camera_state e s tr =
     (let (ok, tr) = dji e (Cam DjiCameraManager_GetMode) tr; mode = env_work_mode e tr in
      if \<not> ok then (Inl DRONE_ERR_PSDK, s, tr) else
      let m = (if mode = SHOOT_PHOTO then CAMERA_MODE_PHOTO else CAMERA_MODE_VIDEO);
          (ok, tr) = dji e (Cam DjiCameraManager_GetRecordingState) tr;
          is_recording = (ok \<and> env_recording e tr);
          (ok, tr) = dji e (Cam DjiCameraManager_GetOpticalZoomParam) tr;
          z = env_zoom e tr;
          zoom = (if ok \<and> flt (lit32 0) z then z else lit32 1)
      in (Inr \<lparr>c_mode = m, c_is_recording = is_recording, c_zoom_factor = zoom\<rparr>, s, tr))"

definition real_get_rtk_status :: "(real_state, DroneError + DroneRtkStatus) bsp_op" where
  "real_get_rtk_status s tr = (Inr (zero_rtk\<lparr>r_enabled := False, r_fix_type := 0\<rparr>), s, tr)"

section \<open>Settings and actions\<close>

definition dji_result :: "bool \<Rightarrow> DroneError" where
  "dji_result ok = (if ok then DRONE_OK else DRONE_ERR_PSDK)"

definition real_set_rth_altitude :: "env \<Rightarrow> fp \<Rightarrow> (real_state, DroneError) bsp_op" where
  "real_set_rth_altitude e alt_m s tr =
     (let (a, tr) = cast_uint e 16 alt_m tr;
          (ok, tr) = dji e (FC (DjiFlightController_SetGoHomeAltitude a)) tr
      in (dji_result ok, s, tr))"

definition real_set_gimbal_angle :: "env \<Rightarrow> DroneGimbalAngle \<Rightarrow> (real_state, DroneError) bsp_op" where
  "real_set_gimbal_angle e a s tr =
     (let (ok, tr) = dji e (Cam (DjiGimbalManager_Rotate (pitch a) (roll a) (yaw a) (lit32 (5 / 10)))) tr
      in (dji_result ok, s, tr))"

definition real_set_camera_mode :: "env \<Rightarrow> CameraMode \<Rightarrow> (real_state, DroneError) bsp_op" where
  "real_set_camera_mode e mode s tr =
     (let psdk_mode = (if mode = CAMERA_MODE_PHOTO then SHOOT_PHOTO else RECORD_VIDEO);
          (ok, tr) = dji e (Cam (DjiCameraManager_SetMode psdk_mode)) tr
      in (dji_result ok, s, tr))"

definition real_set_camera_zoom :: "env \<Rightarrow> fp \<Rightarrow> (real_state, DroneError) bsp_op" where
  "real_set_camera_zoom e zoom_factor s tr =
     (let dir = (if fge zoom_factor (lit32 1) then ZOOM_IN else ZOOM_OUT);
          (ok, tr) = dji e (Cam (DjiCameraManager_SetOpticalZoomParam dir zoom_factor)) tr
      in (dji_result ok, s, tr))"

definition real_set_home_location :: "env \<Rightarrow> DroneHomeLocation \<Rightarrow> (real_state, DroneError) bsp_op" where
  "real_set_home_location e loc s tr =
     (let (ok, tr) = dji e (FC (DjiFlightController_SetHomeLocation (h_lat loc) (h_lon loc))) tr
      in (dji_result ok, s, tr))"

text \<open>\<^term>\<open>True\<close> stands for \<^verbatim>\<open>DJI_FLIGHT_CONTROLLER_ENABLE_OBSTACLE_AVOIDANCE\<close>.\<close>

definition real_set_obstacle_avoidance :: "env \<Rightarrow> ObstacleAvoidMode \<Rightarrow> (real_state, DroneError) bsp_op" where
  "real_set_obstacle_avoidance e mode s tr =
     (let sw = (if mode = OBSTACLE_AVOID_CLOSE then True else False);
          (ok, tr) = dji e (FC (DjiFlightController_SetHorizontalAvoidance sw)) tr
      in
      if \<not> ok then (DRONE_ERR_PSDK, s, tr) else
      let (ok, tr) = dji e (FC (DjiFlightController_SetUpwardsAvoidance sw)) tr in
      if \<not> ok then (DRONE_ERR_PSDK, s, tr) else (DRONE_OK, s, tr))"

definition real_shoot_photo :: "env \<Rightarrow> (real_state, DroneError) bsp_op" where
  "real_shoot_photo e s tr =
     (let (ok, tr) = dji e (Cam DjiCameraManager_StartShootPhoto) tr in (dji_result ok, s, tr))"

definition real_start_recording :: "env \<Rightarrow> (real_state, DroneError) bsp_op" where
  "real_start_recording e s tr =
     (let (ok, tr) = dji e (Cam DjiCameraManager_StartRecordVideo) tr in (dji_result ok, s, tr))"

definition real_stop_recording :: "env \<Rightarrow> (real_state, DroneError) bsp_op" where
  "real_stop_recording e s tr =
     (let (ok, tr) = dji e (Cam DjiCameraManager_StopRecordVideo) tr in (dji_result ok, s, tr))"

section \<open>Waypoint upload\<close>

definition ensure_waypoint_v3_ready :: "env \<Rightarrow> (real_state, DroneError) bsp_op" where
  "ensure_waypoint_v3_ready e s tr =
     (if s_waypoint_v3_inited s then (DRONE_OK, s, tr) else
      let (ok, tr) = dji e (WP DjiWaypointV3_Init) tr in
      if \<not> ok then (DRONE_ERR_PSDK, s, tr) else
      let (ok, tr) = dji e (WP DjiWaypointV3_RegMissionStateCallback) tr in
      if \<not> ok then (DRONE_ERR_PSDK, s, tr) else
      let (ok, tr) = dji e (WP DjiWaypointV3_RegActionStateCallback) tr in
      if \<not> ok then (DRONE_ERR_PSDK, s, tr) else
      (DRONE_OK, s\<lparr>s_waypoint_v3_inited := True\<rparr>, tr))"

text \<open>
  From the opened file on: determine the size, allocate, read, upload. The allocation takes the size
  as \<^verbatim>\<open>uint32_t\<close> while \<^verbatim>\<open>fread\<close> takes it whole; bytes stored past the allocation are recorded.
\<close>

definition kmz_read_upload :: "env \<Rightarrow> trace \<Rightarrow> DroneError \<times> trace" where
  "kmz_read_upload e tr =
     (let (r, tr) = libc e (File Fseek_End) tr in
      if r \<noteq> 0 then (DRONE_ERR_UNKNOWN, tr @ [File Fclose]) else
      let (file_size, tr) = libc e (File Ftell) tr in
      if file_size \<le> 0 then (DRONE_ERR_PARAM, tr @ [File Fclose]) else
      let (r, tr) = libc e (File Fseek_Set) tr in
      if r \<noteq> 0 then (DRONE_ERR_UNKNOWN, tr @ [File Fclose]) else
      let (osal, tr) = libc e (File GetOsalHandler) tr in
      if osal = 0 then (DRONE_ERR_PSDK, tr @ [File Fclose]) else
      let size32 = uint (word_of_int file_size :: u32);
          (buf, tr) = libc e (File (Osal_Malloc size32)) tr
      in
      if buf = 0 then (DRONE_ERR_UNKNOWN, tr @ [File Fclose]) else
      let (read_len, tr) = libc e (File (Fread file_size)) tr;
          data = env_file_data e tr;
          tr = (if size32 < read_len then tr @ [UB (Over_Write read_len size32)] else tr);
          tr = tr @ [File Fclose]
      in
      if read_len \<noteq> file_size then (DRONE_ERR_UNKNOWN, tr @ [File Osal_Free]) else
      let (ok, tr) = dji e (WP (DjiWaypointV3_UploadKmzFile data size32)) tr;
          tr = tr @ [File Osal_Free]
      in (dji_result ok, tr))"

definition real_upload_kmz :: "env \<Rightarrow> string option \<Rightarrow> (real_state, DroneError) bsp_op" where
  "real_upload_kmz e path s tr =
     (case path of
        None \<Rightarrow> (DRONE_ERR_PARAM, s, tr)
      | Some p \<Rightarrow>
          if p = [] then (DRONE_ERR_PARAM, s, tr) else
          let (err, s, tr) = ensure_waypoint_v3_ready e s tr in
          if err \<noteq> DRONE_OK then (err, s, tr) else
          let (f, tr) = libc e (File (Fopen p)) tr in
          if f = 0 then (DRONE_ERR_PARAM, s, tr) else
          let (err, tr) = kmz_read_upload e tr in (err, s, tr))"

definition real_ops :: "env \<Rightarrow> real_state drone_ops" where
  "real_ops e =
     \<lparr>op_get_telemetry = real_get_telemetry e,
      op_get_battery_info = real_get_battery_info e,
      op_get_gimbal_angle = real_get_gimbal_angle,
      op_get_camera_state = real_get_camera_state e,
      op_get_rtk_status = real_get_rtk_status,
      op_set_rth_altitude = real_set_rth_altitude e,
      op_set_gimbal_angle = real_set_gimbal_angle e,
      op_set_camera_mode = real_set_camera_mode e,
      op_set_camera_zoom = real_set_camera_zoom e,
      op_set_home_location = real_set_home_location e,
      op_set_obstacle_avoidance = real_set_obstacle_avoidance e,
      op_shoot_photo = real_shoot_photo e,
      op_start_recording = real_start_recording e,
      op_stop_recording = real_stop_recording e,
      op_upload_kmz = real_upload_kmz e\<rparr>"

section \<open>The PSDK provider keeps the contract\<close>

text \<open>Invariant: the cached floating-point fields are values of their C types.\<close>

definition real_inv :: "real_state \<Rightarrow> bool" where
  "real_inv s \<longleftrightarrow>
     (\<forall>x \<in> {p_latitude (g_pos_fused s), p_longitude (g_pos_fused s)}. in_range f64 x) \<and>
     (\<forall>x \<in> {p_altitude (g_pos_fused s), v_x (g_vel s), v_y (g_vel s), v_z (g_vel s),
             q0 (g_quat s), q1 (g_quat s), q2 (g_quat s), q3 (g_quat s),
             gs_x (g_gimbal s), gs_y (g_gimbal s), gs_z (g_gimbal s)}. in_range f32 x)"

lemmas real_get_defs =
  real_get_telemetry_def real_get_battery_info_def real_get_gimbal_angle_def
  real_get_camera_state_def real_get_rtk_status_def

lemmas real_set_defs =
  cast_uint_def real_set_rth_altitude_def real_set_gimbal_angle_def real_set_camera_mode_def
  real_set_camera_zoom_def real_set_home_location_def real_set_obstacle_avoidance_def
  real_shoot_photo_def real_start_recording_def real_stop_recording_def

lemma topic_is_fresh_trace:
  "topic_is_fresh e st age tr = (b, tr') \<Longrightarrow> tr' = tr \<or> tr' = tr @ [Clock_Monotonic]"
  by (auto simp: topic_is_fresh_def monotonic_ms_def clock_gettime_def Let_def split: if_splits)

text \<open>
  What a reading appends: at most a reading of the clock, overflows of a sum of currents and a cast of the
  GPS fix that does not fit.
\<close>

definition reading_trace :: "trace \<Rightarrow> trace \<Rightarrow> bool" where
  "reading_trace tr tr' \<longleftrightarrow>
     (\<exists>evs. tr' = tr @ evs \<and> (\<forall>ev \<in> set evs. ev = Clock_Monotonic \<or> (\<exists>u. ev = UB u)))"

lemma reading_trace_refl [simp]: "reading_trace tr tr"
  by (simp add: reading_trace_def)

lemma reading_trace_trans: "reading_trace a b \<Longrightarrow> reading_trace b c \<Longrightarrow> reading_trace a c"
  by (fastforce simp: reading_trace_def)

lemma reading_trace_fresh: "topic_is_fresh e st age tr = (b, tr') \<Longrightarrow> reading_trace tr tr'"
  using topic_is_fresh_trace [of e st age tr b tr'] by (auto simp: reading_trace_def)

lemma reading_trace_add: "add_i32 a d tr = (c, tr') \<Longrightarrow> reading_trace tr tr'"
  by (auto simp: reading_trace_def add_i32_def split: if_splits)

lemma cast_uint_zero [simp]: "cast_uint e w fzero tr = (0, tr)"
  by (simp add: cast_uint_def)

lemma reading_trace_cast: "cast_uint e w x tr = (n, tr') \<Longrightarrow> reading_trace tr tr'"
  by (auto simp: reading_trace_def cast_uint_def split: option.splits)

lemma add_i32_fst: "add_i32 a d tr = (c, tr') \<Longrightarrow> c = a + word_of_int d"
  by (simp add: add_i32_def)

lemma reading_trace_bsp: "reading_trace tr tr' \<Longrightarrow> \<exists>evs. tr' = tr @ evs \<and> (\<forall>ev \<in> set evs. bsp_ev ev)"
  by (fastforce simp: reading_trace_def)

lemma real_get_telemetry_frame:
  "real_get_telemetry e s tr = (r, s', tr') \<Longrightarrow> s' = s \<and> reading_trace tr tr' \<and> (\<exists>t. r = Inr t)"
  by (auto simp: real_get_telemetry_def Let_def split: prod.splits if_splits
      dest!: reading_trace_cast reading_trace_fresh reading_trace_add intro: reading_trace_trans)

lemma real_get_battery_info_frame:
  "real_get_battery_info e s tr = (r, s', tr') \<Longrightarrow> s' = s \<and> reading_trace tr tr' \<and> (\<exists>t. r = Inr t)"
  by (auto simp: real_get_battery_info_def Let_def split: prod.splits if_splits
      dest!: reading_trace_fresh reading_trace_add intro: reading_trace_trans)

lemma kmz_read_upload_trace:
  "kmz_read_upload e tr = (r, tr') \<Longrightarrow> \<exists>evs. tr' = tr @ evs \<and> (\<forall>ev \<in> set evs. bsp_ev ev)"
  by (auto simp: kmz_read_upload_def libc_def dji_def Let_def split: if_splits)

lemma ensure_waypoint_trace:
  "ensure_waypoint_v3_ready e s tr = (r, s', tr') \<Longrightarrow>
     (\<exists>evs. tr' = tr @ evs \<and> (\<forall>ev \<in> set evs. bsp_ev ev)) \<and> (s' = s \<or> s' = s\<lparr>s_waypoint_v3_inited := True\<rparr>)"
  by (auto simp: ensure_waypoint_v3_ready_def dji_def Let_def split: if_splits)

text \<open>
  The operations change nothing of the state but the waypoint flag: an invariant that does not depend
  on it is kept by all of them.
\<close>

definition flag_free :: "(real_state \<Rightarrow> bool) \<Rightarrow> bool" where
  "flag_free I \<longleftrightarrow> (\<forall>s b. I s \<longrightarrow> I (s\<lparr>s_waypoint_v3_inited := b\<rparr>))"

lemma real_upload_kmz_step:
  assumes "flag_free I" and "kmz_path p" shows "bsp_step I (real_upload_kmz e (Some p))"
proof (rule bsp_stepI)
  fix s tr r s' tr'
  assume inv: "I s" and run: "real_upload_kmz e (Some p) s tr = (r, s', tr')"
  obtain err s1 tr1 where w: "ensure_waypoint_v3_ready e s tr = (err, s1, tr1)"
    by (cases "ensure_waypoint_v3_ready e s tr") auto
  obtain evs1 where e1: "tr1 = tr @ evs1" "\<forall>ev \<in> set evs1. bsp_ev ev"
    and s1: "s1 = s \<or> s1 = s\<lparr>s_waypoint_v3_inited := True\<rparr>"
    using ensure_waypoint_trace [OF w] by blast
  have inv1: "I s1" using s1 inv assms by (auto simp: flag_free_def)
  obtain err2 tr2 where k: "kmz_read_upload e (tr1 @ [File (Fopen p)]) = (err2, tr2)"
    by (cases "kmz_read_upload e (tr1 @ [File (Fopen p)])") auto
  obtain evs2 where e2: "tr2 = (tr1 @ [File (Fopen p)]) @ evs2" "\<forall>ev \<in> set evs2. bsp_ev ev"
    using kmz_read_upload_trace [OF k] by blast
  show "I s' \<and> (\<exists>evs. tr' = tr @ evs \<and> (\<forall>ev \<in> set evs. bsp_ev ev))"
    using run w k e1 e2 inv inv1 assms(2)
    by (auto simp: real_upload_kmz_def libc_def Let_def split: if_splits)
qed

lemma real_bsp:
  assumes "flag_free I" shows "drone_bsp (real_ops e) I"
proof unfold_locales
  show "bsp_step I (op_get_telemetry (real_ops e))"
    by (rule bsp_stepI) (auto simp: real_ops_def dest!: real_get_telemetry_frame reading_trace_bsp)
  show "bsp_step I (op_get_battery_info (real_ops e))"
    by (rule bsp_stepI) (auto simp: real_ops_def dest!: real_get_battery_info_frame reading_trace_bsp)
  show "kmz_path p \<Longrightarrow> bsp_step I (op_upload_kmz (real_ops e) (Some p))" for p
    by (simp add: real_ops_def real_upload_kmz_step [OF assms])
qed (rule bsp_stepI;
     auto simp: real_ops_def real_get_gimbal_angle_def real_get_camera_state_def
       real_get_rtk_status_def real_set_defs dji_def Let_def split: if_splits option.splits)+

interpretation real: drone_bsp "real_ops e" real_inv
  by (rule real_bsp) (auto simp: flag_free_def real_inv_def)

lemma real_inv_initial: "real_inv real_initial"
  by (simp add: real_inv_def real_initial_def in_range_def f32_def f64_def pow2_def)

end
