(* ===== verification/Shared_Memory.thy ===== *)
theory Shared_Memory
  imports Drone_Real
begin

text \<open>
  Two threads on one memory. The SDK calls the subscription callbacks of \<^verbatim>\<open>bsp/drone_ctrl.c\<close> on a thread
  of its own while the main thread reads the same file-scope variables, without a lock. Here a thread
  is a tree of single accesses, two threads run under an arbitrary schedule, and what a thread
  establishes is stated against everything the other one may do in between (rely and guarantee). An
  access reads or writes one scalar at once, and accesses take effect in the order of the source.
\<close>

named_theorems thread_simps

section \<open>Threads\<close>

text \<open>
  A thread as what it does next: finish with a result, read the memory, write it, read the monotonic
  clock, or run into undefined behaviour, which is recorded.
\<close>

datatype ('s, 'a) prog =
    Ret 'a
  | Load "'s \<Rightarrow> ('s, 'a) prog"
  | Store "'s \<Rightarrow> 's" "('s, 'a) prog"
  | Now "u64 \<Rightarrow> ('s, 'a) prog"
  | Note ub "('s, 'a) prog"

text \<open>One scalar is read by its accessor; a list of stores is carried out in its order.\<close>

definition load :: "('s \<Rightarrow> 'v) \<Rightarrow> ('v \<Rightarrow> ('s, 'a) prog) \<Rightarrow> ('s, 'a) prog" where
  "load f k = Load (\<lambda>s. k (f s))"

definition stores :: "('s \<Rightarrow> 's) list \<Rightarrow> ('s, 'a) prog \<Rightarrow> ('s, 'a) prog" where
  "stores fs k = foldr Store fs k"

fun prog_step :: "env \<Rightarrow> ('s, 'a) prog \<Rightarrow> 's \<Rightarrow> trace \<Rightarrow> ('s, 'a) prog \<times> 's \<times> trace" where
  "prog_step e (Ret x) s tr = (Ret x, s, tr)"
| "prog_step e (Load k) s tr = (k s, s, tr)"
| "prog_step e (Store f p) s tr = (p, f s, tr)"
| "prog_step e (Now k) s tr = (case monotonic_ms e tr of (t, tr) \<Rightarrow> (k t, s, tr))"
| "prog_step e (Note u p) s tr = (p, s, tr @ [UB u])"

text \<open>A thread that nothing disturbs, from here to its end.\<close>

primrec run_alone :: "env \<Rightarrow> ('s, 'a) prog \<Rightarrow> 's \<Rightarrow> trace \<Rightarrow> 'a \<times> 's \<times> trace" where
  "run_alone e (Ret x) s tr = (x, s, tr)"
| "run_alone e (Load k) s tr = run_alone e (k s) s tr"
| "run_alone e (Store f p) s tr = run_alone e p (f s) tr"
| "run_alone e (Now k) s tr = run_alone e (k (fst (monotonic_ms e tr))) s (snd (monotonic_ms e tr))"
| "run_alone e (Note u p) s tr = run_alone e p s (tr @ [UB u])"

section \<open>Two threads under a schedule\<close>

datatype turn = Main_Thread | Sdk_Thread

record ('s, 'a) threads =
  th_main :: "('s, 'a) prog"
  th_sdk :: "('s, unit) prog"
  th_mem :: 's
  th_trace :: trace

fun sched_step :: "env \<Rightarrow> turn \<Rightarrow> ('s, 'a) threads \<Rightarrow> ('s, 'a) threads" where
  "sched_step e Main_Thread c =
     (case prog_step e (th_main c) (th_mem c) (th_trace c) of
        (p, s, tr) \<Rightarrow> c\<lparr>th_main := p, th_mem := s, th_trace := tr\<rparr>)"
| "sched_step e Sdk_Thread c =
     (case prog_step e (th_sdk c) (th_mem c) (th_trace c) of
        (p, s, tr) \<Rightarrow> c\<lparr>th_sdk := p, th_mem := s, th_trace := tr\<rparr>)"

definition sched_run :: "env \<Rightarrow> turn list \<Rightarrow> ('s, 'a) threads \<Rightarrow> ('s, 'a) threads" where
  "sched_run e sch c = fold (sched_step e) sch c"

text \<open>The contents of the memory along a schedule, the first and the last included.\<close>

fun memories :: "env \<Rightarrow> turn list \<Rightarrow> ('s, 'a) threads \<Rightarrow> 's list" where
  "memories e [] c = [th_mem c]"
| "memories e (t # sch) c = th_mem c # memories e sch (sched_step e t c)"

lemma sched_run_simps [simp]:
  "sched_run e [] c = c"
  "sched_run e (t # sch) c = sched_run e sch (sched_step e t c)"
  "sched_run e (sch @ sch') c = sched_run e sch' (sched_run e sch c)"
  by (simp_all add: sched_run_def)

lemma memories_self [simp]: "th_mem c \<in> set (memories e sch c)"
  by (cases sch) simp_all

text \<open>What an access appends to the trace: a reading of the clock or undefined behaviour.\<close>

definition access_trace :: "trace \<Rightarrow> trace \<Rightarrow> bool" where
  "access_trace tr tr' \<longleftrightarrow>
     (\<exists>evs. tr' = tr @ evs \<and> (\<forall>ev \<in> set evs. ev = Clock_Monotonic \<or> (\<exists>u. ev = UB u)))"

lemma access_trace_refl [simp]: "access_trace tr tr"
  by (simp add: access_trace_def)

lemma access_trace_trans: "access_trace a b \<Longrightarrow> access_trace b c \<Longrightarrow> access_trace a c"
  by (fastforce simp: access_trace_def)

lemma access_trace_now [simp]: "access_trace tr (snd (monotonic_ms e tr))"
  by (simp add: access_trace_def monotonic_ms_def clock_gettime_def)

lemma access_trace_note [simp]: "access_trace tr (tr @ [UB u])"
  by (simp add: access_trace_def)

lemma prog_step_trace: "prog_step e p s tr = (p', s', tr') \<Longrightarrow> access_trace tr tr'"
  by (cases p) (auto simp: access_trace_def monotonic_ms_def clock_gettime_def)

lemma sched_step_trace: "access_trace (th_trace c) (th_trace (sched_step e t c))"
  by (cases t) (auto dest: prog_step_trace split: prod.split)

lemma sched_run_trace: "access_trace (th_trace c) (th_trace (sched_run e sch c))"
proof (induction sch arbitrary: c)
  case (Cons t sch)
  then show ?case using access_trace_trans [OF sched_step_trace [of c e t]] by simp
qed simp

lemma run_alone_trace: "run_alone e p s tr = (x, s', tr') \<Longrightarrow> access_trace tr tr'"
proof (induction p arbitrary: s tr)
  case (Load k)
  then show ?case by (simp add: Load.IH [OF rangeI])
next
  case (Now k)
  then show ?case using access_trace_trans [OF access_trace_now [of tr e]] Now.IH [OF rangeI] by simp
next
  case (Note u p)
  then show ?case using access_trace_trans [OF access_trace_note [of tr u]] by simp
qed simp_all

section \<open>What a thread establishes under interference\<close>

text \<open>
  A clock that shows only values in \<open>C\<close> from a trace on.
\<close>

definition clock_shows :: "env \<Rightarrow> (u64 \<Rightarrow> bool) \<Rightarrow> trace \<Rightarrow> bool" where
  "clock_shows e C tr \<longleftrightarrow> (\<forall>evs. C (fst (monotonic_ms e (tr @ evs))))"

lemma clock_shows_later: "clock_shows e C tr \<Longrightarrow> access_trace tr tr' \<Longrightarrow> clock_shows e C tr'"
  by (auto simp: clock_shows_def access_trace_def)

lemma clock_shows_now: "clock_shows e C tr \<Longrightarrow> C (fst (monotonic_ms e tr))"
  unfolding clock_shows_def by (drule spec [of _ "[]"]) simp

text \<open>
  The result of the thread satisfies \<open>Q\<close> if every memory it reads satisfies \<open>P\<close> and every clock reading
  \<open>C\<close>: the rely of the thread is that \<open>P\<close> holds throughout, whoever writes.
\<close>

primrec sat :: "(u64 \<Rightarrow> bool) \<Rightarrow> ('s \<Rightarrow> bool) \<Rightarrow> ('a \<Rightarrow> bool) \<Rightarrow> ('s, 'a) prog \<Rightarrow> bool" where
  "sat C P Q (Ret x) = Q x"
| "sat C P Q (Load k) = (\<forall>s. P s \<longrightarrow> sat C P Q (k s))"
| "sat C P Q (Store f p) = sat C P Q p"
| "sat C P Q (Now k) = (\<forall>t. C t \<longrightarrow> sat C P Q (k t))"
| "sat C P Q (Note u p) = sat C P Q p"

text \<open>The thread keeps \<open>P\<close>: its guarantee.\<close>

primrec keeps :: "(u64 \<Rightarrow> bool) \<Rightarrow> ('s \<Rightarrow> bool) \<Rightarrow> ('s, 'a) prog \<Rightarrow> bool" where
  "keeps C P (Ret x) = True"
| "keeps C P (Load k) = (\<forall>s. P s \<longrightarrow> keeps C P (k s))"
| "keeps C P (Store f p) = ((\<forall>s. P s \<longrightarrow> P (f s)) \<and> keeps C P p)"
| "keeps C P (Now k) = (\<forall>t. C t \<longrightarrow> keeps C P (k t))"
| "keeps C P (Note u p) = keeps C P p"

primrec reads_only :: "('s, 'a) prog \<Rightarrow> bool" where
  "reads_only (Ret x) = True"
| "reads_only (Load k) = (\<forall>s. reads_only (k s))"
| "reads_only (Store f p) = False"
| "reads_only (Now k) = (\<forall>t. reads_only (k t))"
| "reads_only (Note u p) = reads_only p"

text \<open>The thread ends within \<open>n\<close> steps of its own, whatever it reads.\<close>

primrec ends_in :: "('s, 'a) prog \<Rightarrow> nat \<Rightarrow> bool" where
  "ends_in (Ret x) n = True"
| "ends_in (Load k) n = (case n of 0 \<Rightarrow> False | Suc m \<Rightarrow> \<forall>s. ends_in (k s) m)"
| "ends_in (Store f p) n = (case n of 0 \<Rightarrow> False | Suc m \<Rightarrow> ends_in p m)"
| "ends_in (Now k) n = (case n of 0 \<Rightarrow> False | Suc m \<Rightarrow> \<forall>t. ends_in (k t) m)"
| "ends_in (Note u p) n = (case n of 0 \<Rightarrow> False | Suc m \<Rightarrow> ends_in p m)"

lemma load_simps [thread_simps]:
  "prog_step e (load f k) s tr = (k (f s), s, tr)"
  "run_alone e (load f k) s tr = run_alone e (k (f s)) s tr"
  "sat C P Q (load f k) = (\<forall>s. P s \<longrightarrow> sat C P Q (k (f s)))"
  "keeps C P (load f k) = (\<forall>s. P s \<longrightarrow> keeps C P (k (f s)))"
  "reads_only (load f k) = (\<forall>s. reads_only (k (f s)))"
  "ends_in (load f k) (Suc n) = (\<forall>s. ends_in (k (f s)) n)"
  by (simp_all add: load_def)

lemma run_alone_stores [thread_simps]: "run_alone e (stores fs k) s tr = run_alone e k (fold id fs s) tr"
  by (induction fs arbitrary: s) (simp_all add: stores_def)

lemma keeps_stores [thread_simps]:
  "keeps C P (stores fs k) \<longleftrightarrow> (\<forall>f \<in> set fs. \<forall>s. P s \<longrightarrow> P (f s)) \<and> keeps C P k"
  by (induction fs) (auto simp: stores_def)

lemma ends_in_stores: "ends_in k n \<Longrightarrow> ends_in (stores fs k) (length fs + n)"
  by (induction fs) (simp_all add: stores_def)

lemma reads_only_keeps: "reads_only p \<Longrightarrow> keeps C P p"
proof (induction p)
  case (Load k)
  then show ?case using rangeI [of k] by simp
next
  case (Now k)
  then show ?case using rangeI [of k] by simp
qed simp_all

lemma ends_in_mono: "ends_in p n \<Longrightarrow> n \<le> m \<Longrightarrow> ends_in p m"
proof (induction p arbitrary: n m)
  case (Load k)
  from Load.prems obtain i j where "n = Suc i" "m = Suc j" "\<forall>s. ends_in (k s) i" "i \<le> j"
    by (cases n; cases m) simp_all
  then show ?case using Load.IH [OF rangeI, of _ i j] by simp
next
  case (Store f p)
  from Store.prems obtain i j where "n = Suc i" "m = Suc j" "ends_in p i" "i \<le> j"
    by (cases n; cases m) simp_all
  then show ?case using Store.IH by simp
next
  case (Now k)
  from Now.prems obtain i j where "n = Suc i" "m = Suc j" "\<forall>t. ends_in (k t) i" "i \<le> j"
    by (cases n; cases m) simp_all
  then show ?case using Now.IH [OF rangeI, of _ i j] by simp
next
  case (Note u p)
  from Note.prems obtain i j where "n = Suc i" "m = Suc j" "ends_in p i" "i \<le> j"
    by (cases n; cases m) simp_all
  then show ?case using Note.IH by simp
qed simp

section \<open>Soundness along schedules\<close>

lemma keeps_step:
  assumes "keeps C P p" and "P s" and "clock_shows e C tr" and "prog_step e p s tr = (p', s', tr')"
  shows "keeps C P p' \<and> P s' \<and> clock_shows e C tr'"
proof -
  have "clock_shows e C tr'" by (rule clock_shows_later [OF assms(3) prog_step_trace [OF assms(4)]])
  then show ?thesis using assms clock_shows_now [OF assms(3)] by (cases p) (auto split: prod.splits)
qed

text \<open>Both threads keep \<open>P\<close>, which holds, under a clock that shows \<open>C\<close>.\<close>

definition both_keep :: "env \<Rightarrow> (u64 \<Rightarrow> bool) \<Rightarrow> ('s \<Rightarrow> bool) \<Rightarrow> ('s, 'a) threads \<Rightarrow> bool" where
  "both_keep e C P c \<longleftrightarrow>
     keeps C P (th_main c) \<and> keeps C P (th_sdk c) \<and> P (th_mem c) \<and> clock_shows e C (th_trace c)"

lemma both_keep_step: "both_keep e C P c \<Longrightarrow> both_keep e C P (sched_step e t c)"
proof (cases t)
  case Main_Thread
  obtain p s tr where st: "prog_step e (th_main c) (th_mem c) (th_trace c) = (p, s, tr)" by (metis prod_cases3)
  assume "both_keep e C P c"
  then show ?thesis using Main_Thread st keeps_step [OF _ _ _ st, of C P] by (simp add: both_keep_def)
next
  case Sdk_Thread
  obtain p s tr where st: "prog_step e (th_sdk c) (th_mem c) (th_trace c) = (p, s, tr)" by (metis prod_cases3)
  assume "both_keep e C P c"
  then show ?thesis using Sdk_Thread st keeps_step [OF _ _ _ st, of C P] by (simp add: both_keep_def)
qed

lemma both_keep_run: "both_keep e C P c \<Longrightarrow> both_keep e C P (sched_run e sch c)"
  by (induction sch arbitrary: c) (simp_all add: both_keep_step del: sched_step.simps)

lemma memories_keep: "both_keep e C P c \<Longrightarrow> \<forall>s \<in> set (memories e sch c). P s"
proof (induction sch arbitrary: c)
  case (Cons t sch)
  then show ?case using both_keep_step [of e C P c t] by (simp add: both_keep_def del: sched_step.simps)
qed (simp add: both_keep_def)

lemma keeps_alone:
  assumes "run_alone e p s tr = (x, s', tr')" and "keeps C P p" and "P s" and "clock_shows e C tr"
  shows "P s'"
  using assms
proof (induction p arbitrary: s tr)
  case (Load k)
  then show ?case using Load.IH [OF rangeI] by simp
next
  case (Now k)
  then show ?case
    using Now.IH [OF rangeI] clock_shows_now [OF Now.prems(4)] clock_shows_later [OF Now.prems(4) access_trace_now] by simp
next
  case (Note u p)
  then show ?case using clock_shows_later [OF Note.prems(4) access_trace_note] by simp
qed simp_all

lemma sat_alone:
  assumes "run_alone e p s tr = (x, s', tr')" and "sat C P Q p" and "keeps C P p" and "P s" and "clock_shows e C tr"
  shows "Q x"
  using assms
proof (induction p arbitrary: s tr)
  case (Load k)
  then show ?case using Load.IH [OF rangeI] by simp
next
  case (Now k)
  then show ?case
    using Now.IH [OF rangeI] clock_shows_now [OF Now.prems(5)] clock_shows_later [OF Now.prems(5) access_trace_now] by simp
next
  case (Note u p)
  then show ?case using clock_shows_later [OF Note.prems(5) access_trace_note] by simp
qed simp_all

lemma sat_step:
  assumes "sat C P Q p" and "P s" and "clock_shows e C tr" and "prog_step e p s tr = (p', s', tr')"
  shows "sat C P Q p'"
  using assms clock_shows_now [OF assms(3)] by (cases p) (auto split: prod.splits)

lemma sat_run:
  assumes "sat C P Q (th_main c)" and "\<forall>s \<in> set (memories e sch c). P s" and "clock_shows e C (th_trace c)"
  shows "sat C P Q (th_main (sched_run e sch c))"
  using assms
proof (induction sch arbitrary: c)
  case (Cons t sch)
  let ?c = "sched_step e t c"
  have "sat C P Q (th_main ?c)"
    using Cons.prems sat_step [of C P Q "th_main c" "th_mem c" e "th_trace c"]
    by (cases t) (auto split: prod.split)
  moreover have "clock_shows e C (th_trace ?c)"
    by (rule clock_shows_later [OF Cons.prems(3) sched_step_trace])
  ultimately show ?case using Cons.IH [of ?c] Cons.prems(2) by simp
qed simp

lemma sat_result:
  assumes "sat C P Q (th_main c)" and "\<forall>s \<in> set (memories e sch c). P s" and "clock_shows e C (th_trace c)"
    and "th_main (sched_run e sch c) = Ret x"
  shows "Q x"
  using sat_run [OF assms(1-3)] assms(4) by simp

lemma ends_in_step:
  assumes "ends_in p (Suc n)" and "prog_step e p s tr = (p', s', tr')"
  shows "ends_in p' n"
  using assms by (cases p) (auto split: prod.splits)

text \<open>A thread ends within its own steps, however the other one is scheduled in between.\<close>

lemma ends_in_run:
  assumes "ends_in (th_main c) n" and "n \<le> length (filter (\<lambda>t. t = Main_Thread) sch)"
  shows "\<exists>x. th_main (sched_run e sch c) = Ret x"
  using assms
proof (induction sch arbitrary: c n)
  case Nil
  then show ?case by (cases "th_main c") auto
next
  case (Cons t sch)
  show ?case
  proof (cases t)
    case Main_Thread
    have "ends_in (th_main (sched_step e t c)) (n - 1)"
    proof (cases n)
      case 0
      then show ?thesis using Cons.prems(1) Main_Thread by (cases "th_main c") auto
    next
      case (Suc m)
      then show ?thesis using Cons.prems(1) Main_Thread ends_in_step [of "th_main c" m e]
        by (auto split: prod.split)
    qed
    then show ?thesis using Cons.IH Cons.prems(2) Main_Thread by (simp del: sched_step.simps)
  next
    case Sdk_Thread
    then have "th_main (sched_step e t c) = th_main c" by (auto split: prod.split)
    then show ?thesis using Cons.IH [of "sched_step e t c" n] Cons.prems Sdk_Thread by (simp del: sched_step.simps)
  qed
qed

text \<open>Given all the turns it needs in a row, a thread does what it does alone.\<close>

lemma run_alone_step:
  "prog_step e p s tr = (p', s', tr') \<Longrightarrow> run_alone e p' s' tr' = run_alone e p s tr"
  by (cases p) (auto split: prod.splits)

lemma main_alone:
  assumes "ends_in (th_main c) n" and "run_alone e (th_main c) (th_mem c) (th_trace c) = (x, s', tr')"
  shows "sched_run e (replicate n Main_Thread) c = c\<lparr>th_main := Ret x, th_mem := s', th_trace := tr'\<rparr>"
  using assms
proof (induction n arbitrary: c)
  case 0
  then show ?case by (cases "th_main c") auto
next
  case (Suc n)
  obtain p s tr where st: "prog_step e (th_main c) (th_mem c) (th_trace c) = (p, s, tr)" by (metis prod_cases3)
  have "ends_in p n" using Suc.prems(1) st by (rule ends_in_step)
  then show ?case using Suc.IH [of "c\<lparr>th_main := p, th_mem := s, th_trace := tr\<rparr>"] run_alone_step [OF st] Suc.prems(2) st
    by simp
qed

lemma sdk_alone:
  assumes "ends_in (th_sdk c) n" and "run_alone e (th_sdk c) (th_mem c) (th_trace c) = (x, s', tr')"
  shows "sched_run e (replicate n Sdk_Thread) c = c\<lparr>th_sdk := Ret x, th_mem := s', th_trace := tr'\<rparr>"
  using assms
proof (induction n arbitrary: c)
  case 0
  then show ?case by (cases "th_sdk c") auto
next
  case (Suc n)
  obtain p s tr where st: "prog_step e (th_sdk c) (th_mem c) (th_trace c) = (p, s, tr)" by (metis prod_cases3)
  have "ends_in p n" using Suc.prems(1) st by (rule ends_in_step)
  then show ?case using Suc.IH [of "c\<lparr>th_sdk := p, th_mem := s, th_trace := tr\<rparr>"] run_alone_step [OF st] Suc.prems(2) st
    by simp
qed

end
