(* ===== verification/Rpc.thy ===== *)
theory Rpc
  imports Environment
begin

text \<open>
  \<^verbatim>\<open>core/proto/rpc.c\<close>: parsing one request line, building the two kinds of reply, reading parameters.
  The json-c library is a parameter: an abstract type of JSON values with the six functions the code
  calls. A json-c \<^verbatim>\<open>null\<close> is the NULL pointer, so a member that is present with value \<^verbatim>\<open>null\<close> is
  \<^term>\<open>Some None\<close>.
\<close>

record 'j json_lib =
  json_tokener_parse_ex :: "string \<Rightarrow> 'j option"
  json_is_object :: "'j \<Rightarrow> bool"
  json_object_object_get_ex :: "'j \<Rightarrow> string \<Rightarrow> 'j option option"
  json_object_get_int :: "'j option \<Rightarrow> int"
  json_object_get_double :: "'j option \<Rightarrow> fp"
  json_object_get_string :: "'j option \<Rightarrow> string option"

text \<open>What the code relies on of json-c: numbers come out as values of their C types.\<close>

definition json_lib_ok :: "'j json_lib \<Rightarrow> bool" where
  "json_lib_ok jl \<longleftrightarrow>
     (\<forall>v. in_range f64 (json_object_get_double jl v)) \<and>
     (\<forall>v. - (2 ^ 31) \<le> json_object_get_int jl v \<and> json_object_get_int jl v < 2 ^ 31)"

text \<open>
  \<open>method\<close> is the text in the 64-byte array. \<open>root\<close> is the owned reference, \<open>params\<close> is borrowed
  from it.
\<close>

record 'j RpcRequest =
  req_id :: int
  req_method :: string
  req_params :: "'j option"
  req_root :: "'j option"

section \<open>Parsing\<close>

text \<open>
  A NULL string printed with \<^verbatim>\<open>%s\<close> gives \<^verbatim>\<open>(null)\<close> in glibc; it arises here when the member
  \<^verbatim>\<open>method\<close> is \<^verbatim>\<open>null\<close>.
\<close>

definition c_str_arg :: "string option \<Rightarrow> string" where
  "c_str_arg s = (case s of None \<Rightarrow> ''(null)'' | Some t \<Rightarrow> cstr t)"

definition rpc_parse ::
    "'j json_lib \<Rightarrow> string \<Rightarrow> (int \<times> 'j RpcRequest) \<times> json_op list" where
  "rpc_parse jl line =
     (let req = \<lparr>req_id = -1, req_method = [], req_params = None, req_root = None\<rparr>
      in case json_tokener_parse_ex jl (cstr line) of
           None \<Rightarrow> ((-1, req), [Tok_New, Tok_Free])
         | Some doc \<Rightarrow>
             if \<not> json_is_object jl doc
             then ((-1, req), [Tok_New, Root_New, Tok_Free, Root_Put])
             else
               let req = req\<lparr>req_root := Some doc\<rparr>;
                   req = (case json_object_object_get_ex jl doc ''id'' of
                            None \<Rightarrow> req
                          | Some jid \<Rightarrow> req\<lparr>req_id := json_object_get_int jl jid\<rparr>)
               in case json_object_object_get_ex jl doc ''method'' of
                    None \<Rightarrow>
                      ((-1, req\<lparr>req_root := None\<rparr>), [Tok_New, Root_New, Tok_Free, Root_Put])
                  | Some jmethod \<Rightarrow>
                      let req = req\<lparr>req_method :=
                                  snprintf_text 64 (c_str_arg (json_object_get_string jl jmethod)),
                                  req_params := None\<rparr>;
                          req = (case json_object_object_get_ex jl doc ''params'' of
                                   None \<Rightarrow> req
                                 | Some jparams \<Rightarrow> req\<lparr>req_params := jparams\<rparr>)
                      in ((0, req), [Tok_New, Root_New, Tok_Free]))"

definition rpc_request_free :: "'j RpcRequest \<Rightarrow> 'j RpcRequest \<times> json_op list" where
  "rpc_request_free req =
     (case req_root req of
        None \<Rightarrow> (req, [])
      | Some _ \<Rightarrow> (req\<lparr>req_root := None, req_params := None\<rparr>, [Root_Put]))"

section \<open>Building replies\<close>

text \<open>
  Each builder writes into a buffer of \<open>buf_sz\<close> bytes and returns what \<^verbatim>\<open>snprintf\<close> returns. A NULL
  \<^verbatim>\<open>result_json\<close> is \<^term>\<open>None\<close>.
\<close>

definition result_text :: "int \<Rightarrow> string \<Rightarrow> string" where
  "result_text i body = ''{'' @ [DQ] @ ''id'' @ [DQ] @ '':'' @ fmt_d i @ '','' @ [DQ] @ ''result'' @ [DQ] @ '':'' @ body @ ''}''"

definition error_text :: "int \<Rightarrow> string \<Rightarrow> string" where
  "error_text i msg =
     ''{'' @ [DQ] @ ''id'' @ [DQ] @ '':'' @ fmt_d i @ '','' @ [DQ] @ ''error'' @ [DQ] @ '':'' @ [DQ] @ msg @ [DQ] @ ''}''"

definition rpc_build_result :: "nat \<Rightarrow> int \<Rightarrow> string option \<Rightarrow> string \<times> nat" where
  "rpc_build_result buf_sz i result_json =
     (let body = (case result_json of None \<Rightarrow> ''{}'' | Some r \<Rightarrow> if r = [] then ''{}'' else r)
      in snprintf buf_sz (result_text i body))"

definition rpc_build_error :: "nat \<Rightarrow> int \<Rightarrow> string \<Rightarrow> string \<times> nat" where
  "rpc_build_error buf_sz i message = snprintf buf_sz (error_text i message)"

section \<open>Parameters\<close>

definition rpc_param_int :: "'j json_lib \<Rightarrow> 'j option \<Rightarrow> string \<Rightarrow> int \<Rightarrow> int" where
  "rpc_param_int jl params key def =
     (case params of
        None \<Rightarrow> def
      | Some p \<Rightarrow> (case json_object_object_get_ex jl p key of
                     None \<Rightarrow> def
                   | Some v \<Rightarrow> json_object_get_int jl v))"

definition rpc_param_double :: "'j json_lib \<Rightarrow> 'j option \<Rightarrow> string \<Rightarrow> fp \<Rightarrow> fp" where
  "rpc_param_double jl params key def =
     (case params of
        None \<Rightarrow> def
      | Some p \<Rightarrow> (case json_object_object_get_ex jl p key of
                     None \<Rightarrow> def
                   | Some v \<Rightarrow> json_object_get_double jl v))"

definition rpc_param_str :: "'j json_lib \<Rightarrow> 'j option \<Rightarrow> string \<Rightarrow> string option" where
  "rpc_param_str jl params key =
     (case params of
        None \<Rightarrow> None
      | Some p \<Rightarrow> (case json_object_object_get_ex jl p key of
                     None \<Rightarrow> None
                   | Some v \<Rightarrow> map_option cstr (json_object_get_string jl v)))"

section \<open>Lemmas\<close>

lemma rpc_parse_status: "fst (fst (rpc_parse jl line)) = 0 \<or> fst (fst (rpc_parse jl line)) = -1"
  by (simp add: rpc_parse_def Let_def split: option.split)

text \<open>A request parses exactly when the text is a JSON object with a member \<^verbatim>\<open>method\<close>.\<close>

lemma rpc_parse_ok_iff:
  "fst (fst (rpc_parse jl line)) = 0 \<longleftrightarrow>
     (\<exists>doc m. json_tokener_parse_ex jl (cstr line) = Some doc \<and> json_is_object jl doc \<and>
               json_object_object_get_ex jl doc ''method'' = Some m)"
  by (simp add: rpc_parse_def Let_def split: option.split)

lemma rpc_parse_ok_root:
  "fst (fst (rpc_parse jl line)) = 0 \<longleftrightarrow> req_root (snd (fst (rpc_parse jl line))) \<noteq> None"
  by (simp add: rpc_parse_def Let_def split: option.split)

lemma rpc_method_len: "length (req_method (snd (fst (rpc_parse jl line)))) < 64"
  using length_snprintf_text [of 64] by (simp add: rpc_parse_def Let_def split: option.split)

text \<open>The document is released exactly once along parsing and freeing the request.\<close>

definition json_life :: "'j json_lib \<Rightarrow> string \<Rightarrow> json_op list" where
  "json_life jl line =
     (case rpc_parse jl line of
        ((rc, req), ops) \<Rightarrow> ops @ (if rc = 0 then snd (rpc_request_free req) else []))"

lemma json_life_balanced:
  "count_list (json_life jl line) Root_New = count_list (json_life jl line) Root_Put \<and>
   count_list (json_life jl line) Tok_New = 1 \<and> count_list (json_life jl line) Tok_Free = 1"
  by (simp add: json_life_def rpc_parse_def rpc_request_free_def Let_def split: option.split)

lemma result_text_no_NUL: "NUL \<notin> set body \<Longrightarrow> NUL \<notin> set (result_text i body)"
  by (auto simp: result_text_def fmt_d_no_NUL)

lemma length_error_text: "length (error_text i msg) = length (fmt_d i) + length msg + 18"
  by (simp add: error_text_def)

lemma length_result_text: "length (result_text i body) = length (fmt_d i) + length body + 17"
  by (simp add: result_text_def)

lemma rpc_param_str_no_NUL: "rpc_param_str jl p k = Some n \<Longrightarrow> NUL \<notin> set n"
  by (auto simp: rpc_param_str_def cstr_no_NUL split: option.splits)

end
