(* ===== verification/Sample_Env.thy ===== *)
theory Sample_Env
  imports Rpc
begin

text \<open>
  A concrete environment and a concrete JSON library, on which the hypotheses of the theorems are shown
  to hold together and the model can be run. Every SDK call succeeds, the clock counts the calls made
  up to a bound, a file has four bytes, and the JSON library knows the documents of a table.
\<close>

section \<open>An environment\<close>

definition ret0 :: "trace \<Rightarrow> int" where
  "ret0 tr =
     (if tr = [] then 3 else
      case last tr of
        File c \<Rightarrow> (case c of Fseek_End \<Rightarrow> 0 | Fseek_Set \<Rightarrow> 0 | Ftell \<Rightarrow> 4 | Fread n \<Rightarrow> n | _ \<Rightarrow> 3)
      | Net c \<Rightarrow> (case c of Inet_pton ip \<Rightarrow> 1 | _ \<Rightarrow> 3)
      | _ \<Rightarrow> 3)"

definition clock0 :: "trace \<Rightarrow> timespec" where
  "clock0 tr = \<lparr>tv_sec = int (min (length tr) 1000), tv_nsec = 0\<rparr>"

definition peer0 :: sockaddr_in where
  "peer0 = \<lparr>sin_addr = 0x7F000001, sin_port = 4000\<rparr>"

definition env0 :: env where
  "env0 =
     \<lparr>env_clock = clock0,
      env_ret = ret0,
      env_dji_ok = (\<lambda>tr. True),
      env_work_mode = (\<lambda>tr. SHOOT_PHOTO),
      env_recording = (\<lambda>tr. False),
      env_zoom = (\<lambda>tr. Fin False 2),
      env_datagram = (\<lambda>tr. (peer0, ''ping'' @ [LF])),
      env_read_data = (\<lambda>tr. []),
      env_would_block = (\<lambda>tr. True),
      env_epoll = (\<lambda>tr. []),
      env_file_data = (\<lambda>tr. ''PK..''),
      env_sizeof = (\<lambda>t. 8),
      env_sin = (\<lambda>x. fzero),
      env_cos = (\<lambda>x. fzero),
      env_atan2f = (\<lambda>y x. fzero),
      env_undef_cast = (\<lambda>x. 0)\<rparr>"

lemma env0_sel [simp]:
  "env_clock env0 = clock0" "env_ret env0 = ret0" "env_dji_ok env0 = (\<lambda>tr. True)"
  "env_zoom env0 = (\<lambda>tr. Fin False 2)" "env_datagram env0 = (\<lambda>tr. (peer0, ''ping'' @ [LF]))"
  "env_read_data env0 = (\<lambda>tr. [])" "env_would_block env0 = (\<lambda>tr. True)" "env_epoll env0 = (\<lambda>tr. [])"
  "env_file_data env0 = (\<lambda>tr. ''PK..'')" "env_sizeof env0 = (\<lambda>t. 8)"
  "env_sin env0 = (\<lambda>x. fzero)" "env_cos env0 = (\<lambda>x. fzero)" "env_atan2f env0 = (\<lambda>y x. fzero)"
  by (simp_all add: env0_def)

lemma ret0_snoc [simp]:
  "ret0 (tr @ [ev]) =
     (case ev of
        File c \<Rightarrow> (case c of Fseek_End \<Rightarrow> 0 | Fseek_Set \<Rightarrow> 0 | Ftell \<Rightarrow> 4 | Fread n \<Rightarrow> n | _ \<Rightarrow> 3)
      | Net c \<Rightarrow> (case c of Inet_pton ip \<Rightarrow> 1 | _ \<Rightarrow> 3)
      | _ \<Rightarrow> 3)"
  by (simp add: ret0_def)

lemma env0_libm: "libm_ok env0"
  by (simp add: libm_ok_def fp_bounded_def PI_F32_def)

lemma env0_monotonic: "monotonic_clock env0"
  by (auto simp: monotonic_clock_def valid_ts_def clock0_def ts_ns_def min_def)

lemma env0_clock_bounded: "clock_bounded env0"
  by (auto simp: clock_bounded_def clock0_def min_def)

section \<open>A JSON library\<close>

datatype jval = JInt int | JNum fp | JStr string | JObj "(string \<times> jval) list"

fun jget_int :: "jval option \<Rightarrow> int" where
  "jget_int (Some (JInt i)) = (if - (2 ^ 31) \<le> i \<and> i < 2 ^ 31 then i else 0)"
| "jget_int _ = 0"

fun jget_double :: "jval option \<Rightarrow> fp" where
  "jget_double (Some (JNum x)) = (if in_range f64 x then x else fzero)"
| "jget_double _ = fzero"

fun jget_string :: "jval option \<Rightarrow> string option" where
  "jget_string (Some (JStr s)) = Some s"
| "jget_string _ = None"

fun jget_ex :: "jval \<Rightarrow> string \<Rightarrow> jval option option" where
  "jget_ex (JObj kvs) k = map_option Some (map_of kvs k)"
| "jget_ex _ k = None"

fun jis_object :: "jval \<Rightarrow> bool" where
  "jis_object (JObj kvs) = True"
| "jis_object _ = False"

text \<open>The library that parses the texts of a table.\<close>

definition table_lib :: "(string \<times> jval) list \<Rightarrow> jval json_lib" where
  "table_lib docs =
     \<lparr>json_tokener_parse_ex = map_of docs,
      json_is_object = jis_object,
      json_object_object_get_ex = jget_ex,
      json_object_get_int = jget_int,
      json_object_get_double = jget_double,
      json_object_get_string = jget_string\<rparr>"

definition req_doc :: "int \<Rightarrow> string \<Rightarrow> (string \<times> jval) list \<Rightarrow> jval" where
  "req_doc i m ps = JObj [(''id'', JInt i), (''method'', JStr m), (''params'', JObj ps)]"

lemma table_lib_sel [simp]:
  "json_tokener_parse_ex (table_lib docs) = map_of docs"
  "json_is_object (table_lib docs) = jis_object"
  "json_object_object_get_ex (table_lib docs) = jget_ex"
  "json_object_get_int (table_lib docs) = jget_int"
  "json_object_get_double (table_lib docs) = jget_double"
  "json_object_get_string (table_lib docs) = jget_string"
  by (simp_all add: table_lib_def)

lemma jget_ranges:
  "in_range f64 (jget_double v)" "- (2 ^ 31) \<le> jget_int v" "jget_int v < 2 ^ 31"
proof -
  have "in_range f64 fzero" by (simp add: in_range_def)
  then show "in_range f64 (jget_double v)" by (cases v rule: jget_double.cases) auto
  show "- (2 ^ 31) \<le> jget_int v" "jget_int v < 2 ^ 31" by (cases v rule: jget_int.cases; simp)+
qed

lemma table_lib_ok: "json_lib_ok (table_lib docs)"
  using jget_ranges by (auto simp: json_lib_ok_def)

text \<open>Parsing the one request of a table.\<close>

lemma parse_req_doc:
  assumes "NUL \<notin> set line" and "NUL \<notin> set m" and "length m < 64" and "- (2 ^ 31) \<le> i" and "i < 2 ^ 31"
  shows "rpc_parse (table_lib [(line, req_doc i m ps)]) line =
     ((0, \<lparr>req_id = i, req_method = m, req_params = Some (JObj ps), req_root = Some (req_doc i m ps)\<rparr>),
      [Tok_New, Root_New, Tok_Free])"
  using assms by (simp add: rpc_parse_def req_doc_def cstring_simps c_str_arg_def)

text \<open>A library that knows one line, a request with id 7.\<close>

definition one_request :: "string \<Rightarrow> (string \<times> jval) list \<Rightarrow> jval json_lib" where
  "one_request m ps = table_lib [(''L'', req_doc 7 m ps)]"

definition request_of :: "string \<Rightarrow> (string \<times> jval) list \<Rightarrow> jval RpcRequest" where
  "request_of m ps =
     \<lparr>req_id = 7, req_method = m, req_params = Some (JObj ps), req_root = Some (req_doc 7 m ps)\<rparr>"

lemma one_request_ok: "json_lib_ok (one_request m ps)"
  by (simp add: one_request_def table_lib_ok)

lemma request_of_sel [simp]:
  "req_id (request_of m ps) = 7" "req_method (request_of m ps) = m"
  "req_params (request_of m ps) = Some (JObj ps)"
  by (simp_all add: request_of_def)

lemma parse_one_request:
  assumes "NUL \<notin> set m" and "length m < 64"
  shows "rpc_parse (one_request m ps) ''L'' = ((0, request_of m ps), [Tok_New, Root_New, Tok_Free])"
  using assms by (simp add: one_request_def request_of_def parse_req_doc)

end
