(* ===== verification/Drone_Real_Props.thy ===== *)
theory Drone_Real_Props
  imports Drone_Real Sample_Env
begin

text \<open>
  What the hardware build of the drone operations guarantees: the heading computed from the attitude,
  the freshness rule and the nine sample caches, the battery fallback, the waypoint manager and the
  resources of an upload.
\<close>

section \<open>Heading\<close>

lemma PI_F32_lit: "lit32 (314159265 / 100000000) = Fin False PI_F32"
  by code_simp

text \<open>Twice rounding \<open>pi * 180 / pi\<close> in single precision gives 180 exactly.\<close>

lemma deg_rounding:
  "rnd_mag f32 (PI_F32 * 180) = 4632467 / 8192"
  "rnd_mag f32 (4632467 / 8192 / PI_F32) = 180"
  by code_simp+

lemma deg_bounded:
  assumes "fp_bounded PI_F32 y"
  shows "fp_bounded 180 (fdiv f32 (fmul f32 y (lit32 180)) (lit32 (314159265 / 100000000)))"
proof (cases y)
  case (Fin s m)
  let ?a = "rnd_mag f32 (m * 180)"
  have m: "0 \<le> m" "m \<le> PI_F32" using assms by (auto simp: Fin fp_bounded_def)
  have "?a \<le> rnd_mag f32 (PI_F32 * 180)" using m by (intro rnd_mag_mono) (auto simp: f32_def)
  then have a: "0 \<le> ?a" "?a \<le> 4632467 / 8192"
    using m by (auto simp: deg_rounding rnd_mag_nonneg)
  have pi: "0 < PI_F32" by (simp add: PI_F32_def)
  let ?b = "rnd_mag f32 (?a / PI_F32)"
  have "?b \<le> rnd_mag f32 (4632467 / 8192 / PI_F32)"
    using a pi by (intro rnd_mag_mono divide_right_mono) (auto simp: f32_def)
  then have "?b \<le> 180" by (simp only: deg_rounding)
  then have b: "0 \<le> ?b" "?b \<le> 180" using a pi by (auto simp: rnd_mag_nonneg)
  have lim: "4632467 / 8192 < pow2 128" "(180 :: rat) < pow2 128" by (simp_all add: pow2_def)
  then have na: "\<not> pow2 128 \<le> ?a" and nb: "\<not> pow2 128 \<le> ?b" using a(2) b(2) by linarith+
  have "fmul f32 y (lit32 180) = Fin s ?a"
    using na by (simp add: Fin lit32_int fp_round_def Let_def) (simp add: f32_def)
  moreover have "fdiv f32 (Fin s ?a) (Fin False PI_F32) = Fin s ?b"
    using nb pi by (simp add: fp_round_def Let_def) (simp add: f32_def)
  ultimately have "fdiv f32 (fmul f32 y (lit32 180)) (lit32 (314159265 / 100000000)) = Fin s ?b"
    by (simp only: PI_F32_lit)
  then show ?thesis using b by (simp only: fp_bounded_def fp.case simp_thms)
qed (use assms in \<open>simp_all only: fp_bounded_def lit32_int PI_F32_lit fp.case fmul.simps fdiv.simps\<close>)

lemma yaw_to_heading_range:
  assumes "fp_bounded PI_F32 y"
  shows "(\<exists>s m. yaw_to_heading y = Fin s m \<and> 0 \<le> fp_val (Fin s m) \<and> 0 \<le> m \<and> m \<le> 360) \<or>
         (\<exists>s. yaw_to_heading y = NaN s)"
proof -
  define d where "d = fdiv f32 (fmul f32 y (lit32 180)) (lit32 (314159265 / 100000000))"
  have h: "yaw_to_heading y = (if flt d (lit32 0) then fadd f32 d (lit32 360) else d)"
    by (simp add: yaw_to_heading_def Let_def d_def)
  have "fp_bounded 180 d" using deg_bounded [of y] assms by (simp add: d_def)
  then consider s m where "d = Fin s m" "0 \<le> m" "m \<le> 180" | s where "d = NaN s"
    by (cases d) (auto simp: fp_bounded_def)
  then show ?thesis
  proof cases
    case 1
    show ?thesis
    proof (cases "s \<and> 0 < m")
      case True
      have "fp_bounded (of_int 360) (fp_round f32 False (360 - m))"
        by (rule fp_bounded_round) (use 1 in \<open>auto simp: f32_def\<close>)
      then obtain r where r: "fp_round f32 False (360 - m) = Fin False r" "0 \<le> r" "r \<le> 360"
        by (auto simp: fp_round_def fp_bounded_def Let_def split: if_splits)
      have "yaw_to_heading y = fp_round f32 False (360 - m)"
        using 1 True by (simp add: h lit32_int fp_of_rat_def)
      then show ?thesis using r by auto
    next
      case False
      then show ?thesis using 1 by (auto simp: h)
    qed
  next
    case 2
    then show ?thesis by (simp add: h)
  qed
qed

lemma quat_to_heading_range:
  assumes "libm_ok e"
  shows "(\<exists>s m. quat_to_heading e q = Fin s m \<and> 0 \<le> fp_val (Fin s m) \<and> 0 \<le> m \<and> m \<le> 360) \<or>
         (\<exists>s. quat_to_heading e q = NaN s)"
  unfolding quat_to_heading_def Let_def by (rule yaw_to_heading_range) (use assms in \<open>simp add: libm_ok_def\<close>)

section \<open>Position\<close>

lemma pi64_lit: "\<exists>n. lit64 (314159265358979 / 100000000000000) = Fin False n \<and> 1 \<le> n"
proof -
  let ?x = "314159265358979 / 100000000000000 :: rat"
  have "fp_bounded (of_int 4) (fp_of_rat f64 False ?x)"
    by (rule fp_bounded_of_rat) (simp_all add: f64_def)
  moreover have "1 \<le> rnd_mag f64 ?x" using int_le_rnd_mag [of f64 1 ?x] by (simp add: f64_def)
  ultimately show ?thesis
    by (auto simp: lit64_def fp_of_rat_def fp_round_def Let_def fp_bounded_def split: if_splits)
qed

lemma rad_to_deg_bounded:
  assumes "fp_bounded 4 x" shows "fp_bounded 720 (rad_to_deg x)"
proof -
  obtain n where n: "lit64 (314159265358979 / 100000000000000) = Fin False n" "1 \<le> n"
    using pi64_lit by blast
  have "fp_bounded 180 (lit64 180)" by (simp add: lit64_int fp_bounded_def)
  then have "fp_bounded 720 (fmul f64 x (lit64 180))"
    using fp_bounded_fmul [OF _ assms, of f64 180 "lit64 180" 720] by (simp add: f64_def)
  then show ?thesis using fp_bounded_fdiv [of f64 720 _ n 720 False] n by (simp add: rad_to_deg_def f64_def)
qed

text \<open>The fields of a telemetry reading that do not depend on the battery topics.\<close>

lemma real_telemetry_fields:
  assumes "real_get_telemetry e s tr = (Inr t, s', tr')"
  shows "t_lat t = rad_to_deg (p_latitude (g_pos_fused s)) \<and>
         t_lon t = rad_to_deg (p_longitude (g_pos_fused s)) \<and>
         t_alt_msl_m t = p_altitude (g_pos_fused s) \<and> t_alt_rel_m t = p_altitude (g_pos_fused s) \<and>
         t_vx_ms t = v_x (g_vel s) \<and> t_vy_ms t = v_y (g_vel s) \<and> t_vz_ms t = v_z (g_vel s) \<and>
         t_heading_deg t = quat_to_heading e (g_quat s)"
  using assms by (auto simp: real_get_telemetry_def Let_def split: prod.splits if_splits)

text \<open>
  C26. The heading of a telemetry reading lies between 0 and 360 degrees, or is not a number; the
  rounding of the single-precision conversion does not push it out of the range.
\<close>

theorem heading_in_range:
  assumes "libm_ok e" and "real_get_telemetry e s tr = (Inr t, s', tr')"
  shows "(\<exists>b m. t_heading_deg t = Fin b m \<and> 0 \<le> fp_val (Fin b m) \<and> m \<le> 360) \<or>
         (\<exists>b. t_heading_deg t = NaN b)"
  using quat_to_heading_range [OF assms(1), of "g_quat s"] real_telemetry_fields [OF assms(2)] by metis

theorem heading_in_range_witness:
  "\<exists>t. real_get_telemetry env0 real_initial [] = (Inr t, real_initial, []) \<and>
     ((\<exists>b m. t_heading_deg t = Fin b m \<and> 0 \<le> fp_val (Fin b m) \<and> m \<le> 360) \<or>
      (\<exists>b. t_heading_deg t = NaN b))"
proof -
  obtain t where t: "real_get_telemetry env0 real_initial [] = (Inr t, real_initial, [])"
    by (simp add: real_get_telemetry_def topic_is_fresh_def real_initial_def stats0_def Let_def)
  show ?thesis using t heading_in_range [OF env0_libm t] by blast
qed

section \<open>Freshness\<close>

lemma monotonic_ms_value:
  assumes "monotonic_clock e" and "clock_bounded e"
  shows "monotonic_ms e tr = (w, tr') \<Longrightarrow>
     uint w = ts_ms (env_clock e (tr @ [Clock_Monotonic])) \<and> tr' = tr @ [Clock_Monotonic]"
  using assms
  by (auto simp: monotonic_ms_def clock_gettime_def monotonic_clock_def clock_bounded_def valid_ts_def
      ts_ms_split uint_ms_word)

lemma ts_ms_mono:
  assumes "monotonic_clock e" shows "ts_ms (env_clock e tr) \<le> ts_ms (env_clock e (tr @ evs))"
  using assms by (auto simp: monotonic_clock_def ts_ms_def intro: zdiv_mono1)

text \<open>
  C24. A topic whose last sample was stored at a nonzero millisecond is fresh exactly while its age in
  milliseconds is at most the limit: the 64-bit subtraction never wraps on a monotonic clock.
\<close>

theorem topic_fresh_age:
  assumes clk: "monotonic_clock e" "clock_bounded e"
    and rx: "mark_topic_rx e st tr = (st', tr1)"
    and nz: "ts_ms (env_clock e tr1) \<noteq> 0"
    and fr: "topic_is_fresh e st' age (tr1 @ evs) = (b, tr2)"
  shows "b \<longleftrightarrow> ts_ms (env_clock e tr2) - ts_ms (env_clock e tr1) \<le> uint age"
proof -
  obtain w tr1' where m: "monotonic_ms e tr = (w, tr1')" by fastforce
  note w = monotonic_ms_value [OF clk m]
  have st: "ts_last_update_ms st' = w" "tr1 = tr1'"
    using rx m by (auto simp: mark_topic_rx_def Let_def split: if_splits)
  have w0: "w \<noteq> 0" using nz w st by (metis unsigned_0)
  obtain v tr2' where m2: "monotonic_ms e (tr1 @ evs) = (v, tr2')" by fastforce
  note v = monotonic_ms_value [OF clk m2]
  have b: "b = (w \<le> v \<and> v - w \<le> age)" "tr2 = tr2'"
    using fr m2 st w0 by (auto simp: topic_is_fresh_def)
  have le: "uint w \<le> uint v"
    using ts_ms_mono [OF clk(1), of tr1 "evs @ [Clock_Monotonic]"] w v st by simp
  then have "uint (v - w) = uint v - uint w" by (simp add: uint_sub_lem [THEN iffD1])
  then show ?thesis using b le w v st by (simp add: word_le_def)
qed

theorem topic_fresh_age_witness:
  "fst (topic_is_fresh env0 (fst (mark_topic_rx env0 stats0 [])) 5000 (replicate 4 Clock_Monotonic)) \<and>
   \<not> fst (topic_is_fresh env0 (fst (mark_topic_rx env0 stats0 [])) 5000 (replicate 8 Clock_Monotonic))"
proof -
  let ?st = "fst (mark_topic_rx env0 stats0 [])"
  have rx: "mark_topic_rx env0 stats0 [] = (?st, [Clock_Monotonic])"
    by (simp add: mark_topic_rx_def monotonic_ms_def clock_gettime_def Let_def)
  have nz: "ts_ms (env_clock env0 [Clock_Monotonic]) \<noteq> 0" by (simp add: ts_ms_def ts_ns_def clock0_def)
  have fr: "topic_is_fresh env0 ?st 5000 ([Clock_Monotonic] @ replicate n Clock_Monotonic) =
      (fst (topic_is_fresh env0 ?st 5000 ([Clock_Monotonic] @ replicate n Clock_Monotonic)),
       [Clock_Monotonic] @ replicate n Clock_Monotonic @ [Clock_Monotonic])" for n
    by (simp add: topic_is_fresh_def mark_topic_rx_def monotonic_ms_def clock_gettime_def Let_def clock0_def)
  note th = topic_fresh_age [OF env0_monotonic env0_clock_bounded rx nz fr]
  have "fst (topic_is_fresh env0 ?st 5000 ([Clock_Monotonic] @ replicate 3 Clock_Monotonic))"
    using th [of 3] by (simp add: ts_ms_def ts_ns_def clock0_def)
  moreover have "\<not> fst (topic_is_fresh env0 ?st 5000 ([Clock_Monotonic] @ replicate 7 Clock_Monotonic))"
    using th [of 7] by (simp add: ts_ms_def ts_ns_def clock0_def)
  ultimately show ?thesis by (simp add: numeral_eq_Suc)
qed

section \<open>The sample caches\<close>

text \<open>
  A sample of one of the subscribed topics, and its delivery: the SDK calls the callback registered
  for the topic. A callback is only ever given the structure of its own topic, because the table of
  subscriptions pairs them so.
\<close>

datatype sample =
    Pos_Sample pos_sample | Vel_Sample vel_sample | Quat_Sample quat_sample | Gps_Sample gps_sample
  | Flight_Sample int | Battery_Sample battery_sample | Single_1_Sample single_sample
  | Single_2_Sample single_sample | Gimbal_Sample gimbal_sample

fun topic_of :: "sample \<Rightarrow> topic" where
  "topic_of (Pos_Sample d) = TOPIC_POSITION_FUSED"
| "topic_of (Vel_Sample d) = TOPIC_VELOCITY"
| "topic_of (Quat_Sample d) = TOPIC_QUATERNION"
| "topic_of (Gps_Sample d) = TOPIC_GPS_DETAILS"
| "topic_of (Flight_Sample d) = TOPIC_STATUS_FLIGHT"
| "topic_of (Battery_Sample d) = TOPIC_BATTERY_INFO"
| "topic_of (Single_1_Sample d) = TOPIC_BATTERY_SINGLE_INFO_INDEX1"
| "topic_of (Single_2_Sample d) = TOPIC_BATTERY_SINGLE_INFO_INDEX2"
| "topic_of (Gimbal_Sample d) = TOPIC_GIMBAL_ANGLES"

definition run_cb ::
    "env \<Rightarrow> topic_cb \<Rightarrow> sample \<Rightarrow> nat \<Rightarrow> real_state \<Rightarrow> trace \<Rightarrow> (real_state \<times> trace) option" where
  "run_cb e cb x len s tr =
     (case cb of
        CB_pos \<Rightarrow> (case x of Pos_Sample d \<Rightarrow> Some (cb_pos e d len s tr) | _ \<Rightarrow> None)
      | CB_vel \<Rightarrow> (case x of Vel_Sample d \<Rightarrow> Some (cb_vel e d len s tr) | _ \<Rightarrow> None)
      | CB_quat \<Rightarrow> (case x of Quat_Sample d \<Rightarrow> Some (cb_quat e d len s tr) | _ \<Rightarrow> None)
      | CB_gps \<Rightarrow> (case x of Gps_Sample d \<Rightarrow> Some (cb_gps e d len s tr) | _ \<Rightarrow> None)
      | CB_flight_status \<Rightarrow> (case x of Flight_Sample d \<Rightarrow> Some (cb_flight_status e d len s tr) | _ \<Rightarrow> None)
      | CB_battery \<Rightarrow> (case x of Battery_Sample d \<Rightarrow> Some (cb_battery e d len s tr) | _ \<Rightarrow> None)
      | CB_battery_single_1 \<Rightarrow> (case x of Single_1_Sample d \<Rightarrow> Some (cb_battery_single_1 e d len s tr) | _ \<Rightarrow> None)
      | CB_battery_single_2 \<Rightarrow> (case x of Single_2_Sample d \<Rightarrow> Some (cb_battery_single_2 e d len s tr) | _ \<Rightarrow> None)
      | CB_gimbal \<Rightarrow> (case x of Gimbal_Sample d \<Rightarrow> Some (cb_gimbal e d len s tr) | _ \<Rightarrow> None))"

definition registered_cb :: "topic \<Rightarrow> topic_cb option" where
  "registered_cb t = map_option snd (map_of subscriptions t)"

definition on_sample :: "env \<Rightarrow> sample \<Rightarrow> nat \<Rightarrow> real_state \<Rightarrow> trace \<Rightarrow> (real_state \<times> trace) option" where
  "on_sample e x len s tr =
     (case registered_cb (topic_of x) of
        None \<Rightarrow> None
      | Some cb \<Rightarrow> run_cb e cb x len s tr)"

text \<open>Any sequence of samples of any topics, each with the length of its buffer.\<close>

fun on_samples ::
    "env \<Rightarrow> (sample \<times> nat) list \<Rightarrow> real_state \<Rightarrow> trace \<Rightarrow> (real_state \<times> trace) option" where
  "on_samples e [] s tr = Some (s, tr)"
| "on_samples e ((x, len) # xs) s tr =
     (case on_sample e x len s tr of
        None \<Rightarrow> None
      | Some (s, tr) \<Rightarrow> on_samples e xs s tr)"

lemmas cb_defs =
  cb_pos_def cb_vel_def cb_quat_def cb_gps_def cb_flight_status_def cb_battery_def
  cb_battery_single_1_def cb_battery_single_2_def cb_gimbal_def

lemma registered_cb_topic:
  "registered_cb (topic_of x) = Some
     (case x of Pos_Sample d \<Rightarrow> CB_pos | Vel_Sample d \<Rightarrow> CB_vel | Quat_Sample d \<Rightarrow> CB_quat
      | Gps_Sample d \<Rightarrow> CB_gps | Flight_Sample d \<Rightarrow> CB_flight_status | Battery_Sample d \<Rightarrow> CB_battery
      | Single_1_Sample d \<Rightarrow> CB_battery_single_1 | Single_2_Sample d \<Rightarrow> CB_battery_single_2
      | Gimbal_Sample d \<Rightarrow> CB_gimbal)"
  by (cases x) (simp_all add: registered_cb_def subscriptions_def)

lemma on_samples_total: "\<exists>s' tr'. on_samples e xs s tr = Some (s', tr')"
proof (induction xs arbitrary: s tr)
  case (Cons y xs)
  obtain x len where y: "y = (x, len)" by fastforce
  have "\<exists>s1 tr1. on_sample e x len s tr = Some (s1, tr1)"
    using registered_cb_topic [of x] by (cases x) (auto simp: on_sample_def run_cb_def)
  then show ?case using Cons.IH y by auto
qed simp

text \<open>
  What the statistics of a topic tell after \<open>n\<close> samples were stored: the counter, and whether there was
  one at all.
\<close>

definition topic_tracked :: "TopicStats \<Rightarrow> nat \<Rightarrow> bool" where
  "topic_tracked st n \<longleftrightarrow>
     ts_count st = of_nat n \<and> (ts_logged st \<longleftrightarrow> 0 < n) \<and> (ts_last_update_ms st \<noteq> 0 \<longleftrightarrow> 0 < n)"

lemma mark_tracked:
  assumes "fst (monotonic_ms e tr) \<noteq> 0" and "topic_tracked st n"
  shows "topic_tracked (fst (mark_topic_rx e st tr)) (Suc n)"
  using assms by (auto simp: topic_tracked_def mark_topic_rx_def Let_def split: prod.splits)

text \<open>The samples of one topic in a sequence that are long enough to be stored.\<close>

definition accepted ::
    "env \<Rightarrow> topic \<Rightarrow> (sample \<Rightarrow> 'd option) \<Rightarrow> (sample \<times> nat) list \<Rightarrow> 'd list" where
  "accepted e t proj xs =
     List.map_filter (\<lambda>(x, len). if env_sizeof e t \<le> len then proj x else None) xs"

text \<open>
  The interface of one cache: a sample of its topic that is long enough is stored and marked, any
  other delivery leaves it alone.
\<close>

locale topic_cache =
  fixes tp :: topic
    and proj :: "sample \<Rightarrow> 'd option"
    and get :: "real_state \<Rightarrow> 'd"
    and stats :: "real_state \<Rightarrow> TopicStats"
  assumes stored: "proj x = Some d \<Longrightarrow> env_sizeof e tp \<le> len \<Longrightarrow> on_sample e x len s tr = Some (s', tr') \<Longrightarrow>
            get s' = d \<and> (stats s', tr') = mark_topic_rx e (stats s) tr"
    and kept: "proj x = None \<or> len < env_sizeof e tp \<Longrightarrow> on_sample e x len s tr = Some (s', tr') \<Longrightarrow>
            get s' = get s \<and> stats s' = stats s"
begin

lemma caches_latest:
  assumes "on_samples e xs s tr = Some (s', tr')"
  shows "get s' = last (get s # accepted e tp proj xs) \<and>
         ts_count (stats s') = ts_count (stats s) + of_nat (length (accepted e tp proj xs))"
  using assms
proof (induction xs arbitrary: s tr)
  case Nil
  then show ?case by (simp add: accepted_def map_filter_simps)
next
  case (Cons y xs)
  obtain x len where y: "y = (x, len)" by fastforce
  obtain s1 tr1 where o1: "on_sample e x len s tr = Some (s1, tr1)"
    and o2: "on_samples e xs s1 tr1 = Some (s', tr')"
    using Cons.prems by (auto simp: y split: option.splits)
  note IH = Cons.IH [OF o2]
  show ?case
  proof (cases "proj x = None \<or> len < env_sizeof e tp")
    case True
    then have "accepted e tp proj (y # xs) = accepted e tp proj xs"
      by (auto simp: y accepted_def map_filter_simps)
    then show ?thesis using IH kept [OF True o1] by simp
  next
    case False
    then obtain d where d: "proj x = Some d" "env_sizeof e tp \<le> len" by auto
    then have a: "accepted e tp proj (y # xs) = d # accepted e tp proj xs"
      by (simp add: y accepted_def map_filter_simps)
    have "ts_count (stats s1) = ts_count (stats s) + 1"
      using stored [OF d o1] by (auto simp: mark_topic_rx_def Let_def split: prod.splits if_splits)
    then show ?thesis using IH stored [OF d o1] by (simp add: a)
  qed
qed

lemma tracks:
  assumes "\<forall>tr. fst (monotonic_ms e tr) \<noteq> 0" and "topic_tracked (stats s) n"
    and "on_sample e x len s tr = Some (s', tr')"
  shows "topic_tracked (stats s') (n + length (accepted e tp proj [(x, len)]))"
proof (cases "proj x = None \<or> len < env_sizeof e tp")
  case True
  then have "accepted e tp proj [(x, len)] = []" by (auto simp: accepted_def map_filter_simps)
  then show ?thesis using kept [OF True assms(3)] assms(2) by simp
next
  case False
  then obtain d where d: "proj x = Some d" "env_sizeof e tp \<le> len" by auto
  then have "accepted e tp proj [(x, len)] = [d]" by (simp add: accepted_def map_filter_simps)
  moreover have "stats s' = fst (mark_topic_rx e (stats s) tr)" using stored [OF d assms(3)] by (metis fst_conv)
  ultimately show ?thesis using mark_tracked [OF assms(1) [rule_format] assms(2)] by simp
qed

end

lemmas cache_simps = on_sample_def run_cb_def registered_cb_topic cb_defs Let_def

interpretation pos_cache: topic_cache TOPIC_POSITION_FUSED
    "\<lambda>x. case x of Pos_Sample d \<Rightarrow> Some d | _ \<Rightarrow> None" g_pos_fused g_pos_stats
  by unfold_locales
     (auto simp: cache_simps split: sample.splits prod.splits if_splits)

interpretation vel_cache: topic_cache TOPIC_VELOCITY
    "\<lambda>x. case x of Vel_Sample d \<Rightarrow> Some d | _ \<Rightarrow> None" g_vel g_vel_stats
  by unfold_locales
     (auto simp: cache_simps split: sample.splits prod.splits if_splits)

interpretation quat_cache: topic_cache TOPIC_QUATERNION
    "\<lambda>x. case x of Quat_Sample d \<Rightarrow> Some d | _ \<Rightarrow> None" g_quat g_quat_stats
  by unfold_locales
     (auto simp: cache_simps split: sample.splits prod.splits if_splits)

interpretation gps_cache: topic_cache TOPIC_GPS_DETAILS
    "\<lambda>x. case x of Gps_Sample d \<Rightarrow> Some d | _ \<Rightarrow> None" g_gps g_gps_stats
  by unfold_locales
     (auto simp: cache_simps split: sample.splits prod.splits if_splits)

interpretation flight_cache: topic_cache TOPIC_STATUS_FLIGHT
    "\<lambda>x. case x of Flight_Sample d \<Rightarrow> Some d | _ \<Rightarrow> None" g_flight_status g_flight_stats
  by unfold_locales
     (auto simp: cache_simps split: sample.splits prod.splits if_splits)

interpretation battery_cache: topic_cache TOPIC_BATTERY_INFO
    "\<lambda>x. case x of Battery_Sample d \<Rightarrow> Some d | _ \<Rightarrow> None" g_battery g_battery_stats
  by unfold_locales
     (auto simp: cache_simps split: sample.splits prod.splits if_splits)

interpretation single_1_cache: topic_cache TOPIC_BATTERY_SINGLE_INFO_INDEX1
    "\<lambda>x. case x of Single_1_Sample d \<Rightarrow> Some d | _ \<Rightarrow> None" g_battery_single_1 g_battery_single_1_stats
  by unfold_locales
     (auto simp: cache_simps split: sample.splits prod.splits if_splits)

interpretation single_2_cache: topic_cache TOPIC_BATTERY_SINGLE_INFO_INDEX2
    "\<lambda>x. case x of Single_2_Sample d \<Rightarrow> Some d | _ \<Rightarrow> None" g_battery_single_2 g_battery_single_2_stats
  by unfold_locales
     (auto simp: cache_simps split: sample.splits prod.splits if_splits)

interpretation gimbal_cache: topic_cache TOPIC_GIMBAL_ANGLES
    "\<lambda>x. case x of Gimbal_Sample d \<Rightarrow> Some d | _ \<Rightarrow> None" g_gimbal g_gimbal_stats
  by unfold_locales
     (auto simp: cache_simps split: sample.splits prod.splits if_splits)

text \<open>
  C23. After any sequence of deliveries of any topics, in any order and with buffers of any length,
  every one of the nine caches holds the latest sample of its own topic whose buffer was long enough,
  or what it held before when there was none.
\<close>

theorem caches_hold_latest:
  "\<exists>s' tr'. on_samples e xs s tr = Some (s', tr') \<and>
     g_pos_fused s' = last (g_pos_fused s #
       accepted e TOPIC_POSITION_FUSED (\<lambda>x. case x of Pos_Sample d \<Rightarrow> Some d | _ \<Rightarrow> None) xs) \<and>
     g_vel s' = last (g_vel s #
       accepted e TOPIC_VELOCITY (\<lambda>x. case x of Vel_Sample d \<Rightarrow> Some d | _ \<Rightarrow> None) xs) \<and>
     g_quat s' = last (g_quat s #
       accepted e TOPIC_QUATERNION (\<lambda>x. case x of Quat_Sample d \<Rightarrow> Some d | _ \<Rightarrow> None) xs) \<and>
     g_gps s' = last (g_gps s #
       accepted e TOPIC_GPS_DETAILS (\<lambda>x. case x of Gps_Sample d \<Rightarrow> Some d | _ \<Rightarrow> None) xs) \<and>
     g_flight_status s' = last (g_flight_status s #
       accepted e TOPIC_STATUS_FLIGHT (\<lambda>x. case x of Flight_Sample d \<Rightarrow> Some d | _ \<Rightarrow> None) xs) \<and>
     g_battery s' = last (g_battery s #
       accepted e TOPIC_BATTERY_INFO (\<lambda>x. case x of Battery_Sample d \<Rightarrow> Some d | _ \<Rightarrow> None) xs) \<and>
     g_battery_single_1 s' = last (g_battery_single_1 s #
       accepted e TOPIC_BATTERY_SINGLE_INFO_INDEX1 (\<lambda>x. case x of Single_1_Sample d \<Rightarrow> Some d | _ \<Rightarrow> None) xs) \<and>
     g_battery_single_2 s' = last (g_battery_single_2 s #
       accepted e TOPIC_BATTERY_SINGLE_INFO_INDEX2 (\<lambda>x. case x of Single_2_Sample d \<Rightarrow> Some d | _ \<Rightarrow> None) xs) \<and>
     g_gimbal s' = last (g_gimbal s #
       accepted e TOPIC_GIMBAL_ANGLES (\<lambda>x. case x of Gimbal_Sample d \<Rightarrow> Some d | _ \<Rightarrow> None) xs)"
proof -
  obtain s' tr' where r: "on_samples e xs s tr = Some (s', tr')" using on_samples_total by blast
  show ?thesis
    using r pos_cache.caches_latest [OF r] vel_cache.caches_latest [OF r] quat_cache.caches_latest [OF r]
      gps_cache.caches_latest [OF r] flight_cache.caches_latest [OF r] battery_cache.caches_latest [OF r]
      single_1_cache.caches_latest [OF r] single_2_cache.caches_latest [OF r]
      gimbal_cache.caches_latest [OF r]
    by (intro exI [of _ s'] exI [of _ tr'] conjI) simp_all
qed

section \<open>Battery\<close>

text \<open>The packs heard so far on the single-battery topics, as (percent, millivolt).\<close>

definition heard_packs :: "real_state \<Rightarrow> (int \<times> int) list" where
  "heard_packs s =
     (if ts_last_update_ms (g_battery_single_1_stats s) \<noteq> 0
      then [(s_batteryCapacityPercent (g_battery_single_1 s), s_currentVoltage (g_battery_single_1 s))]
      else []) @
     (if ts_last_update_ms (g_battery_single_2_stats s) \<noteq> 0
      then [(s_batteryCapacityPercent (g_battery_single_2 s), s_currentVoltage (g_battery_single_2 s))]
      else [])"

definition pack_ok :: "int \<times> int \<Rightarrow> bool" where
  "pack_ok p \<longleftrightarrow> 0 \<le> fst p \<and> fst p \<le> 100 \<and> 0 \<le> snd p \<and> snd p < 2 ^ 16"

lemma uint_small: "0 \<le> i \<Longrightarrow> i < 2 ^ 16 \<Longrightarrow> uint (word_of_int i :: u32) = i"
  by (simp add: uint_word_of_int_eq take_bit_int_eq_self)

lemma uint_ucast8: "uint (w :: u32) < 256 \<Longrightarrow> uint (ucast w :: u8) = uint w"
  by (simp add: unsigned_ucast_eq take_bit_int_eq_self)

lemma uint_sum_packs:
  assumes "0 \<le> a" "a \<le> 100" "0 \<le> b" "b \<le> 100"
  shows "uint (ucast ((word_of_int a + word_of_int b :: u32) div 2) :: u8) = (a + b) div 2"
proof -
  have "uint (word_of_int a + word_of_int b :: u32) = a + b"
    using assms by (simp add: uint_word_arith_bintrs uint_small take_bit_int_eq_self)
  then have d: "uint ((word_of_int a + word_of_int b :: u32) div 2) = (a + b) div 2"
    by (simp add: uint_div_distrib)
  have "(a + b) div 2 < 256" using assms by simp
  then show ?thesis using d by (simp add: uint_ucast8)
qed

lemma uint_ucast_pct: "0 \<le> a \<Longrightarrow> a \<le> 100 \<Longrightarrow> uint (ucast (word_of_int a :: u32) :: u8) = a"
  by (simp add: uint_ucast8 uint_small)

text \<open>
  C25. While the whole-battery topic is stale, the telemetry reports the mean percentage, rounded down,
  and the largest voltage of the packs heard, without overflow of the narrow fields.
\<close>

theorem telemetry_battery_fallback:
  assumes "real_get_telemetry e s tr = (Inr t, s', tr')"
    and "\<not> fst (topic_is_fresh e (g_battery_stats s) 5000 (snd (cast_uint e 8 (g_fixState (g_gps s)) tr)))"
    and "heard_packs s \<noteq> []" and "\<forall>p \<in> set (heard_packs s). pack_ok p"
  shows "uint (t_battery_pct t) = sum_list (map fst (heard_packs s)) div int (length (heard_packs s)) \<and>
         uint (t_battery_mv t) = Max (set (map snd (heard_packs s)))"
proof -
  let ?r1 = "ts_last_update_ms (g_battery_single_1_stats s) \<noteq> 0"
  let ?r2 = "ts_last_update_ms (g_battery_single_2_stats s) \<noteq> 0"
  obtain fx tr1 where x: "cast_uint e 8 (g_fixState (g_gps s)) tr = (fx, tr1)" by fastforce
  obtain tr2 where f: "topic_is_fresh e (g_battery_stats s) 5000 tr1 = (False, tr2)"
    using assms(2) x by (cases "topic_is_fresh e (g_battery_stats s) 5000 tr1") auto
  note run = assms(1) [unfolded real_get_telemetry_def Let_def x prod.case f]
  note simps = add_i32_def heard_packs_def pack_ok_def uint_sum_packs uint_ucast_pct uint_small word_less_def
    max_def
  consider "?r1" "?r2" | "?r1" "\<not> ?r2" | "\<not> ?r1" "?r2"
    using assms(3) by (auto simp: heard_packs_def split: if_splits)
  then show ?thesis
  proof cases
    case 1
    then show ?thesis using run assms(4) by (auto simp: simps)
  next
    case 2
    then show ?thesis using run assms(4) by (auto simp: simps)
  next
    case 3
    then show ?thesis using run assms(4) by (auto simp: simps)
  qed
qed

text \<open>A state in which both packs were heard and the whole battery was not.\<close>

definition packs_heard :: real_state where
  "packs_heard = real_initial
     \<lparr>g_battery_single_1 := \<lparr>s_batteryCapacityPercent = 81, s_currentElectric = -1500,
                             s_currentVoltage = 24100, s_batteryTemperature = 300\<rparr>,
      g_battery_single_2 := \<lparr>s_batteryCapacityPercent = 78, s_currentElectric = -1400,
                             s_currentVoltage = 24300, s_batteryTemperature = 310\<rparr>,
      g_battery_single_1_stats := stats0\<lparr>ts_last_update_ms := 5\<rparr>,
      g_battery_single_2_stats := stats0\<lparr>ts_last_update_ms := 6\<rparr>\<rparr>"

lemma packs_heard_stale: "\<not> fst (topic_is_fresh e (g_battery_stats packs_heard) 5000 tr)"
  by (simp add: packs_heard_def real_initial_def topic_is_fresh_def stats0_def)

lemma packs_heard_list: "heard_packs packs_heard = [(81, 24100), (78, 24300)]"
  by (simp add: heard_packs_def packs_heard_def)

theorem telemetry_battery_fallback_witness:
  "\<exists>t. real_get_telemetry env0 packs_heard [] = (Inr t, packs_heard, []) \<and>
     uint (t_battery_pct t) = 79 \<and> uint (t_battery_mv t) = 24300"
proof -
  obtain t where t: "real_get_telemetry env0 packs_heard [] = (Inr t, packs_heard, [])"
    by (simp add: real_get_telemetry_def add_i32_def topic_is_fresh_def packs_heard_def real_initial_def stats0_def Let_def)
  show ?thesis using t telemetry_battery_fallback [OF t packs_heard_stale]
    by (simp add: packs_heard_list pack_ok_def)
qed

text \<open>
  In the battery reply the fallback adds the currents of the packs to the current of the stale
  whole-battery sample, so that the reported current is not the sum of the currents of the packs
  unless that stale current is zero.
\<close>

theorem battery_info_fallback_current:
  assumes "real_get_battery_info e s tr = (Inr b, s', tr')"
    and "\<not> fst (topic_is_fresh e (g_battery_stats s) 5000 tr)"
    and "ts_last_update_ms (g_battery_single_1_stats s) \<noteq> 0"
    and "ts_last_update_ms (g_battery_single_2_stats s) \<noteq> 0"
  shows "b_current_ma b = word_of_int (w_current (g_battery s)) +
           word_of_int (s_currentElectric (g_battery_single_1 s)) +
           word_of_int (s_currentElectric (g_battery_single_2 s)) \<and>
         (b_current_ma b = word_of_int (s_currentElectric (g_battery_single_1 s)) +
           word_of_int (s_currentElectric (g_battery_single_2 s)) \<longleftrightarrow> 2 ^ 32 dvd w_current (g_battery s))"
proof -
  obtain tr2 where f: "topic_is_fresh e (g_battery_stats s) 5000 tr = (False, tr2)"
    using assms(2) by (cases "topic_is_fresh e (g_battery_stats s) 5000 tr") auto
  have "b_current_ma b = word_of_int (w_current (g_battery s)) +
           word_of_int (s_currentElectric (g_battery_single_1 s)) +
           word_of_int (s_currentElectric (g_battery_single_2 s))"
    using assms(1,3,4) by (auto simp: real_get_battery_info_def add_i32_def Let_def f)
  moreover have "(word_of_int (w_current (g_battery s)) :: u32) = 0 \<longleftrightarrow> 2 ^ 32 dvd w_current (g_battery s)"
    using word_of_int_eq_0_iff [where 'a = 32, of "w_current (g_battery s)"] by simp
  ultimately show ?thesis by (auto simp: add.assoc)
qed

theorem battery_info_fallback_current_witness:
  "\<exists>b. real_get_battery_info env0
         (packs_heard\<lparr>g_battery := \<lparr>w_voltage = 24200, w_current = -2900, w_percentage = 80\<rparr>\<rparr>) [] =
       (Inr b, packs_heard\<lparr>g_battery := \<lparr>w_voltage = 24200, w_current = -2900, w_percentage = 80\<rparr>\<rparr>, []) \<and>
     b_current_ma b = word_of_int (-5800)"
proof -
  let ?s = "packs_heard\<lparr>g_battery := \<lparr>w_voltage = 24200, w_current = -2900, w_percentage = 80\<rparr>\<rparr>"
  obtain b where b: "real_get_battery_info env0 ?s [] = (Inr b, ?s, [])"
    by (simp add: real_get_battery_info_def add_i32_def topic_is_fresh_def packs_heard_def real_initial_def stats0_def Let_def)
  have "\<not> fst (topic_is_fresh env0 (g_battery_stats ?s) 5000 [])" using packs_heard_stale by simp
  then show ?thesis using b battery_info_fallback_current [OF b] by (simp add: packs_heard_def)
qed

section \<open>Initialisation\<close>

lemma subscribe_all_trace:
  "subscribe_all e subs tr =
     tr @ map (\<lambda>(t, f, cb). FC (DjiFcSubscription_SubscribeTopic t f cb)) subs"
  by (induction e subs tr rule: subscribe_all.induct) (auto simp: dji_def)

lemma real_init_trace:
  "real_drone_ctrl_init e s tr =
     (if env_dji_ok e (tr @ [FC DjiFcSubscription_Init])
      then (0, s, tr @ [FC DjiFcSubscription_Init] @
              map (\<lambda>(t, f, cb). FC (DjiFcSubscription_SubscribeTopic t f cb)) subscriptions @
              [Cam DjiCameraManager_Init, Cam DjiGimbalManager_Init])
      else (-1, s, tr @ [FC DjiFcSubscription_Init]))"
  by (simp add: real_drone_ctrl_init_def dji_def Let_def subscribe_all_trace)

lemma subscriptions_complete: "fst ` set subscriptions = UNIV"
proof -
  have "t \<in> fst ` set subscriptions" for t by (cases t) (simp_all add: subscriptions_def)
  then show ?thesis by blast
qed

section \<open>Obstacle avoidance\<close>

text \<open>
  Both obstacle-avoidance switches are set to the same value, in the order horizontal, upwards;
  the value is "enable" for the mode whose name is \<^verbatim>\<open>OBSTACLE_AVOID_CLOSE\<close> and "disable" for every other
  mode, \<^verbatim>\<open>OBSTACLE_AVOID_OPEN\<close> included.
\<close>

theorem obstacle_switches:
  assumes "real_set_obstacle_avoidance e mode s tr = (DRONE_OK, s', tr')"
  shows "tr' = tr @ [FC (DjiFlightController_SetHorizontalAvoidance (mode = OBSTACLE_AVOID_CLOSE)),
                     FC (DjiFlightController_SetUpwardsAvoidance (mode = OBSTACLE_AVOID_CLOSE))]"
  using assms by (auto simp: real_set_obstacle_avoidance_def dji_def Let_def split: if_splits)

theorem obstacle_switches_witness:
  "real_set_obstacle_avoidance env0 OBSTACLE_AVOID_OPEN real_initial [] =
     (DRONE_OK, real_initial, [FC (DjiFlightController_SetHorizontalAvoidance False),
                               FC (DjiFlightController_SetUpwardsAvoidance False)])"
proof -
  obtain tr' where r: "real_set_obstacle_avoidance env0 OBSTACLE_AVOID_OPEN real_initial [] =
      (DRONE_OK, real_initial, tr')"
    by (simp add: real_set_obstacle_avoidance_def dji_def Let_def)
  show ?thesis using r obstacle_switches [OF r] by (simp add: OBSTACLE_AVOID_OPEN_def OBSTACLE_AVOID_CLOSE_def)
qed

section \<open>Uploading a file\<close>

text \<open>Resources held along a trace: acquired by a call that returns non-NULL, dropped by a release.\<close>

fun held :: "(ev \<Rightarrow> bool) \<Rightarrow> (ev \<Rightarrow> bool) \<Rightarrow> env \<Rightarrow> trace \<Rightarrow> trace \<Rightarrow> int \<Rightarrow> int" where
  "held acq rel e pre [] n = n"
| "held acq rel e pre (ev # evs) n =
     held acq rel e (pre @ [ev]) evs
       (if acq ev \<and> env_ret e (pre @ [ev]) \<noteq> 0 then n + 1 else if rel ev then n - 1 else n)"

lemma held_append:
  "held acq rel e pre (a @ b) n = held acq rel e (pre @ a) b (held acq rel e pre a n)"
  by (induction a arbitrary: pre n) auto

definition is_fopen :: "ev \<Rightarrow> bool" where
  "is_fopen ev \<longleftrightarrow> (case ev of File (Fopen p) \<Rightarrow> True | _ \<Rightarrow> False)"

definition is_malloc :: "ev \<Rightarrow> bool" where
  "is_malloc ev \<longleftrightarrow> (case ev of File (Osal_Malloc n) \<Rightarrow> True | _ \<Rightarrow> False)"

abbreviation held_files :: "env \<Rightarrow> trace \<Rightarrow> trace \<Rightarrow> int \<Rightarrow> int" where
  "held_files \<equiv> held is_fopen (\<lambda>ev. ev = File Fclose)"

abbreviation held_blocks :: "env \<Rightarrow> trace \<Rightarrow> trace \<Rightarrow> int \<Rightarrow> int" where
  "held_blocks \<equiv> held is_malloc (\<lambda>ev. ev = File Osal_Free)"

lemma kmz_read_upload_held:
  "kmz_read_upload e tr = (r, tr') \<Longrightarrow>
     \<exists>evs. tr' = tr @ evs \<and> held_files e tr evs n = n - 1 \<and> held_blocks e tr evs m = m"
  by (auto simp: kmz_read_upload_def libc_def dji_def Let_def is_fopen_def is_malloc_def
      split: if_splits)

lemma ensure_waypoint_held:
  "ensure_waypoint_v3_ready e s tr = (r, s', tr') \<Longrightarrow>
     \<exists>evs. tr' = tr @ evs \<and> held_files e tr evs n = n \<and> held_blocks e tr evs m = m"
  by (auto simp: ensure_waypoint_v3_ready_def dji_def Let_def is_fopen_def is_malloc_def
      split: if_splits)

text \<open>
  C28. On every path through the upload, errors included, each file it opens is closed again and each
  block of memory it obtains is freed.
\<close>

theorem upload_kmz_held:
  assumes "real_upload_kmz e path s tr = (r, s', tr')"
  shows "\<exists>evs. tr' = tr @ evs \<and> held_files e tr evs n = n \<and> held_blocks e tr evs m = m"
proof (cases "path = None \<or> path = Some []")
  case True
  then show ?thesis using assms by (auto simp: real_upload_kmz_def)
next
  case False
  then obtain p where p: "path = Some p" "p \<noteq> []" by auto
  obtain err s1 tr1 where w: "ensure_waypoint_v3_ready e s tr = (err, s1, tr1)"
    by (cases "ensure_waypoint_v3_ready e s tr") auto
  obtain evs1 where e1: "tr1 = tr @ evs1" "held_files e tr evs1 n = n" "held_blocks e tr evs1 m = m"
    using ensure_waypoint_held [OF w] by blast
  let ?tr2 = "tr1 @ [File (Fopen p)]"
  obtain err2 tr3 where k: "kmz_read_upload e ?tr2 = (err2, tr3)" by fastforce
  obtain evs2 where e2: "tr3 = ?tr2 @ evs2" "held_files e ?tr2 evs2 (n + 1) = n"
      "held_blocks e ?tr2 evs2 m = m"
    using kmz_read_upload_held [OF k, of "n + 1" m] by auto
  consider "tr' = tr1" | "tr' = ?tr2" "env_ret e ?tr2 = 0" | "tr' = tr3" "env_ret e ?tr2 \<noteq> 0"
    using assms p w k by (auto simp: real_upload_kmz_def libc_def Let_def split: if_splits)
  then show ?thesis
  proof cases
    case 1
    then show ?thesis using e1 by blast
  next
    case 2
    then have "tr' = tr @ (evs1 @ [File (Fopen p)])" using e1 by simp
    then show ?thesis using 2 e1 by (fastforce simp: held_append is_fopen_def is_malloc_def)
  next
    case 3
    then have "tr' = tr @ (evs1 @ [File (Fopen p)] @ evs2)" using e1 e2 by simp
    moreover have "held_files e tr (evs1 @ [File (Fopen p)] @ evs2) n = n"
      "held_blocks e tr (evs1 @ [File (Fopen p)] @ evs2) m = m"
      using 3 e1 e2 by (simp_all add: held_append is_fopen_def is_malloc_def)
    ultimately show ?thesis by blast
  qed
qed

theorem upload_kmz_held_witness:
  "\<exists>r s' evs. real_upload_kmz env0 (Some ''/a'') real_initial [] = (r, s', evs) \<and>
     held_files env0 [] evs 0 = 0 \<and> held_blocks env0 [] evs 0 = 0"
proof -
  obtain r s' tr' where u: "real_upload_kmz env0 (Some ''/a'') real_initial [] = (r, s', tr')"
    by (cases "real_upload_kmz env0 (Some ''/a'') real_initial []") auto
  show ?thesis using u upload_kmz_held [OF u, of 0 0] by auto
qed

lemma ensure_waypoint_ok:
  "ensure_waypoint_v3_ready e s tr = (r, s', tr') \<Longrightarrow> r = DRONE_OK \<longleftrightarrow> s_waypoint_v3_inited s'"
  by (auto simp: ensure_waypoint_v3_ready_def dji_def Let_def split: if_splits)

text \<open>
  A successful upload: the file was opened, its size \<open>n\<close> is positive and was read whole, and the SDK
  was given these bytes. From 4 GiB on the buffer is smaller than what is read into it.
\<close>

definition kmz_success :: "env \<Rightarrow> trace \<Rightarrow> trace \<Rightarrow> bool" where
  "kmz_success e opened tr' \<longleftrightarrow>
     (let told = opened @ [File Fseek_End, File Ftell];
          n = env_ret e told;
          done = told @ [File Fseek_Set, File GetOsalHandler, File (Osal_Malloc (n mod 2 ^ 32)),
                         File (Fread n)]
      in 0 < n \<and> env_ret e done = n \<and>
         (if n < 2 ^ 32
          then tr' = done @ [File Fclose, WP (DjiWaypointV3_UploadKmzFile (env_file_data e done) n),
                             File Osal_Free]
          else UB (Over_Write n (n mod 2 ^ 32)) \<in> set tr'))"

lemma kmz_read_upload_ok:
  assumes "kmz_read_upload e tr = (DRONE_OK, tr')" shows "kmz_success e tr tr'"
proof -
  have u: "uint (word_of_int n :: u32) = n mod 2 ^ 32" for n
    by (simp add: uint_word_of_int)
  show ?thesis using assms unfolding kmz_read_upload_def kmz_success_def
    by (auto simp: libc_def dji_def Let_def u split: if_splits)
qed

text \<open>
  C29. An upload that reports success initialised the waypoint manager, read the whole file and gave
  the SDK exactly its bytes and its length, unless the file has 4 GiB or more: then the allocation is
  smaller than what is read into it.
\<close>

theorem upload_kmz_ok:
  assumes "real_upload_kmz e (Some p) s tr = (DRONE_OK, s', tr')"
  shows "s_waypoint_v3_inited s' \<and> (\<exists>evs. kmz_success e (tr @ evs @ [File (Fopen p)]) tr')"
proof -
  obtain err s1 tr1 where w: "ensure_waypoint_v3_ready e s tr = (err, s1, tr1)"
    by (cases "ensure_waypoint_v3_ready e s tr") auto
  obtain evs1 where e1: "tr1 = tr @ evs1" using ensure_waypoint_trace [OF w] by blast
  have "kmz_read_upload e (tr1 @ [File (Fopen p)]) = (DRONE_OK, tr')" "s' = s1" "err = DRONE_OK"
    using assms w by (auto simp: real_upload_kmz_def libc_def Let_def split: if_splits prod.splits)
  then show ?thesis using kmz_read_upload_ok e1 ensure_waypoint_ok [OF w] by auto
qed

theorem upload_kmz_ok_witness:
  "\<exists>s' tr' evs. real_upload_kmz env0 (Some ''/a'') real_initial [] = (DRONE_OK, s', tr') \<and>
     s_waypoint_v3_inited s' \<and> kmz_success env0 (evs @ [File (Fopen ''/a'')]) tr'"
proof -
  obtain s' tr' where u: "real_upload_kmz env0 (Some ''/a'') real_initial [] = (DRONE_OK, s', tr')"
    by (simp add: real_upload_kmz_def ensure_waypoint_v3_ready_def kmz_read_upload_def real_initial_def
        dji_def libc_def dji_result_def ret0_def Let_def)
  show ?thesis using u upload_kmz_ok [OF u] by auto
qed

text \<open>
  C30. When the waypoint manager is initialised and registering its first callback fails, the flag stays
  unset: closing the driver does not undo the initialisation.
\<close>

theorem waypoint_init_leak:
  assumes "\<not> s_waypoint_v3_inited s" and "p \<noteq> []"
    and "env_dji_ok e (tr @ [WP DjiWaypointV3_Init])"
    and "\<not> env_dji_ok e (tr @ [WP DjiWaypointV3_Init, WP DjiWaypointV3_RegMissionStateCallback])"
    and "real_upload_kmz e (Some p) s tr = (r, s1, tr1)"
    and "real_drone_ctrl_deinit e s1 tr1 = (s2, tr2)"
  shows "\<exists>evs. tr2 = tr @ [WP DjiWaypointV3_Init] @ evs \<and> WP DjiWaypointV3_DeInit \<notin> set evs"
  using assms
  by (auto simp: real_upload_kmz_def ensure_waypoint_v3_ready_def real_drone_ctrl_deinit_def dji_def Let_def)

theorem waypoint_init_leak_witness:
  "\<exists>s1 s2 tr1 evs.
     real_upload_kmz (env0\<lparr>env_dji_ok := \<lambda>tr. last tr \<noteq> WP DjiWaypointV3_RegMissionStateCallback\<rparr>)
       (Some ''/a'') real_initial [] = (DRONE_ERR_PSDK, s1, tr1) \<and>
     real_drone_ctrl_deinit (env0\<lparr>env_dji_ok := \<lambda>tr. last tr \<noteq> WP DjiWaypointV3_RegMissionStateCallback\<rparr>)
       s1 tr1 = (s2, [WP DjiWaypointV3_Init] @ evs) \<and> WP DjiWaypointV3_DeInit \<notin> set evs"
proof -
  let ?e = "env0\<lparr>env_dji_ok := \<lambda>tr. last tr \<noteq> WP DjiWaypointV3_RegMissionStateCallback\<rparr>"
  obtain s1 tr1 where u: "real_upload_kmz ?e (Some ''/a'') real_initial [] = (DRONE_ERR_PSDK, s1, tr1)"
    by (simp add: real_upload_kmz_def ensure_waypoint_v3_ready_def real_initial_def dji_def Let_def)
  obtain s2 tr2 where d: "real_drone_ctrl_deinit ?e s1 tr1 = (s2, tr2)" by fastforce
  show ?thesis using waypoint_init_leak [OF _ _ _ _ u d] u d by (auto simp: real_initial_def)
qed

end
