(* ===== verification/Sdk_Threads.thy ===== *)
theory Sdk_Threads
  imports Shared_Memory Drone_Real_Props "HOL-Library.Multiset"
begin

text \<open>
  The functions of \<^verbatim>\<open>bsp/drone_ctrl.c\<close> that touch the shared caches, access by access: the three readings
  of the main thread (telemetry, battery, gimbal) and the nine callbacks of the SDK's thread. Each is
  shown to be the atomic operation of \<^verbatim>\<open>Drone_Real\<close> when nothing disturbs it, to end within a number of
  steps of its own whatever it reads, and the locale \<^verbatim>\<open>shared_reading\<close> states what follows for every
  schedule of the two threads. All other operations of the main thread touch no variable the callbacks
  touch.
\<close>

section \<open>The readings, access by access\<close>

type_synonym 'a reading = "(real_state, 'a) prog"

abbreviation last_ms :: "(real_state \<Rightarrow> TopicStats) \<Rightarrow> real_state \<Rightarrow> u64" where
  "last_ms st s \<equiv> ts_last_update_ms (st s)"

definition fresh_prog :: "(real_state \<Rightarrow> TopicStats) \<Rightarrow> u64 \<Rightarrow> (bool \<Rightarrow> 'a reading) \<Rightarrow> 'a reading" where
  "fresh_prog st max_age_ms k =
     load (last_ms st) (\<lambda>last0.
       if last0 = 0 then k False
       else Now (\<lambda>now_ms.
         load (last_ms st) (\<lambda>last1.
           if last1 \<le> now_ms then load (last_ms st) (\<lambda>last2. k (now_ms - last2 \<le> max_age_ms))
           else k False)))"

definition heading_prog :: "env \<Rightarrow> (fp \<Rightarrow> 'a reading) \<Rightarrow> 'a reading" where
  "heading_prog e k =
     load (\<lambda>s. q0 (g_quat s)) (\<lambda>a0. load (\<lambda>s. q3 (g_quat s)) (\<lambda>a3.
     load (\<lambda>s. q1 (g_quat s)) (\<lambda>a1. load (\<lambda>s. q2 (g_quat s)) (\<lambda>a2.
     load (\<lambda>s. q2 (g_quat s)) (\<lambda>b2. load (\<lambda>s. q2 (g_quat s)) (\<lambda>c2.
     load (\<lambda>s. q3 (g_quat s)) (\<lambda>b3. load (\<lambda>s. q3 (g_quat s)) (\<lambda>c3.
       k (yaw_to_heading (env_atan2f e
            (fmul f32 (lit32 2) (fadd f32 (fmul f32 a0 a3) (fmul f32 a1 a2)))
            (fsub f32 (lit32 1) (fmul f32 (lit32 2) (fadd f32 (fmul f32 b2 c2) (fmul f32 b3 c3))))))))))))))"

definition add_prog :: "u32 \<Rightarrow> int \<Rightarrow> (u32 \<Rightarrow> 'a reading) \<Rightarrow> 'a reading" where
  "add_prog a d k =
     (if sint a + d < - (2 ^ 31) \<or> 2 ^ 31 \<le> sint a + d then Note (Signed_Overflow (sint a + d)) (k (a + word_of_int d))
      else k (a + word_of_int d))"

definition cast_prog :: "env \<Rightarrow> nat \<Rightarrow> fp \<Rightarrow> (int \<Rightarrow> 'a reading) \<Rightarrow> 'a reading" where
  "cast_prog e w x k =
     (case fp_to_uint w x of Some n \<Rightarrow> k n | None \<Rightarrow> Note (Float_Cast x) (k (env_undef_cast e x mod 2 ^ w)))"

text \<open>One pack of the fallback: sum and count of the percentages, largest voltage, sum of the currents.\<close>

definition pack_prog ::
    "(real_state \<Rightarrow> single_sample) \<Rightarrow> (real_state \<Rightarrow> TopicStats) \<Rightarrow> u32 \<Rightarrow> u32 \<Rightarrow> u32 \<Rightarrow> u32 \<Rightarrow>
      (u32 \<Rightarrow> u32 \<Rightarrow> u32 \<Rightarrow> u32 \<Rightarrow> 'a reading) \<Rightarrow> 'a reading" where
  "pack_prog b st pct_sum pct_count voltage_mv current_sum k =
     load (last_ms st) (\<lambda>heard.
       if heard = 0 then k pct_sum pct_count voltage_mv current_sum
       else
         load (\<lambda>s. s_batteryCapacityPercent (b s)) (\<lambda>pct.
         load (\<lambda>s. s_currentElectric (b s)) (\<lambda>i.
         add_prog current_sum i (\<lambda>current_sum.
         load (\<lambda>s. s_currentVoltage (b s)) (\<lambda>v.
           if voltage_mv < word_of_int v
           then load (\<lambda>s. s_currentVoltage (b s)) (\<lambda>v.
                  k (pct_sum + word_of_int pct) (pct_count + 1) (word_of_int v) current_sum)
           else k (pct_sum + word_of_int pct) (pct_count + 1) voltage_mv current_sum)))))"

definition packs_prog :: "DroneTelemetry \<Rightarrow> DroneTelemetry reading" where
  "packs_prog out =
     pack_prog g_battery_single_1 g_battery_single_1_stats 0 0 0 0 (\<lambda>pct_sum pct_count voltage_mv current_sum.
     pack_prog g_battery_single_2 g_battery_single_2_stats pct_sum pct_count voltage_mv current_sum
       (\<lambda>pct_sum pct_count voltage_mv current_sum.
         Ret ((if 0 < pct_count then out\<lparr>t_battery_pct := ucast (pct_sum div pct_count)\<rparr> else out)
              \<lparr>t_battery_mv := voltage_mv\<rparr>)))"

definition fallback_prog :: "DroneTelemetry \<Rightarrow> DroneTelemetry reading" where
  "fallback_prog out =
     fresh_prog g_battery_stats 5000 (\<lambda>fresh.
       if \<not> fresh then
         load (last_ms g_battery_single_1_stats) (\<lambda>r1.
           if r1 \<noteq> 0 then packs_prog out
           else load (last_ms g_battery_single_2_stats) (\<lambda>r2. if r2 \<noteq> 0 then packs_prog out else Ret out))
       else Ret out)"

definition telemetry_prog :: "env \<Rightarrow> DroneTelemetry reading" where
  "telemetry_prog e =
     load (\<lambda>s. p_visibleSatelliteNumber (g_pos_fused s)) (\<lambda>vis.
     load (\<lambda>s. g_gpsSatelliteNumberUsed (g_gps s)) (\<lambda>used.
     load (\<lambda>s. p_latitude (g_pos_fused s)) (\<lambda>lat. load (\<lambda>s. p_longitude (g_pos_fused s)) (\<lambda>lon.
     load (\<lambda>s. p_altitude (g_pos_fused s)) (\<lambda>msl. load (\<lambda>s. p_altitude (g_pos_fused s)) (\<lambda>rel.
     load (\<lambda>s. v_x (g_vel s)) (\<lambda>vx. load (\<lambda>s. v_y (g_vel s)) (\<lambda>vy. load (\<lambda>s. v_z (g_vel s)) (\<lambda>vz.
     heading_prog e (\<lambda>heading.
     load (\<lambda>s. w_percentage (g_battery s)) (\<lambda>pct. load (\<lambda>s. w_voltage (g_battery s)) (\<lambda>mv.
     load (\<lambda>s. g_fixState (g_gps s)) (\<lambda>fix. cast_prog e 8 fix (\<lambda>fix.
     load g_flight_status (\<lambda>fs. load g_flight_status (\<lambda>on.
       let sats_from_pos = (word_of_int vis :: u32); sats_from_gps = (word_of_int used :: u32)
       in fallback_prog (zero_telemetry
            \<lparr>t_lat := rad_to_deg lat, t_lon := rad_to_deg lon, t_alt_msl_m := msl, t_alt_rel_m := rel,
             t_vx_ms := vx, t_vy_ms := vy, t_vz_ms := vz, t_heading_deg := heading,
             t_battery_pct := word_of_int pct, t_battery_mv := word_of_int mv,
             t_gps_sats := ucast (if sats_from_pos < sats_from_gps then sats_from_gps else sats_from_pos),
             t_gps_fix := word_of_int fix, t_flight_status := word_of_int fs, t_motors_on := (0 < on)\<rparr>)))))))))))))))))"

text \<open>The two packs of the battery reply; voltage and current continue from the reply so far.\<close>

definition battery_pack_1 ::
    "DroneBatteryInfo \<Rightarrow> (DroneBatteryInfo \<Rightarrow> u32 \<Rightarrow> u32 \<Rightarrow> 'a reading) \<Rightarrow> 'a reading" where
  "battery_pack_1 out k =
     load (last_ms g_battery_single_1_stats) (\<lambda>heard.
       if heard = 0 then k out 0 0
       else
         load (\<lambda>s. s_currentVoltage (g_battery_single_1 s)) (\<lambda>v.
         load (\<lambda>s. s_currentElectric (g_battery_single_1 s)) (\<lambda>i.
         add_prog (b_current_ma out) i (\<lambda>current.
         load (\<lambda>s. s_batteryTemperature (g_battery_single_1 s)) (\<lambda>temp.
         load (\<lambda>s. s_batteryCapacityPercent (g_battery_single_1 s)) (\<lambda>pct.
           k (out\<lparr>b_voltage_mv := word_of_int v, b_current_ma := current, b_temperature_dc := word_of_int temp\<rparr>)
             (word_of_int pct) 1))))))"

definition battery_pack_2 ::
    "DroneBatteryInfo \<Rightarrow> u32 \<Rightarrow> u32 \<Rightarrow> (DroneBatteryInfo \<Rightarrow> u32 \<Rightarrow> u32 \<Rightarrow> 'a reading) \<Rightarrow> 'a reading" where
  "battery_pack_2 out pct_sum pct_count k =
     load (last_ms g_battery_single_2_stats) (\<lambda>heard.
       if heard = 0 then k out pct_sum pct_count
       else
         load (\<lambda>s. s_currentVoltage (g_battery_single_2 s)) (\<lambda>v.
         load (\<lambda>s. s_currentElectric (g_battery_single_2 s)) (\<lambda>i.
         let voltage_mv = word_of_int v;
             out = (if b_voltage_mv out < voltage_mv then out\<lparr>b_voltage_mv := voltage_mv\<rparr> else out)
         in add_prog (b_current_ma out) i (\<lambda>current.
         let out = out\<lparr>b_current_ma := current\<rparr>;
             pct = (\<lambda>out. load (\<lambda>s. s_batteryCapacityPercent (g_battery_single_2 s)) (\<lambda>pct.
               k out (pct_sum + word_of_int pct) (pct_count + 1)))
         in load (\<lambda>s. s_batteryTemperature (g_battery_single_2 s)) (\<lambda>temp.
              if sint (b_temperature_dc out) < temp
              then load (\<lambda>s. s_batteryTemperature (g_battery_single_2 s)) (\<lambda>temp.
                     pct (out\<lparr>b_temperature_dc := word_of_int temp\<rparr>))
              else pct out)))))"

definition battery_prog :: "DroneBatteryInfo reading" where
  "battery_prog =
     load (\<lambda>s. w_voltage (g_battery s)) (\<lambda>v. load (\<lambda>s. w_current (g_battery s)) (\<lambda>i.
     load (\<lambda>s. w_percentage (g_battery s)) (\<lambda>pct.
       let out = zero_battery\<lparr>b_voltage_mv := word_of_int v, b_current_ma := word_of_int i,
                   b_remaining_pct := word_of_int pct, b_temperature_dc := 0, b_cycle_count := 0\<rparr>
       in fresh_prog g_battery_stats 5000 (\<lambda>fresh.
            if \<not> fresh then
              battery_pack_1 out (\<lambda>out pct_sum pct_count.
              battery_pack_2 out pct_sum pct_count (\<lambda>out pct_sum pct_count.
                Ret (if 0 < pct_count then out\<lparr>b_remaining_pct := ucast (pct_sum div pct_count)\<rparr> else out)))
            else Ret out))))"

definition gimbal_prog :: "DroneGimbalAngle reading" where
  "gimbal_prog =
     load (\<lambda>s. gs_x (g_gimbal s)) (\<lambda>x. load (\<lambda>s. gs_y (g_gimbal s)) (\<lambda>y. load (\<lambda>s. gs_z (g_gimbal s)) (\<lambda>z.
       Ret \<lparr>pitch = x, roll = y, yaw = z\<rparr>)))"

section \<open>The callbacks, access by access\<close>

definition mark_prog ::
    "(real_state \<Rightarrow> TopicStats) \<Rightarrow> ((TopicStats \<Rightarrow> TopicStats) \<Rightarrow> real_state \<Rightarrow> real_state) \<Rightarrow> unit reading \<Rightarrow>
      unit reading" where
  "mark_prog st upd k =
     load (\<lambda>s. ts_count (st s)) (\<lambda>count.
     Store (upd (\<lambda>x. x\<lparr>ts_count := count + 1\<rparr>)) (
     Now (\<lambda>now.
     Store (upd (\<lambda>x. x\<lparr>ts_last_update_ms := now\<rparr>)) (
     load (\<lambda>s. ts_logged (st s)) (\<lambda>logged.
       if \<not> logged then Store (upd (\<lambda>x. x\<lparr>ts_logged := True\<rparr>)) k else k)))))"

text \<open>The members of a sample that \<^verbatim>\<open>memcpy\<close> stores, in the order of their declaration.\<close>

fun copy_members :: "sample \<Rightarrow> (real_state \<Rightarrow> real_state) list" where
  "copy_members (Pos_Sample d) =
     [g_pos_fused_update (p_longitude_update (\<lambda>_. p_longitude d)),
      g_pos_fused_update (p_latitude_update (\<lambda>_. p_latitude d)),
      g_pos_fused_update (p_altitude_update (\<lambda>_. p_altitude d)),
      g_pos_fused_update (p_visibleSatelliteNumber_update (\<lambda>_. p_visibleSatelliteNumber d))]"
| "copy_members (Vel_Sample d) =
     [g_vel_update (v_x_update (\<lambda>_. v_x d)), g_vel_update (v_y_update (\<lambda>_. v_y d)),
      g_vel_update (v_z_update (\<lambda>_. v_z d))]"
| "copy_members (Quat_Sample d) =
     [g_quat_update (q0_update (\<lambda>_. q0 d)), g_quat_update (q1_update (\<lambda>_. q1 d)),
      g_quat_update (q2_update (\<lambda>_. q2 d)), g_quat_update (q3_update (\<lambda>_. q3 d))]"
| "copy_members (Gps_Sample d) =
     [g_gps_update (g_gpsSatelliteNumberUsed_update (\<lambda>_. g_gpsSatelliteNumberUsed d)),
      g_gps_update (g_fixState_update (\<lambda>_. g_fixState d))]"
| "copy_members (Flight_Sample d) = [g_flight_status_update (\<lambda>_. d)]"
| "copy_members (Battery_Sample d) =
     [g_battery_update (w_voltage_update (\<lambda>_. w_voltage d)), g_battery_update (w_current_update (\<lambda>_. w_current d)),
      g_battery_update (w_percentage_update (\<lambda>_. w_percentage d))]"
| "copy_members (Single_1_Sample d) =
     [g_battery_single_1_update (s_batteryCapacityPercent_update (\<lambda>_. s_batteryCapacityPercent d)),
      g_battery_single_1_update (s_currentElectric_update (\<lambda>_. s_currentElectric d)),
      g_battery_single_1_update (s_currentVoltage_update (\<lambda>_. s_currentVoltage d)),
      g_battery_single_1_update (s_batteryTemperature_update (\<lambda>_. s_batteryTemperature d))]"
| "copy_members (Single_2_Sample d) =
     [g_battery_single_2_update (s_batteryCapacityPercent_update (\<lambda>_. s_batteryCapacityPercent d)),
      g_battery_single_2_update (s_currentElectric_update (\<lambda>_. s_currentElectric d)),
      g_battery_single_2_update (s_currentVoltage_update (\<lambda>_. s_currentVoltage d)),
      g_battery_single_2_update (s_batteryTemperature_update (\<lambda>_. s_batteryTemperature d))]"
| "copy_members (Gimbal_Sample d) =
     [g_gimbal_update (gs_x_update (\<lambda>_. gs_x d)), g_gimbal_update (gs_y_update (\<lambda>_. gs_y d)),
      g_gimbal_update (gs_z_update (\<lambda>_. gs_z d))]"

fun mark_sample :: "sample \<Rightarrow> unit reading \<Rightarrow> unit reading" where
  "mark_sample (Pos_Sample d) = mark_prog g_pos_stats g_pos_stats_update"
| "mark_sample (Vel_Sample d) = mark_prog g_vel_stats g_vel_stats_update"
| "mark_sample (Quat_Sample d) = mark_prog g_quat_stats g_quat_stats_update"
| "mark_sample (Gps_Sample d) = mark_prog g_gps_stats g_gps_stats_update"
| "mark_sample (Flight_Sample d) = mark_prog g_flight_stats g_flight_stats_update"
| "mark_sample (Battery_Sample d) = mark_prog g_battery_stats g_battery_stats_update"
| "mark_sample (Single_1_Sample d) = mark_prog g_battery_single_1_stats g_battery_single_1_stats_update"
| "mark_sample (Single_2_Sample d) = mark_prog g_battery_single_2_stats g_battery_single_2_stats_update"
| "mark_sample (Gimbal_Sample d) = mark_prog g_gimbal_stats g_gimbal_stats_update"

text \<open>
  The callbacks for a sequence of samples, one after the other. \<^verbatim>\<open>memcpy\<close> may store the members in any
  order: \<open>copy\<close> gives it.
\<close>

fun sdk_prog :: "env \<Rightarrow> (sample \<Rightarrow> (real_state \<Rightarrow> real_state) list) \<Rightarrow> (sample \<times> nat) list \<Rightarrow> unit reading" where
  "sdk_prog e copy [] = Ret ()"
| "sdk_prog e copy ((x, len) # xs) =
     (if env_sizeof e (topic_of x) \<le> len then stores (copy x) (mark_sample x (sdk_prog e copy xs))
      else sdk_prog e copy xs)"

definition copies :: "(sample \<Rightarrow> (real_state \<Rightarrow> real_state) list) \<Rightarrow> bool" where
  "copies copy \<longleftrightarrow> (\<forall>x. mset (copy x) = mset (copy_members x))"

section \<open>Undisturbed, the threads do what the atomic operations do\<close>

lemma add_prog_simps [thread_simps]:
  "run_alone e (add_prog a d k) s tr = (case add_i32 a d tr of (c, tr) \<Rightarrow> run_alone e (k c) s tr)"
  "sat C P Q (add_prog a d k) = sat C P Q (k (a + word_of_int d))"
  "reads_only (add_prog a d k) = reads_only (k (a + word_of_int d))"
  by (simp_all add: add_prog_def add_i32_def)

lemma cast_prog_simps [thread_simps]:
  "run_alone e' (cast_prog e w x k) s tr = (case cast_uint e w x tr of (n, tr) \<Rightarrow> run_alone e' (k n) s tr)"
  "sat C P Q (cast_prog e w x k) = sat C P Q (k (fst (cast_uint e w x [])))"
  "reads_only (cast_prog e w x k) = reads_only (k (fst (cast_uint e w x [])))"
  by (simp_all add: cast_prog_def cast_uint_def split: option.split)

lemma ends_in_load: "(\<And>s. ends_in (k (f s)) n) \<Longrightarrow> Suc n \<le> m \<Longrightarrow> ends_in (load f k) m"
  using ends_in_mono [of "load f k" "Suc n" m] by (simp add: thread_simps)

lemma ends_in_add: "ends_in (k (a + word_of_int d)) n \<Longrightarrow> Suc n \<le> m \<Longrightarrow> ends_in (add_prog a d k) m"
  using ends_in_mono [of "k (a + word_of_int d)" n m]
    ends_in_mono [of "Note (Signed_Overflow (sint a + d)) (k (a + word_of_int d))" "Suc n" m]
  by (simp add: add_prog_def)

lemma ends_in_cast: "(\<And>n. ends_in (k n) m) \<Longrightarrow> ends_in (cast_prog e w x k) (Suc m)"
  using ends_in_mono [of "k n" m "Suc m" for n] by (simp add: cast_prog_def split: option.split)

lemma run_alone_fresh [thread_simps]:
  "run_alone e (fresh_prog st age k) s tr =
     (case topic_is_fresh e (st s) age tr of (b, tr) \<Rightarrow> run_alone e (k b) s tr)"
  by (simp add: fresh_prog_def topic_is_fresh_def thread_simps split: prod.split)

lemma run_alone_heading [thread_simps]:
  "run_alone e' (heading_prog e k) s tr = run_alone e' (k (quat_to_heading e (g_quat s))) s tr"
  by (simp add: heading_prog_def quat_to_heading_def thread_simps Let_def)

lemma run_alone_pack [thread_simps]:
  "run_alone e (pack_prog b st ps cnt volt cur k) s tr =
     (if last_ms st s \<noteq> 0 then
        case add_i32 cur (s_currentElectric (b s)) tr of (cur, tr) \<Rightarrow>
          run_alone e (k (ps + word_of_int (s_batteryCapacityPercent (b s))) (cnt + 1)
            (if volt < word_of_int (s_currentVoltage (b s)) then word_of_int (s_currentVoltage (b s)) else volt) cur) s tr
      else run_alone e (k ps cnt volt cur) s tr)"
  by (simp add: pack_prog_def thread_simps split: prod.split)

lemma telemetry_alone: "real_get_telemetry e s tr = (case run_alone e (telemetry_prog e) s tr of (t, s, tr) \<Rightarrow> (Inr t, s, tr))"
  unfolding telemetry_prog_def fallback_prog_def packs_prog_def real_get_telemetry_def Let_def
  by (simp add: thread_simps split: prod.split)

lemma battery_alone: "real_get_battery_info e s tr = (case run_alone e battery_prog s tr of (t, s, tr) \<Rightarrow> (Inr t, s, tr))"
proof -
  obtain b tr1 where f: "topic_is_fresh e (g_battery_stats s) 5000 tr = (b, tr1)" by fastforce
  note defs = battery_prog_def battery_pack_1_def battery_pack_2_def real_get_battery_info_def Let_def thread_simps f
  show ?thesis
    by (cases b; cases "last_ms g_battery_single_1_stats s = 0"; cases "last_ms g_battery_single_2_stats s = 0")
      (simp_all add: defs add_i32_def)
qed

lemma gimbal_alone: "real_get_gimbal_angle s tr = (case run_alone e gimbal_prog s tr of (t, s, tr) \<Rightarrow> (Inr t, s, tr))"
  by (simp add: gimbal_prog_def real_get_gimbal_angle_def thread_simps)

lemma fold_members:
  "fold id (copy_members x) s =
     (case x of Pos_Sample d \<Rightarrow> s\<lparr>g_pos_fused := d\<rparr> | Vel_Sample d \<Rightarrow> s\<lparr>g_vel := d\<rparr>
      | Quat_Sample d \<Rightarrow> s\<lparr>g_quat := d\<rparr> | Gps_Sample d \<Rightarrow> s\<lparr>g_gps := d\<rparr> | Flight_Sample d \<Rightarrow> s\<lparr>g_flight_status := d\<rparr>
      | Battery_Sample d \<Rightarrow> s\<lparr>g_battery := d\<rparr> | Single_1_Sample d \<Rightarrow> s\<lparr>g_battery_single_1 := d\<rparr>
      | Single_2_Sample d \<Rightarrow> s\<lparr>g_battery_single_2 := d\<rparr> | Gimbal_Sample d \<Rightarrow> s\<lparr>g_gimbal := d\<rparr>)"
  by (cases x; cases s) simp_all

text \<open>The stores of one \<^verbatim>\<open>memcpy\<close> go to different members: their order does not matter to the outcome.\<close>

lemma members_commute: "f \<in> set (copy_members x) \<Longrightarrow> g \<in> set (copy_members x) \<Longrightarrow> f \<circ> g = g \<circ> f"
  by (cases x) (auto simp: fun_eq_iff)

lemma set_copy: "copies copy \<Longrightarrow> set (copy x) = set (copy_members x)"
  unfolding copies_def by (metis mset_eq_setD)

lemma fold_copy: "copies copy \<Longrightarrow> fold id (copy x) = fold id (copy_members x)"
proof (rule fold_multiset_equiv)
  assume c: "copies copy"
  show "mset (copy x) = mset (copy_members x)" using c by (simp add: copies_def)
  fix f g assume "f \<in> set (copy x)" and "g \<in> set (copy x)"
  then show "id f \<circ> id g = id g \<circ> id f" using members_commute set_copy [OF c] by (metis id_apply)
qed

lemma length_copy: "copies copy \<Longrightarrow> length (copy x) \<le> 4"
proof -
  assume "copies copy"
  then have "length (copy x) = length (copy_members x)" unfolding copies_def by (metis mset_eq_length)
  then show ?thesis by (cases x) simp_all
qed

text \<open>The nine pairs of a field of statistics and its update.\<close>

definition stats_field ::
    "(real_state \<Rightarrow> TopicStats) \<Rightarrow> ((TopicStats \<Rightarrow> TopicStats) \<Rightarrow> real_state \<Rightarrow> real_state) \<Rightarrow> bool" where
  "stats_field st upd \<longleftrightarrow>
     (\<forall>f g s. upd f (upd g s) = upd (f \<circ> g) s) \<and> (\<forall>f s. st (upd f s) = f (st s)) \<and>
     (\<forall>f g s. f (st s) = g (st s) \<longrightarrow> upd f s = upd g s)"

lemma stats_fields [simp]:
  "stats_field g_pos_stats g_pos_stats_update" "stats_field g_vel_stats g_vel_stats_update"
  "stats_field g_quat_stats g_quat_stats_update" "stats_field g_gps_stats g_gps_stats_update"
  "stats_field g_flight_stats g_flight_stats_update" "stats_field g_battery_stats g_battery_stats_update"
  "stats_field g_battery_single_1_stats g_battery_single_1_stats_update"
  "stats_field g_battery_single_2_stats g_battery_single_2_stats_update"
  "stats_field g_gimbal_stats g_gimbal_stats_update"
  by (simp_all add: stats_field_def comp_def)

lemma mark_alone:
  assumes "stats_field st upd" and "mark_topic_rx e (st s) tr = (x, tr')"
  shows "run_alone e (mark_prog st upd k) s tr = run_alone e k (upd (\<lambda>_. x) s) tr'"
proof -
  obtain now where m: "monotonic_ms e tr = (now, tr')" and
      x: "x = (st s)\<lparr>ts_count := ts_count (st s) + 1, ts_last_update_ms := now, ts_logged := True\<rparr>"
    using assms(2) by (cases "st s") (auto simp: mark_topic_rx_def Let_def split: prod.splits if_splits)
  let ?A = "\<lambda>x. x\<lparr>ts_count := ts_count (st s) + 1\<rparr>" and ?B = "\<lambda>x. x\<lparr>ts_last_update_ms := now\<rparr>"
    and ?C = "\<lambda>x. x\<lparr>ts_logged := True\<rparr>"
  have law: "\<forall>f g s. f (st s) = g (st s) \<longrightarrow> upd f s = upd g s" using assms(1) unfolding stats_field_def by (elim conjE)
  have u: "upd f s = upd (\<lambda>_. x) s" if "f (st s) = x" for f by (rule law [rule_format]) (rule that)
  have c: "upd ?B (upd ?A s) = upd (?B \<circ> ?A) s" "upd ?C (upd (?B \<circ> ?A) s) = upd (?C \<circ> (?B \<circ> ?A)) s"
      "st (upd (?B \<circ> ?A) s) = (?B \<circ> ?A) (st s)"
    using assms(1) unfolding stats_field_def by blast+
  have "run_alone e (mark_prog st upd k) s tr =
      run_alone e k (if \<not> ts_logged (st s) then upd (?C \<circ> (?B \<circ> ?A)) s else upd (?B \<circ> ?A) s) tr'"
    by (simp add: mark_prog_def thread_simps m c)
  also have "\<dots> = run_alone e k (upd (\<lambda>_. x) s) tr'"
    using u [of "?C \<circ> (?B \<circ> ?A)"] u [of "?B \<circ> ?A"] x by (cases "ts_logged (st s)") simp_all
  finally show ?thesis .
qed

lemma sdk_alone_cons:
  assumes "copies copy" and "on_sample e x len s tr = Some (s1, tr1)"
  shows "run_alone e (sdk_prog e copy ((x, len) # xs)) s tr = run_alone e (sdk_prog e copy xs) s1 tr1"
  using assms(2) [unfolded on_sample_def registered_cb_topic option.case run_cb_def cb_defs Let_def]
  by (cases x) (auto simp: thread_simps fold_copy [OF assms(1)] fold_members mark_alone simp del: copy_members.simps
      split: if_splits prod.splits)

lemma sdk_alone_samples:
  assumes "copies copy" and "on_samples e xs s tr = Some (s', tr')"
  shows "run_alone e (sdk_prog e copy xs) s tr = ((), s', tr')"
  using assms(2)
proof (induction xs arbitrary: s tr)
  case (Cons y xs)
  obtain x len where y: "y = (x, len)" by (cases y)
  then obtain s1 tr1 where o: "on_sample e x len s tr = Some (s1, tr1)" "on_samples e xs s1 tr1 = Some (s', tr')"
    using Cons.prems by (auto split: option.splits)
  then show ?case using sdk_alone_cons [OF assms(1) o(1)] Cons.IH y by simp
qed simp

section \<open>Readings end, whatever the other thread does\<close>

lemma ends_in_numeral [thread_simps]:
  "ends_in (load f k) (numeral v) \<longleftrightarrow> (\<forall>s. ends_in (k (f s)) (pred_numeral v))"
  by (simp add: thread_simps numeral_eq_Suc)

lemma ends_in_fresh:
  assumes "\<And>b. ends_in (k b) n" and "n + 4 \<le> m" shows "ends_in (fresh_prog st age k) m"
proof -
  have "ends_in (fresh_prog st age k) (Suc (Suc (Suc (Suc n))))"
    using assms(1) ends_in_mono [OF assms(1) [of False], of "Suc n"]
      ends_in_mono [OF assms(1) [of False], of "Suc (Suc (Suc n))"]
    by (simp add: fresh_prog_def thread_simps)
  from ends_in_mono [OF this] assms(2) show ?thesis by simp
qed

lemma ends_in_pack:
  assumes "\<And>a b c d. ends_in (k a b c d) n" and "n + 6 \<le> m"
  shows "ends_in (pack_prog b st ps pc v c k) m"
proof -
  have k: "ends_in (k a b c d) i" if "n \<le> i" for a b c d i using ends_in_mono [OF assms(1) that] .
  have "ends_in (pack_prog b st ps pc v c k) (Suc (Suc (Suc (Suc (Suc (Suc n))))))"
    unfolding pack_prog_def thread_simps
    by (auto simp: thread_simps intro!: k ends_in_add [of _ _ _ "Suc (Suc n)"])
  from ends_in_mono [OF this] assms(2) show ?thesis by simp
qed

lemma packs_ends: "ends_in (packs_prog out) 12"
  unfolding packs_prog_def by (rule ends_in_pack [of _ 6], rule ends_in_pack [of _ 0]) simp_all

lemma fallback_ends: "ends_in (fallback_prog out) 18"
  unfolding fallback_prog_def
  by (rule ends_in_fresh [of _ 14]) (simp_all add: thread_simps packs_ends ends_in_mono [OF packs_ends])

lemma telemetry_ends: "ends_in (telemetry_prog e) 41"
proof -
  have "ends_in (cast_prog e 8 x (\<lambda>n. load g_flight_status (\<lambda>a. load g_flight_status (\<lambda>b. fallback_prog (f n a b))))) 21" for x f
    by (rule ends_in_cast [of _ 20, simplified]) (simp add: thread_simps fallback_ends)
  then show ?thesis unfolding telemetry_prog_def heading_prog_def Let_def by (simp add: thread_simps)
qed

lemma battery_pack_1_ends:
  assumes "\<And>a b c. ends_in (k a b c) n" and "n + 6 \<le> m" shows "ends_in (battery_pack_1 out k) m"
proof -
  have k: "ends_in (k a b c) i" if "n \<le> i" for a b c i using ends_in_mono [OF assms(1) that] .
  have "ends_in (battery_pack_1 out k) (Suc (Suc (Suc (Suc (Suc (Suc n))))))"
    unfolding battery_pack_1_def thread_simps
    by (auto simp: thread_simps intro!: k ends_in_add [of _ _ _ "Suc (Suc n)"])
  from ends_in_mono [OF this] assms(2) show ?thesis by simp
qed

lemma battery_pack_2_ends:
  assumes "\<And>a b c. ends_in (k a b c) n" and "n + 7 \<le> m" shows "ends_in (battery_pack_2 out ps pc k) m"
proof -
  have k: "ends_in (k a b c) i" if "n \<le> i" for a b c i using ends_in_mono [OF assms(1) that] .
  have "ends_in (battery_pack_2 out ps pc k) (Suc (Suc (Suc (Suc (Suc (Suc (Suc n)))))))"
    unfolding battery_pack_2_def thread_simps Let_def
    by (auto simp: thread_simps intro!: k ends_in_add [of _ _ _ "Suc (Suc (Suc n))"])
  from ends_in_mono [OF this] assms(2) show ?thesis by simp
qed

lemma battery_ends: "ends_in battery_prog 20"
  unfolding battery_prog_def Let_def
  by (rule ends_in_load [of _ _ 19], rule ends_in_load [of _ _ 18], rule ends_in_load [of _ _ 17], rule ends_in_fresh [of _ 13])
    (auto intro!: battery_pack_1_ends [of _ 7] battery_pack_2_ends [of _ 0])

lemma gimbal_ends: "ends_in gimbal_prog 3"
  by (simp add: gimbal_prog_def thread_simps)

lemma mark_ends: "ends_in k n \<Longrightarrow> ends_in (mark_prog st upd k) (Suc (Suc (Suc (Suc (Suc (Suc n))))))"
  using ends_in_mono [of k n "Suc n"] by (simp add: mark_prog_def thread_simps)

lemma sdk_ends: "copies copy \<Longrightarrow> ends_in (sdk_prog e copy xs) (10 * length xs)"
proof (induction xs)
  case (Cons y xs)
  obtain x len where y: "y = (x, len)" by (cases y)
  have "ends_in (mark_sample x (sdk_prog e copy xs)) (Suc (Suc (Suc (Suc (Suc (Suc (10 * length xs)))))))"
    using mark_ends [OF Cons.IH [OF Cons.prems]] by (cases x) simp_all
  from ends_in_mono [OF ends_in_stores [OF this]] length_copy [OF Cons.prems, of x]
  have "ends_in (stores (copy x) (mark_sample x (sdk_prog e copy xs))) (10 * length (y # xs))" by simp
  then show ?case using ends_in_mono [OF Cons.IH [OF Cons.prems]] y by simp
qed simp

lemma reads_only_parts:
  "(\<And>b. reads_only (k b)) \<Longrightarrow> reads_only (fresh_prog st age k)"
  "(\<And>h. reads_only (k' h)) \<Longrightarrow> reads_only (heading_prog e k')"
  "(\<And>a b c d. reads_only (k4 a b c d)) \<Longrightarrow> reads_only (pack_prog bt st ps pc v i k4)"
  "(\<And>o' ps pc. reads_only (k3 o' ps pc)) \<Longrightarrow> reads_only (battery_pack_1 out k3)"
  "(\<And>o' ps pc. reads_only (k3 o' ps pc)) \<Longrightarrow> reads_only (battery_pack_2 out ps pc k3)"
  by (simp_all add: fresh_prog_def heading_prog_def pack_prog_def battery_pack_1_def battery_pack_2_def Let_def thread_simps)

lemma readings_read:
  "reads_only (telemetry_prog e)" "reads_only battery_prog" "reads_only gimbal_prog"
proof -
  have "reads_only (packs_prog out)" for out unfolding packs_prog_def by (intro reads_only_parts) simp
  then have "reads_only (fallback_prog out)" for out
    unfolding fallback_prog_def by (intro reads_only_parts) (simp add: thread_simps)
  then show "reads_only (telemetry_prog e)"
    unfolding telemetry_prog_def Let_def by (simp add: thread_simps reads_only_parts)
  show "reads_only battery_prog"
    unfolding battery_prog_def Let_def by (simp only: thread_simps, intro allI reads_only_parts) (simp add: reads_only_parts)
  show "reads_only gimbal_prog" by (simp add: gimbal_prog_def thread_simps)
qed

section \<open>The interface of a shared reading\<close>

text \<open>
  A reading of the caches: a thread that writes nothing and ends within a bound, and the atomic operation
  it is when nothing disturbs it.
\<close>

locale shared_reading =
  fixes e :: env and p :: "'a reading" and op :: "(real_state, DroneError + 'a) bsp_op" and bound :: nat
  assumes reads: "reads_only p" and ends: "ends_in p bound"
    and alone: "op s tr = (case run_alone e p s tr of (t, s, tr) \<Rightarrow> (Inr t, s, tr))"
begin

abbreviation start :: "(sample \<Rightarrow> (real_state \<Rightarrow> real_state) list) \<Rightarrow> (sample \<times> nat) list \<Rightarrow> real_state \<Rightarrow> trace \<Rightarrow>
    (real_state, 'a) threads" where
  "start copy xs s tr \<equiv> \<lparr>th_main = p, th_sdk = sdk_prog e copy xs, th_mem = s, th_trace = tr\<rparr>"

text \<open>A schedule that lets the callbacks finish before the reading starts is the atomic model.\<close>

lemma serial:
  assumes "copies copy" and "on_samples e xs s tr = Some (s1, tr1)" and "op s1 tr1 = (Inr t, s2, tr2)"
  shows "sched_run e (replicate (10 * length xs) Sdk_Thread @ replicate bound Main_Thread) (start copy xs s tr) =
           \<lparr>th_main = Ret t, th_sdk = Ret (), th_mem = s2, th_trace = tr2\<rparr>"
proof -
  have "run_alone e p s1 tr1 = (t, s2, tr2)" using assms(3) by (simp add: alone split: prod.splits)
  then show ?thesis
    using sdk_alone [of "start copy xs s tr" "10 * length xs" e "()" s1 tr1] sdk_ends [OF assms(1)]
      sdk_alone_samples [OF assms(1,2)]
      main_alone [of "\<lparr>th_main = p, th_sdk = Ret (), th_mem = s1, th_trace = tr1\<rparr>" bound e t s2 tr2] ends
    by simp
qed

text \<open>The reading ends after its own steps, however the callbacks are scheduled in between.\<close>

lemma completes:
  assumes "bound \<le> length (filter (\<lambda>t. t = Main_Thread) sch)"
  shows "\<exists>t. th_main (sched_run e sch (start copy xs s tr)) = Ret t"
  by (rule ends_in_run [OF _ assms]) (simp add: ends)

text \<open>What holds of a reading while the callbacks keep \<open>P\<close>.\<close>

lemma established:
  assumes "sat C P Q p" and "keeps C P (sdk_prog e copy xs)" and "P s" and "clock_shows e C tr"
    and "th_main (sched_run e sch (start copy xs s tr)) = Ret t"
  shows "Q t"
proof (rule sat_result [OF _ _ _ assms(5), of C P])
  show "\<forall>s \<in> set (memories e sch (start copy xs s tr)). P s"
    by (rule memories_keep) (use assms reads_only_keeps [OF reads] in \<open>simp add: both_keep_def\<close>)
qed (use assms in simp_all)

end

interpretation tele: shared_reading e "telemetry_prog e" "real_get_telemetry e" 41
  by unfold_locales (simp_all add: readings_read telemetry_ends telemetry_alone)

interpretation batt: shared_reading e battery_prog "real_get_battery_info e" 20
  by unfold_locales (simp_all add: readings_read battery_ends battery_alone)

interpretation gimb: shared_reading e gimbal_prog real_get_gimbal_angle 3
  by unfold_locales (simp_all add: readings_read gimbal_ends gimbal_alone [of _ _ e])

end
