(* ===== verification/Udp_Server.thy ===== *)
theory Udp_Server
  imports Environment
begin

text \<open>
  \<^verbatim>\<open>core/server/udp_server.c\<close>: creating the socket, one poll step, sending, destroying. The receive
  buffer is the array of the C struct, updated in place. The message callback is a parameter of the
  poll step; \<open>udp_handler\<close> is the contract a callback keeps and what polling then guarantees.
\<close>

section \<open>State\<close>

record UdpServer =
  us_fd :: int
  us_recv_buf :: string

definition INADDR_ANY :: u32 where "INADDR_ANY = 0"

section \<open>Create and destroy\<close>

text \<open>
  \<open>bind_ip\<close> is \<^term>\<open>None\<close> for NULL. \<^verbatim>\<open>inet_pton\<close> succeeds with 1; the address it parses is the
  argument \<open>addr_of\<close>.
\<close>

definition udp_server_create ::
    "env \<Rightarrow> (string \<Rightarrow> u32) \<Rightarrow> string option \<Rightarrow> u16 \<Rightarrow> trace \<Rightarrow> UdpServer option \<times> trace" where
  "udp_server_create e addr_of bind_ip port tr =
     (let (p, tr) = libc e (Net Calloc_Server) tr in
      if p = 0 then (None, tr) else
      let (fd, tr) = libc e (Net Socket_Dgram) tr in
      if fd < 0 then (None, tr @ [Net Free_Server]) else
      let (_, tr) = libc e (Net (Setsockopt_Reuse fd)) tr;
          any = (case bind_ip of None \<Rightarrow> True | Some ip \<Rightarrow> ip = [] \<or> ip = ''0.0.0.0'');
          ip = (case bind_ip of None \<Rightarrow> [] | Some ip \<Rightarrow> ip);
          (pton, tr) = (if any then (1, tr) else libc e (Net (Inet_pton ip)) tr)
      in
      if pton \<noteq> 1 then (None, tr @ [Net (Close_Fd fd), Net Free_Server]) else
      let addr = (if any then INADDR_ANY else addr_of ip);
          (b, tr) = libc e (Net (Bind fd addr port)) tr
      in
      if b < 0 then (None, tr @ [Net (Close_Fd fd), Net Free_Server])
      else (Some \<lparr>us_fd = fd, us_recv_buf = replicate DRONE_MAX_MSG_LEN NUL\<rparr>, tr))"

definition udp_server_destroy :: "UdpServer option \<Rightarrow> trace \<Rightarrow> trace" where
  "udp_server_destroy srv tr =
     (case srv of None \<Rightarrow> tr | Some s \<Rightarrow> tr @ [Net (Close_Fd (us_fd s)), Net Free_Server])"

section \<open>Receive\<close>

definition udp_ws :: "char \<Rightarrow> bool" where
  "udp_ws c \<longleftrightarrow> c = LF \<or> c = CR \<or> c = CHR '' ''"

text \<open>The stripping loop, on the array: each step overwrites the last byte of the message with NUL.\<close>

definition udp_strip :: "string \<Rightarrow> nat \<Rightarrow> string \<times> nat" where
  "udp_strip buf len = strip_loop udp_ws buf len"

text \<open>
  \<^verbatim>\<open>recvfrom\<close> into a buffer of \<open>n\<close> bytes: an error, or the datagram cut to \<open>n\<close> bytes.
\<close>

definition recvfrom :: "env \<Rightarrow> int \<Rightarrow> nat \<Rightarrow> trace \<Rightarrow> (sockaddr_in \<times> string) option \<times> trace" where
  "recvfrom e fd n tr =
     (let (r, tr) = libc e (Net (Recvfrom fd n)) tr;
          (peer, dgram) = env_datagram e tr
      in (if r < 0 then None else Some (peer, take n dgram), tr))"

text \<open>Everything \<^verbatim>\<open>udp_server_poll\<close> does before it calls back.\<close>

definition udp_receive ::
    "env \<Rightarrow> int \<Rightarrow> UdpServer \<Rightarrow> trace \<Rightarrow>
      UdpServer \<times> (sockaddr_in \<times> string \<times> nat) option \<times> trace" where
  "udp_receive e timeout_ms srv tr =
     (let (p, tr) = libc e (Net (Poll (us_fd srv) timeout_ms)) tr in
      if p \<le> 0 then (srv, None, tr) else
      let (r, tr) = recvfrom e (us_fd srv) (DRONE_MAX_MSG_LEN - 1) tr in
      case r of
        None \<Rightarrow> (srv, None, tr)
      | Some (peer, data) \<Rightarrow>
          let len = length data;
              buf = data @ drop len (us_recv_buf srv)
          in
          if len = 0 then (srv\<lparr>us_recv_buf := buf\<rparr>, None, tr) else
          let (buf, len) = udp_strip (buf[len := NUL]) len;
              srv = srv\<lparr>us_recv_buf := buf\<rparr>
          in
          if len = 0 then (srv, None, tr)
          else (srv, Some (peer, buf, len), tr))"

definition udp_server_poll ::
    "env \<Rightarrow> (sockaddr_in \<Rightarrow> string \<Rightarrow> nat \<Rightarrow> 's \<Rightarrow> trace \<Rightarrow> int \<times> 's \<times> trace) \<Rightarrow> int \<Rightarrow>
      UdpServer \<Rightarrow> 's \<Rightarrow> trace \<Rightarrow> UdpServer \<times> 's \<times> trace" where
  "udp_server_poll e cb timeout_ms srv s tr =
     (case udp_receive e timeout_ms srv tr of
        (srv, None, tr) \<Rightarrow> (srv, s, tr)
      | (srv, Some (peer, line, len), tr) \<Rightarrow>
          (case cb peer line len s tr of (_, s, tr) \<Rightarrow> (srv, s, tr)))"

section \<open>Send\<close>

text \<open>
  \<open>len\<close> bytes are read from the caller's buffer \<open>msg\<close>; a longer read than the buffer is undefined.
\<close>

definition udp_server_send ::
    "env \<Rightarrow> int \<Rightarrow> sockaddr_in \<Rightarrow> string \<Rightarrow> nat \<Rightarrow> trace \<Rightarrow> int \<times> trace" where
  "udp_server_send e fd peer msg len tr =
     (case read_bytes msg len of
        None \<Rightarrow> (-1, tr @ [UB (Over_Read len (length msg))])
      | Some bytes \<Rightarrow>
          let (n, tr) = libc e (Net (Sendto fd peer bytes)) tr
          in (if n < 0 then -1 else 0, tr))"

section \<open>Open descriptors along a trace\<close>

fun opens_fd :: "ev \<Rightarrow> bool" where
  "opens_fd (Net c) = (c = Socket_Dgram \<or> c = Socket_Stream \<or> c = Epoll_Create \<or> (\<exists>fd. c = Accept fd))"
| "opens_fd _ = False"

fun live_fds :: "env \<Rightarrow> trace \<Rightarrow> trace \<Rightarrow> int list \<Rightarrow> int list" where
  "live_fds e pre [] fds = fds"
| "live_fds e pre (ev # evs) fds =
     live_fds e (pre @ [ev]) evs
       (if opens_fd ev
        then (if 0 \<le> env_ret e (pre @ [ev]) then env_ret e (pre @ [ev]) # fds else fds)
        else (case ev of Net (Close_Fd fd) \<Rightarrow> remove1 fd fds | _ \<Rightarrow> fds))"

lemma live_fds_append:
  "live_fds e pre (a @ b) fds = live_fds e (pre @ a) b (live_fds e pre a fds)"
  by (induction a arbitrary: pre fds) auto

definition fd_event :: "ev \<Rightarrow> bool" where
  "fd_event ev \<longleftrightarrow> opens_fd ev \<or> (\<exists>fd. ev = Net (Close_Fd fd))"

lemma fd_event_simps [simp]:
  "\<not> fd_event (Json j)" "\<not> fd_event (UB u)" "\<not> fd_event (Net (Sendto fd p m))"
  "\<not> fd_event (Net (Poll fd n))" "\<not> fd_event (Net (Recvfrom fd k))"
  by (simp_all add: fd_event_def)

lemma fd_event_net: "fd_event ev \<Longrightarrow> is_net ev"
  by (cases ev) (auto simp: fd_event_def)

lemma live_fds_quiet:
  "\<forall>ev \<in> set evs. \<not> fd_event ev \<Longrightarrow> live_fds e pre evs fds = fds"
proof (induction evs arbitrary: pre)
  case (Cons ev evs)
  have "\<not> opens_fd ev" "\<forall>fd. ev \<noteq> Net (Close_Fd fd)" using Cons.prems by (auto simp: fd_event_def)
  then have "live_fds e pre (ev # evs) fds = live_fds e (pre @ [ev]) evs fds"
  proof (cases ev)
    case (Net c)
    then show ?thesis using \<open>\<not> opens_fd ev\<close> \<open>\<forall>fd. ev \<noteq> Net (Close_Fd fd)\<close> by (cases c) simp_all
  qed simp_all
  then show ?case using Cons by simp
qed simp

lemma udp_server_create_fds:
  assumes "udp_server_create e addr_of bind_ip port tr = (res, tr')"
  shows "\<exists>evs. tr' = tr @ evs \<and>
           live_fds e tr evs fds = (case res of None \<Rightarrow> fds | Some s \<Rightarrow> us_fd s # fds) \<and>
           (res \<noteq> None \<longrightarrow> 0 \<le> us_fd (the res))"
  using assms unfolding udp_server_create_def
  by (fastforce simp: libc_def Let_def split: if_splits option.splits)

lemma udp_server_create_buf:
  "udp_server_create e addr_of bind_ip port tr = (Some s, tr') \<Longrightarrow>
     length (us_recv_buf s) = DRONE_MAX_MSG_LEN"
  unfolding udp_server_create_def by (auto simp: libc_def Let_def split: if_splits option.splits)

section \<open>The receive path\<close>

lemma udp_strip_spec:
  assumes "n \<le> length buf" and "udp_strip buf n = (buf', n')"
  shows "take n' buf' = strip_suffix udp_ws (take n buf) \<and> n' \<le> n \<and>
         length buf' = length buf \<and> drop n buf' = drop n buf \<and>
         (n' < n \<longrightarrow> buf' ! n' = NUL)"
  using strip_loop_spec [OF assms(1), of udp_ws] assms(2) by (simp add: udp_strip_def)

text \<open>
  What the callback is given: the datagram cut to 4095 bytes with its trailing white space removed,
  as a C string in the buffer, and its length.
\<close>

lemma udp_receive_spec:
  assumes "udp_receive e timeout srv tr = (srv', Some (peer, line, len), tr')"
    and "length (us_recv_buf srv) = DRONE_MAX_MSG_LEN"
  shows "\<exists>dgram. env_datagram e tr' = (peer, dgram) \<and>
           take len line = strip_suffix udp_ws (take (DRONE_MAX_MSG_LEN - 1) dgram) \<and>
           0 < len \<and> len < DRONE_MAX_MSG_LEN \<and> length line = DRONE_MAX_MSG_LEN \<and>
           line ! len = NUL \<and> us_recv_buf srv' = line \<and> us_fd srv' = us_fd srv"
proof -
  let ?tr1 = "tr @ [Net (Poll (us_fd srv) timeout)]"
  let ?tr2 = "?tr1 @ [Net (Recvfrom (us_fd srv) (DRONE_MAX_MSG_LEN - 1))]"
  obtain p dgram where d: "env_datagram e ?tr2 = (p, dgram)" by fastforce
  define data where "data = take (DRONE_MAX_MSG_LEN - 1) dgram"
  let ?data = data
  let ?buf = "(data @ drop (length data) (us_recv_buf srv))[length data := NUL]"
  obtain b n where s: "udp_strip ?buf (length data) = (b, n)" by fastforce
  have eqs: "tr' = ?tr2" "p = peer" "b = line" "n = len" "0 < len"
      "us_recv_buf srv' = line" "us_fd srv' = us_fd srv"
    using assms(1) d s unfolding udp_receive_def recvfrom_def
    by (auto simp: libc_def Let_def data_def split: if_splits)
  have dl: "length ?data < DRONE_MAX_MSG_LEN" by (simp add: data_def drone_limits)
  then have len: "length ?buf = DRONE_MAX_MSG_LEN" using assms(2) by simp
  then have le: "length ?data \<le> length ?buf" using dl by simp
  note sp = udp_strip_spec [OF le s]
  have tk: "take (length ?data) ?buf = ?data" by simp
  have "line ! len = NUL"
  proof (cases "n < length ?data")
    case True
    then show ?thesis using sp eqs by simp
  next
    case False
    then have "n = length ?data" using sp by simp
    moreover have "b ! length ?data = ?buf ! length ?data"
      using sp dl len by (intro drop_nth_eq) auto
    ultimately show ?thesis using eqs dl len by simp
  qed
  then show ?thesis using sp d eqs dl len tk data_def by auto
qed

text \<open>
  A poll that does not call back: nothing was ready, the receive failed, or the datagram holds only
  trailing white space.
\<close>

lemma udp_receive_None:
  assumes "udp_receive e timeout srv tr = (srv', None, tr')"
    and "length (us_recv_buf srv) = DRONE_MAX_MSG_LEN"
  shows "sends tr' = sends tr \<and> us_fd srv' = us_fd srv \<and>
         length (us_recv_buf srv') = DRONE_MAX_MSG_LEN"
  using assms unfolding udp_receive_def recvfrom_def
  by (auto simp: libc_def Let_def trace_simps drone_limits min_def
      split: if_splits option.splits prod.splits dest!: udp_strip_spec [rotated])

lemma udp_receive_sends:
  assumes "udp_receive e timeout srv tr = (srv', msg, tr')"
  shows "\<exists>evs. tr' = tr @ Net (Poll (us_fd srv) timeout) # evs \<and> us_fd srv' = us_fd srv \<and>
           sends (Net (Poll (us_fd srv) timeout) # evs) = [] \<and> (\<forall>ev \<in> set evs. \<not> fd_event ev)"
  using assms unfolding udp_receive_def recvfrom_def
  by (auto simp: libc_def Let_def trace_simps split: if_splits option.splits prod.splits)

section \<open>The contract of a message callback\<close>

text \<open>
  A callback keeps its invariant, only appends to the trace, opens and closes no descriptor, and sends
  at most one datagram, to the peer whose message it handles.
\<close>

locale udp_handler =
  fixes cb :: "sockaddr_in \<Rightarrow> string \<Rightarrow> nat \<Rightarrow> 's \<Rightarrow> trace \<Rightarrow> int \<times> 's \<times> trace"
    and inv :: "'s \<Rightarrow> bool"
  assumes cb_inv: "inv s \<Longrightarrow> cb p line len s tr = (r, s', tr') \<Longrightarrow> inv s'"
    and cb_sends: "inv s \<Longrightarrow> cb p line len s tr = (r, s', tr') \<Longrightarrow>
          \<exists>evs. tr' = tr @ evs \<and> length (sends evs) \<le> 1 \<and> (\<forall>x \<in> set (sends evs). fst (snd x) = p) \<and>
            (\<forall>ev \<in> set evs. \<not> fd_event ev)"
begin

lemma poll_step:
  assumes "inv s" and "udp_server_poll e cb t srv s tr = (srv', s', tr')"
  shows "inv s' \<and> us_fd srv' = us_fd srv \<and>
         (\<exists>evs. tr' = tr @ Net (Poll (us_fd srv) t) # evs \<and> (\<forall>ev \<in> set evs. \<not> fd_event ev) \<and>
           length (sends evs) \<le> 1 \<and>
           (sends evs \<noteq> [] \<longrightarrow>
              (\<exists>peer line len tr1. udp_receive e t srv tr = (srv', Some (peer, line, len), tr1) \<and>
                 fst (snd (hd (sends evs))) = peer)))"
proof -
  let ?p = "Net (Poll (us_fd srv) t)"
  obtain srv1 msg tr1 where rcv: "udp_receive e t srv tr = (srv1, msg, tr1)"
    by (cases "udp_receive e t srv tr") auto
  obtain evs1 where e1: "tr1 = tr @ ?p # evs1" "us_fd srv1 = us_fd srv" "sends (?p # evs1) = []"
      "\<forall>ev \<in> set evs1. \<not> fd_event ev"
    using udp_receive_sends [OF rcv] by blast
  have s1: "sends evs1 = []" using e1(3) by (simp add: sends_Cons)
  show ?thesis
  proof (cases msg)
    case None
    then show ?thesis using assms rcv e1 s1 by (auto simp: udp_server_poll_def)
  next
    case (Some m)
    obtain peer line len where m: "m = (peer, line, len)" by (cases m) auto
    obtain r s2 tr2 where c: "cb peer line len s tr1 = (r, s2, tr2)"
      by (cases "cb peer line len s tr1") auto
    have eq: "srv' = srv1" "s' = s2" "tr' = tr2"
      using assms(2) rcv Some m c by (auto simp: udp_server_poll_def)
    obtain evs2 where e2: "tr2 = tr1 @ evs2" "length (sends evs2) \<le> 1"
        "\<forall>x \<in> set (sends evs2). fst (snd x) = peer" "\<forall>ev \<in> set evs2. \<not> fd_event ev"
      using cb_sends [OF assms(1) c] by blast
    have "tr' = tr @ ?p # (evs1 @ evs2)" and s: "sends (evs1 @ evs2) = sends evs2"
      using eq e1 e2 s1 by (auto simp: trace_simps)
    moreover have "sends evs2 \<noteq> [] \<longrightarrow> fst (snd (hd (sends evs2))) = peer"
      using e2(3) by (cases "sends evs2") auto
    moreover have "\<forall>ev \<in> set (evs1 @ evs2). \<not> fd_event ev" using e1(4) e2(4) by auto
    ultimately show ?thesis
      using cb_inv [OF assms(1) c] e1(2) e2(2) eq rcv Some m s
      by (intro conjI exI [of _ "evs1 @ evs2"]) auto
  qed
qed

end

end
