(* ===== verification/Handler.thy ===== *)
theory Handler
  imports Rpc Udp_Server Drone_Ctrl_Api
begin

text \<open>
  \<^verbatim>\<open>core/handler/handler.c\<close>: the sixteen method handlers and the dispatcher \<^verbatim>\<open>handle_rpc\<close>, over any
  provider of the drone operations and any JSON library. The state holds the file-scope variables of
  the handler and the state of the provider.
\<close>

section \<open>State\<close>

record 'b handler_state =
  hs_bsp :: 'b
  g_srv :: "int option"
  g_started :: bool
  g_start :: timespec

definition handler_initial :: "'b \<Rightarrow> 'b handler_state" where
  "handler_initial b =
     \<lparr>hs_bsp = b, g_srv = None, g_started = False, g_start = \<lparr>tv_sec = 0, tv_nsec = 0\<rparr>\<rparr>"

definition handler_set_server :: "UdpServer \<Rightarrow> 'b handler_state \<Rightarrow> 'b handler_state" where
  "handler_set_server srv s = s\<lparr>g_srv := Some (us_fd srv)\<rparr>"

section \<open>Uptime\<close>

definition uptime_ms :: "env \<Rightarrow> 'b handler_state \<Rightarrow> trace \<Rightarrow> u64 \<times> 'b handler_state \<times> trace" where
  "uptime_ms e s tr =
     (let (s, tr) =
            (if \<not> g_started s
             then let (ts, tr) = clock_gettime e tr in (s\<lparr>g_start := ts, g_started := True\<rparr>, tr)
             else (s, tr));
          (now, tr) = clock_gettime e tr;
          sec = tv_sec now - tv_sec (g_start s);
          nsec = tv_nsec now - tv_nsec (g_start s);
          (sec, nsec) = (if nsec < 0 then (sec - 1, nsec + 1000000000) else (sec, nsec))
      in (word_of_int sec * 1000 + word_of_int nsec div 1000000, s, tr))"

section \<open>Replies\<close>

text \<open>The dereference of \<^verbatim>\<open>g_srv\<close> happens in \<^verbatim>\<open>udp_server_send\<close>.\<close>

definition send_buf :: "env \<Rightarrow> sockaddr_in \<Rightarrow> string \<times> nat \<Rightarrow> 'b handler_state \<Rightarrow> trace \<Rightarrow> trace" where
  "send_buf e peer bn s tr =
     (case bn of (buf, n) \<Rightarrow>
        if 0 < n
        then (case g_srv s of
                None \<Rightarrow> tr @ [UB Null_Deref]
              | Some fd \<Rightarrow> snd (udp_server_send e fd peer buf n tr))
        else tr)"

definition send_result ::
    "env \<Rightarrow> sockaddr_in \<Rightarrow> int \<Rightarrow> string option \<Rightarrow> 'b handler_state \<Rightarrow> trace \<Rightarrow> trace" where
  "send_result e peer i result_json s tr =
     send_buf e peer (rpc_build_result DRONE_MAX_MSG_LEN i result_json) s tr"

definition send_error ::
    "env \<Rightarrow> sockaddr_in \<Rightarrow> int \<Rightarrow> string \<Rightarrow> 'b handler_state \<Rightarrow> trace \<Rightarrow> trace" where
  "send_error e peer i msg s tr =
     send_buf e peer (rpc_build_error DRONE_MAX_MSG_LEN i msg) s tr"

section \<open>Reply bodies\<close>

definition jkey :: "string \<Rightarrow> string" where
  "jkey k = [DQ] @ k @ [DQ] @ '':''"

definition jbool :: "bool \<Rightarrow> string" where
  "jbool b = (if b then ''true'' else ''false'')"

definition ping_json :: "u64 \<Rightarrow> string" where
  "ping_json up = ''{'' @ jkey ''pong'' @ ''true,'' @ jkey ''uptime_ms'' @ fmt_u (uint up) @ ''}''"

definition telemetry_json :: "DroneTelemetry \<Rightarrow> string" where
  "telemetry_json t =
     ''{'' @
     jkey ''lat'' @ fmt_f 8 (t_lat t) @ '','' @ jkey ''lon'' @ fmt_f 8 (t_lon t) @ '','' @
     jkey ''alt_msl_m'' @ fmt_f 2 (t_alt_msl_m t) @ '','' @
     jkey ''alt_rel_m'' @ fmt_f 2 (t_alt_rel_m t) @ '','' @
     jkey ''vx_ms'' @ fmt_f 2 (t_vx_ms t) @ '','' @ jkey ''vy_ms'' @ fmt_f 2 (t_vy_ms t) @ '','' @
     jkey ''vz_ms'' @ fmt_f 2 (t_vz_ms t) @ '','' @
     jkey ''heading_deg'' @ fmt_f 1 (t_heading_deg t) @ '','' @
     jkey ''battery_pct'' @ fmt_u (uint (t_battery_pct t)) @ '','' @
     jkey ''battery_mv'' @ fmt_u (uint (t_battery_mv t)) @ '','' @
     jkey ''gps_sats'' @ fmt_u (uint (t_gps_sats t)) @ '','' @
     jkey ''gps_fix'' @ fmt_u (uint (t_gps_fix t)) @ '','' @
     jkey ''flight_status'' @ fmt_u (uint (t_flight_status t)) @ '','' @
     jkey ''motors_on'' @ jbool (t_motors_on t) @ ''}''"

definition battery_json :: "DroneBatteryInfo \<Rightarrow> string" where
  "battery_json b =
     ''{'' @ jkey ''voltage_mv'' @ fmt_u (uint (b_voltage_mv b)) @ '','' @
     jkey ''current_ma'' @ fmt_d (sint (b_current_ma b)) @ '','' @
     jkey ''remaining_pct'' @ fmt_u (uint (b_remaining_pct b)) @ '','' @
     jkey ''temperature_dc'' @ fmt_d (sint (b_temperature_dc b)) @ '','' @
     jkey ''cycle_count'' @ fmt_u (uint (b_cycle_count b)) @ ''}''"

definition gimbal_json :: "DroneGimbalAngle \<Rightarrow> string" where
  "gimbal_json g =
     ''{'' @ jkey ''pitch'' @ fmt_f 2 (pitch g) @ '','' @ jkey ''roll'' @ fmt_f 2 (roll g) @ '','' @
     jkey ''yaw'' @ fmt_f 2 (yaw g) @ ''}''"

definition camera_json :: "DroneCameraState \<Rightarrow> string" where
  "camera_json c =
     ''{'' @ jkey ''mode'' @ fmt_d (c_mode c) @ '','' @
     jkey ''is_recording'' @ jbool (c_is_recording c) @ '','' @
     jkey ''zoom_factor'' @ fmt_f 2 (c_zoom_factor c) @ ''}''"

definition rtk_json :: "DroneRtkStatus \<Rightarrow> string" where
  "rtk_json r =
     ''{'' @ jkey ''enabled'' @ jbool (r_enabled r) @ '','' @
     jkey ''fix_type'' @ fmt_u (uint (r_fix_type r)) @ '','' @
     jkey ''satellites'' @ fmt_u (uint (r_satellites r)) @ '','' @
     jkey ''lat'' @ fmt_f 8 (r_lat r) @ '','' @ jkey ''lon'' @ fmt_f 8 (r_lon r) @ '','' @
     jkey ''alt_m'' @ fmt_f 2 (r_alt_m r) @ ''}''"

definition uploaded_json :: "string \<Rightarrow> string \<Rightarrow> string" where
  "uploaded_json name path =
     ''{'' @ jkey ''uploaded'' @ ''true,'' @ jkey ''file'' @ [DQ] @ name @ [DQ] @ '','' @
     jkey ''path'' @ [DQ] @ path @ [DQ] @ ''}''"

section \<open>Method handlers\<close>

text \<open>Running one operation of the provider on its part of the state.\<close>

definition run_bsp ::
    "('b, 'r) bsp_op \<Rightarrow> 'b handler_state \<Rightarrow> trace \<Rightarrow> 'r \<times> 'b handler_state \<times> trace" where
  "run_bsp f s tr = (case f (hs_bsp s) tr of (r, b, tr) \<Rightarrow> (r, s\<lparr>hs_bsp := b\<rparr>, tr))"

type_synonym 'b handler_fun = "'b handler_state \<Rightarrow> trace \<Rightarrow> 'b handler_state \<times> trace"

definition h_system_ping :: "env \<Rightarrow> sockaddr_in \<Rightarrow> int \<Rightarrow> 'b handler_fun" where
  "h_system_ping e peer i s tr =
     (let (up, s, tr) = uptime_ms e s tr
      in (s, send_result e peer i (Some (snprintf_text 128 (ping_json up))) s tr))"

definition h_drone_get_telemetry :: "env \<Rightarrow> 'b drone_ops \<Rightarrow> sockaddr_in \<Rightarrow> int \<Rightarrow> 'b handler_fun" where
  "h_drone_get_telemetry e ops peer i s tr =
     (let (r, s, tr) = run_bsp (op_get_telemetry ops) s tr
      in case r of
           Inl err \<Rightarrow> (s, send_error e peer i ''failed to read telemetry'' s tr)
         | Inr t \<Rightarrow> (s, send_result e peer i (Some (snprintf_text 512 (telemetry_json t))) s tr))"

definition h_drone_get_battery_info :: "env \<Rightarrow> 'b drone_ops \<Rightarrow> sockaddr_in \<Rightarrow> int \<Rightarrow> 'b handler_fun" where
  "h_drone_get_battery_info e ops peer i s tr =
     (let (r, s, tr) = run_bsp (op_get_battery_info ops) s tr
      in case r of
           Inl err \<Rightarrow> (s, send_error e peer i ''failed to read battery info'' s tr)
         | Inr b \<Rightarrow> (s, send_result e peer i (Some (snprintf_text 256 (battery_json b))) s tr))"

definition h_drone_get_gimbal_angle :: "env \<Rightarrow> 'b drone_ops \<Rightarrow> sockaddr_in \<Rightarrow> int \<Rightarrow> 'b handler_fun" where
  "h_drone_get_gimbal_angle e ops peer i s tr =
     (let (r, s, tr) = run_bsp (op_get_gimbal_angle ops) s tr
      in case r of
           Inl err \<Rightarrow> (s, send_error e peer i ''failed to read gimbal angle'' s tr)
         | Inr g \<Rightarrow> (s, send_result e peer i (Some (snprintf_text 128 (gimbal_json g))) s tr))"

definition h_drone_get_camera_state :: "env \<Rightarrow> 'b drone_ops \<Rightarrow> sockaddr_in \<Rightarrow> int \<Rightarrow> 'b handler_fun" where
  "h_drone_get_camera_state e ops peer i s tr =
     (let (r, s, tr) = run_bsp (op_get_camera_state ops) s tr
      in case r of
           Inl err \<Rightarrow> (s, send_error e peer i ''failed to read camera state'' s tr)
         | Inr c \<Rightarrow> (s, send_result e peer i (Some (snprintf_text 128 (camera_json c))) s tr))"

definition h_drone_get_rtk_status :: "env \<Rightarrow> 'b drone_ops \<Rightarrow> sockaddr_in \<Rightarrow> int \<Rightarrow> 'b handler_fun" where
  "h_drone_get_rtk_status e ops peer i s tr =
     (let (r, s, tr) = run_bsp (op_get_rtk_status ops) s tr
      in case r of
           Inl err \<Rightarrow> (s, send_error e peer i ''failed to read RTK status'' s tr)
         | Inr k \<Rightarrow> (s, send_result e peer i (Some (snprintf_text 256 (rtk_json k))) s tr))"

definition h_drone_upload_kmz ::
    "env \<Rightarrow> 'b drone_ops \<Rightarrow> 'j json_lib \<Rightarrow> sockaddr_in \<Rightarrow> int \<Rightarrow> 'j option \<Rightarrow> 'b handler_fun" where
  "h_drone_upload_kmz e ops jl peer i params s tr =
     (case rpc_param_str jl params ''file'' of
        None \<Rightarrow> (s, send_error e peer i ''missing param: file'' s tr)
      | Some name \<Rightarrow>
          if name = [] then (s, send_error e peer i ''missing param: file'' s tr)
          else if strstr name ''..'' \<or> strchr name (CHR ''/'')
          then (s, send_error e peer i ''invalid file name'' s tr)
          else
            let path = snprintf_text PATH_MAX (KMZ_BASE_DIR @ ''/'' @ name);
                (err, s, tr) = run_bsp (op_upload_kmz ops (Some path)) s tr
            in
            if err \<noteq> DRONE_OK then (s, send_error e peer i ''kmz upload failed'' s tr)
            else (s, send_result e peer i
                       (Some (snprintf_text (PATH_MAX + 64) (uploaded_json name path))) s tr))"

text \<open>The common tail of the setters and actions: an error reply or an empty result.\<close>

definition reply_status ::
    "env \<Rightarrow> sockaddr_in \<Rightarrow> int \<Rightarrow> string \<Rightarrow> DroneError \<times> 'b handler_state \<times> trace \<Rightarrow>
      'b handler_state \<times> trace" where
  "reply_status e peer i msg r =
     (case r of (err, s, tr) \<Rightarrow>
        if err \<noteq> DRONE_OK then (s, send_error e peer i msg s tr)
        else (s, send_result e peer i None s tr))"

definition h_drone_set_rth_altitude ::
    "env \<Rightarrow> 'b drone_ops \<Rightarrow> 'j json_lib \<Rightarrow> sockaddr_in \<Rightarrow> int \<Rightarrow> 'j option \<Rightarrow> 'b handler_fun" where
  "h_drone_set_rth_altitude e ops jl peer i params s tr =
     (let alt_m = to_f32 (rpc_param_double jl params ''altitude_m'' (Fin True 1)) in
      if flt alt_m fzero then (s, send_error e peer i ''missing param: altitude_m'' s tr)
      else reply_status e peer i ''PSDK set rth altitude failed''
             (run_bsp (op_set_rth_altitude ops alt_m) s tr))"

definition h_drone_set_gimbal_angle ::
    "env \<Rightarrow> 'b drone_ops \<Rightarrow> 'j json_lib \<Rightarrow> sockaddr_in \<Rightarrow> int \<Rightarrow> 'j option \<Rightarrow> 'b handler_fun" where
  "h_drone_set_gimbal_angle e ops jl peer i params s tr =
     (let a = \<lparr>pitch = to_f32 (rpc_param_double jl params ''pitch'' fzero),
               roll = to_f32 (rpc_param_double jl params ''roll'' fzero),
               yaw = to_f32 (rpc_param_double jl params ''yaw'' fzero)\<rparr>
      in reply_status e peer i ''PSDK set gimbal angle failed''
           (run_bsp (op_set_gimbal_angle ops a) s tr))"

definition h_drone_set_camera_mode ::
    "env \<Rightarrow> 'b drone_ops \<Rightarrow> 'j json_lib \<Rightarrow> sockaddr_in \<Rightarrow> int \<Rightarrow> 'j option \<Rightarrow> 'b handler_fun" where
  "h_drone_set_camera_mode e ops jl peer i params s tr =
     (let mode = rpc_param_int jl params ''mode'' (-1) in
      if mode < 0 then (s, send_error e peer i ''missing param: mode (0=photo, 1=video)'' s tr)
      else reply_status e peer i ''PSDK set camera mode failed''
             (run_bsp (op_set_camera_mode ops mode) s tr))"

definition h_drone_set_camera_zoom ::
    "env \<Rightarrow> 'b drone_ops \<Rightarrow> 'j json_lib \<Rightarrow> sockaddr_in \<Rightarrow> int \<Rightarrow> 'j option \<Rightarrow> 'b handler_fun" where
  "h_drone_set_camera_zoom e ops jl peer i params s tr =
     (let zoom = to_f32 (rpc_param_double jl params ''zoom_factor'' (Fin True 1)) in
      if flt zoom (Fin False 1)
      then (s, send_error e peer i ''missing or invalid param: zoom_factor (>= 1.0)'' s tr)
      else reply_status e peer i ''PSDK set camera zoom failed''
             (run_bsp (op_set_camera_zoom ops zoom) s tr))"

definition h_drone_set_home_location ::
    "env \<Rightarrow> 'b drone_ops \<Rightarrow> 'j json_lib \<Rightarrow> sockaddr_in \<Rightarrow> int \<Rightarrow> 'j option \<Rightarrow> 'b handler_fun" where
  "h_drone_set_home_location e ops jl peer i params s tr =
     (let loc = \<lparr>h_lat = rpc_param_double jl params ''lat'' (Fin False 999),
                 h_lon = rpc_param_double jl params ''lon'' (Fin False 999),
                 h_alt_m = to_f32 (rpc_param_double jl params ''alt_m'' fzero)\<rparr>
      in
      if flt (Fin False 90) (h_lat loc) \<or> flt (h_lat loc) (Fin True 90) \<or>
         flt (Fin False 180) (h_lon loc) \<or> flt (h_lon loc) (Fin True 180)
      then (s, send_error e peer i ''missing or invalid params: lat, lon'' s tr)
      else reply_status e peer i ''PSDK set home location failed''
             (run_bsp (op_set_home_location ops loc) s tr))"

definition h_drone_set_obstacle_avoidance ::
    "env \<Rightarrow> 'b drone_ops \<Rightarrow> 'j json_lib \<Rightarrow> sockaddr_in \<Rightarrow> int \<Rightarrow> 'j option \<Rightarrow> 'b handler_fun" where
  "h_drone_set_obstacle_avoidance e ops jl peer i params s tr =
     (let mode = rpc_param_int jl params ''mode'' (-1) in
      if mode < 0 then (s, send_error e peer i ''missing param: mode (0=off, 1=on, 2=brake)'' s tr)
      else reply_status e peer i ''PSDK set obstacle avoidance failed''
             (run_bsp (op_set_obstacle_avoidance ops mode) s tr))"

definition h_drone_shoot_photo :: "env \<Rightarrow> 'b drone_ops \<Rightarrow> sockaddr_in \<Rightarrow> int \<Rightarrow> 'b handler_fun" where
  "h_drone_shoot_photo e ops peer i s tr =
     reply_status e peer i ''PSDK shoot photo failed'' (run_bsp (op_shoot_photo ops) s tr)"

definition h_drone_start_recording :: "env \<Rightarrow> 'b drone_ops \<Rightarrow> sockaddr_in \<Rightarrow> int \<Rightarrow> 'b handler_fun" where
  "h_drone_start_recording e ops peer i s tr =
     reply_status e peer i ''PSDK start recording failed'' (run_bsp (op_start_recording ops) s tr)"

definition h_drone_stop_recording :: "env \<Rightarrow> 'b drone_ops \<Rightarrow> sockaddr_in \<Rightarrow> int \<Rightarrow> 'b handler_fun" where
  "h_drone_stop_recording e ops peer i s tr =
     reply_status e peer i ''PSDK stop recording failed'' (run_bsp (op_stop_recording ops) s tr)"

section \<open>Dispatch\<close>

text \<open>The chain of comparisons on the method name.\<close>

definition dispatch ::
    "env \<Rightarrow> 'b drone_ops \<Rightarrow> 'j json_lib \<Rightarrow> sockaddr_in \<Rightarrow> string \<Rightarrow> int \<Rightarrow> 'j option \<Rightarrow>
      'b handler_fun" where
  "dispatch e ops jl peer m i p s tr =
     (if m = ''system.ping'' then h_system_ping e peer i s tr
      else if m = ''drone.get_telemetry'' then h_drone_get_telemetry e ops peer i s tr
      else if m = ''drone.get_battery_info'' then h_drone_get_battery_info e ops peer i s tr
      else if m = ''drone.get_gimbal_angle'' then h_drone_get_gimbal_angle e ops peer i s tr
      else if m = ''drone.get_camera_state'' then h_drone_get_camera_state e ops peer i s tr
      else if m = ''drone.get_rtk_status'' then h_drone_get_rtk_status e ops peer i s tr
      else if m = ''drone.upload_kmz'' then h_drone_upload_kmz e ops jl peer i p s tr
      else if m = ''drone.set_rth_altitude'' then h_drone_set_rth_altitude e ops jl peer i p s tr
      else if m = ''drone.set_gimbal_angle'' then h_drone_set_gimbal_angle e ops jl peer i p s tr
      else if m = ''drone.set_camera_mode'' then h_drone_set_camera_mode e ops jl peer i p s tr
      else if m = ''drone.set_camera_zoom'' then h_drone_set_camera_zoom e ops jl peer i p s tr
      else if m = ''drone.set_home_location'' then h_drone_set_home_location e ops jl peer i p s tr
      else if m = ''drone.set_obstacle_avoidance''
      then h_drone_set_obstacle_avoidance e ops jl peer i p s tr
      else if m = ''drone.shoot_photo'' then h_drone_shoot_photo e ops peer i s tr
      else if m = ''drone.start_recording'' then h_drone_start_recording e ops peer i s tr
      else if m = ''drone.stop_recording'' then h_drone_stop_recording e ops peer i s tr
      else (s, send_error e peer i ''method not found'' s tr))"

definition handle_rpc ::
    "env \<Rightarrow> 'b drone_ops \<Rightarrow> 'j json_lib \<Rightarrow> sockaddr_in \<Rightarrow> string \<Rightarrow> nat \<Rightarrow> 'b handler_state \<Rightarrow>
      trace \<Rightarrow> int \<times> 'b handler_state \<times> trace" where
  "handle_rpc e ops jl peer line len s tr =
     (let ((rc, req), jops) = rpc_parse jl line;
          tr = tr @ map Json jops
      in
      if rc \<noteq> 0 then (0, s, tr) else
      let (s, tr) = dispatch e ops jl peer (req_method req) (req_id req) (req_params req) s tr;
          (req, jops) = rpc_request_free req;
          tr = tr @ map Json jops
      in (0, s, tr))"

end
