(* ===== verification/Handler_Replies.thy ===== *)
theory Handler_Replies
  imports Handler
begin

text \<open>
  What the handlers put on the wire, for every provider that keeps the contract \<open>drone_bsp\<close>: a
  request that parses is answered exactly once, to its sender and under its own id, and a line that
  does not parse is dropped.
\<close>

section \<open>What a reply puts on the trace\<close>

text \<open>
  The event caused by sending a reply text through the 4096-byte buffer: the datagram, or the
  undefined behaviour when no server is set or the text is longer than the buffer.
\<close>

definition reply_event :: "int option \<Rightarrow> sockaddr_in \<Rightarrow> string \<Rightarrow> ev" where
  "reply_event srv peer text =
     (case srv of
        None \<Rightarrow> UB Null_Deref
      | Some fd \<Rightarrow>
          (case read_bytes (fst (snprintf DRONE_MAX_MSG_LEN text)) (length text) of
             None \<Rightarrow> UB (Over_Read (length text) DRONE_MAX_MSG_LEN)
           | Some bytes \<Rightarrow> Net (Sendto fd peer bytes)))"

definition result_body :: "string option \<Rightarrow> string" where
  "result_body r = (case r of None \<Rightarrow> ''{}'' | Some b \<Rightarrow> if b = [] then ''{}'' else b)"

definition is_reply :: "int \<Rightarrow> string \<Rightarrow> bool" where
  "is_reply i text \<longleftrightarrow> (\<exists>b. text = result_text i b) \<or> (\<exists>m. text = error_text i m)"

lemma length_snprintf_cut:
  "0 < sz \<Longrightarrow> sz \<le> length s \<Longrightarrow> length (fst (snprintf sz s)) = sz"
  by (simp add: snprintf_def)

lemma send_buf_snprintf:
  assumes "text \<noteq> []"
  shows "send_buf e peer (snprintf DRONE_MAX_MSG_LEN text) s tr = tr @ [reply_event (g_srv s) peer text]"
proof -
  obtain buf n where bn: "snprintf DRONE_MAX_MSG_LEN text = (buf, n)" by fastforce
  have n: "n = length text" using bn by (simp add: snprintf_def)
  have "length buf = DRONE_MAX_MSG_LEN" if "read_bytes buf n = None"
    using that bn n by (auto simp: read_bytes_def snprintf_def drone_limits split: if_splits)
  then show ?thesis using assms bn n
    by (auto simp: send_buf_def reply_event_def udp_server_send_def libc_def Let_def
        split: option.split)
qed

lemma send_result_event:
  "send_result e peer i r s tr = tr @ [reply_event (g_srv s) peer (result_text i (result_body r))]"
proof -
  have "rpc_build_result DRONE_MAX_MSG_LEN i r = snprintf DRONE_MAX_MSG_LEN (result_text i (result_body r))"
    by (simp add: rpc_build_result_def result_body_def Let_def)
  moreover have "result_text i (result_body r) \<noteq> []" by (simp add: result_text_def)
  ultimately show ?thesis by (simp add: send_result_def send_buf_snprintf)
qed

lemma send_error_event:
  "send_error e peer i msg s tr = tr @ [reply_event (g_srv s) peer (error_text i msg)]"
  by (simp add: send_error_def rpc_build_error_def send_buf_snprintf error_text_def)

lemmas send_events = send_result_event send_error_event

lemma reply_event_fits:
  "length text < DRONE_MAX_MSG_LEN \<Longrightarrow> reply_event (Some fd) peer text = Net (Sendto fd peer text)"
  by (simp add: reply_event_def read_snprintf_fits)

lemma reply_event_over:
  "DRONE_MAX_MSG_LEN < length text \<Longrightarrow>
     reply_event (Some fd) peer text = UB (Over_Read (length text) DRONE_MAX_MSG_LEN)"
  by (simp add: reply_event_def read_snprintf_over drone_limits)

lemma sends_reply_event:
  "length (sends [reply_event srv peer text]) \<le> 1 \<and>
   (\<forall>x \<in> set (sends [reply_event srv peer text]). fst (snd x) = peer)"
  by (auto simp: reply_event_def trace_simps split: option.split)

lemma sends_no_bsp: "\<forall>ev \<in> set evs. bsp_ev ev \<Longrightarrow> sends evs = []"
  using bsp_ev_not_net by (intro sends_no_net) blast

lemma reply_event_not_fd: "\<not> fd_event (reply_event srv peer text)"
  by (simp add: reply_event_def split: option.split)

lemma bsp_ev_not_fd: "bsp_ev ev \<Longrightarrow> \<not> fd_event ev"
  using fd_event_net bsp_ev_not_net by blast

section \<open>Handlers over a provider that keeps the contract\<close>

definition reply_step :: "('b \<Rightarrow> bool) \<Rightarrow> sockaddr_in \<Rightarrow> int \<Rightarrow> 'b handler_fun \<Rightarrow> bool" where
  "reply_step I peer i h \<longleftrightarrow>
     (\<forall>s tr s' tr'. I (hs_bsp s) \<longrightarrow> h s tr = (s', tr') \<longrightarrow>
        I (hs_bsp s') \<and> g_srv s' = g_srv s \<and>
        (\<exists>evs text. tr' = tr @ evs @ [reply_event (g_srv s) peer text] \<and>
           (\<forall>ev \<in> set evs. bsp_ev ev) \<and> is_reply i text))"

lemma reply_stepI:
  assumes "\<And>s tr s' tr'. I (hs_bsp s) \<Longrightarrow> h s tr = (s', tr') \<Longrightarrow>
     I (hs_bsp s') \<and> g_srv s' = g_srv s \<and>
     (\<exists>evs text. tr' = tr @ evs @ [reply_event (g_srv s) peer text] \<and>
        (\<forall>ev \<in> set evs. bsp_ev ev) \<and> is_reply i text)"
  shows "reply_step I peer i h"
  using assms unfolding reply_step_def by blast

lemma run_bspE:
  assumes "bsp_step I f" and "I (hs_bsp s)" and "run_bsp f s tr = (r, s', tr')"
  obtains evs where "I (hs_bsp s')" and "g_srv s' = g_srv s" and "tr' = tr @ evs"
    and "\<forall>ev \<in> set evs. bsp_ev ev"
proof -
  obtain r1 b tr1 where f: "f (hs_bsp s) tr = (r1, b, tr1)" by (cases "f (hs_bsp s) tr") auto
  obtain evs where "I b" "tr1 = tr @ evs" "\<forall>ev \<in> set evs. bsp_ev ev"
    using bsp_stepE [OF assms(1,2) f] by blast
  moreover have "s' = s\<lparr>hs_bsp := b\<rparr>" "tr' = tr1" using assms(3) f by (auto simp: run_bsp_def)
  ultimately show ?thesis using that by auto
qed

lemma reply_step_error: "reply_step I peer i (\<lambda>s tr. (s, send_error e peer i msg s tr))"
proof (rule reply_stepI)
  fix s tr s' tr'
  assume "I (hs_bsp s)" and "(s, send_error e peer i msg s tr) = (s', tr')"
  then have "tr' = tr @ [] @ [reply_event (g_srv s) peer (error_text i msg)]" and "s' = s"
    by (auto simp: send_events)
  then show "I (hs_bsp s') \<and> g_srv s' = g_srv s \<and>
     (\<exists>evs text. tr' = tr @ evs @ [reply_event (g_srv s) peer text] \<and>
        (\<forall>ev \<in> set evs. bsp_ev ev) \<and> is_reply i text)"
    using \<open>I (hs_bsp s)\<close> by (fastforce simp: is_reply_def)
qed

lemma reply_step_if:
  "(c \<Longrightarrow> reply_step I peer i h1) \<Longrightarrow> (\<not> c \<Longrightarrow> reply_step I peer i h2) \<Longrightarrow>
     reply_step I peer i (\<lambda>s tr. if c then h1 s tr else h2 s tr)"
  by (cases c) simp_all

lemma reply_step_get:
  assumes "bsp_step I f"
  shows "reply_step I peer i
     (\<lambda>s tr. let (r, s, tr) = run_bsp f s tr
             in case r of Inl err \<Rightarrow> (s, send_error e peer i msg s tr)
                        | Inr x \<Rightarrow> (s, send_result e peer i (Some (body x)) s tr))"
proof (rule reply_stepI)
  fix s tr s' tr'
  assume I: "I (hs_bsp s)"
    and run: "(let (r, s, tr) = run_bsp f s tr
             in case r of Inl err \<Rightarrow> (s, send_error e peer i msg s tr)
                        | Inr x \<Rightarrow> (s, send_result e peer i (Some (body x)) s tr)) = (s', tr')"
  obtain r s1 tr1 where b: "run_bsp f s tr = (r, s1, tr1)" by (cases "run_bsp f s tr") auto
  obtain evs where "I (hs_bsp s1)" "g_srv s1 = g_srv s" "tr1 = tr @ evs" "\<forall>ev \<in> set evs. bsp_ev ev"
    using run_bspE [OF assms I b] .
  then show "I (hs_bsp s') \<and> g_srv s' = g_srv s \<and>
     (\<exists>evs text. tr' = tr @ evs @ [reply_event (g_srv s) peer text] \<and>
        (\<forall>ev \<in> set evs. bsp_ev ev) \<and> is_reply i text)"
    using run b by (auto simp: send_events is_reply_def split: sum.splits)
qed

lemma reply_step_act:
  assumes "bsp_step I f"
  shows "reply_step I peer i
     (\<lambda>s tr. let (err, s, tr) = run_bsp f s tr
             in if err \<noteq> DRONE_OK then (s, send_error e peer i msg s tr)
                else (s, send_result e peer i body s tr))"
proof (rule reply_stepI)
  fix s tr s' tr'
  assume I: "I (hs_bsp s)"
    and run: "(let (err, s, tr) = run_bsp f s tr
             in if err \<noteq> DRONE_OK then (s, send_error e peer i msg s tr)
                else (s, send_result e peer i body s tr)) = (s', tr')"
  obtain r s1 tr1 where b: "run_bsp f s tr = (r, s1, tr1)" by (cases "run_bsp f s tr") auto
  obtain evs where "I (hs_bsp s1)" "g_srv s1 = g_srv s" "tr1 = tr @ evs" "\<forall>ev \<in> set evs. bsp_ev ev"
    using run_bspE [OF assms I b] .
  then show "I (hs_bsp s') \<and> g_srv s' = g_srv s \<and>
     (\<exists>evs text. tr' = tr @ evs @ [reply_event (g_srv s) peer text] \<and>
        (\<forall>ev \<in> set evs. bsp_ev ev) \<and> is_reply i text)"
    using run b by (auto simp: send_events is_reply_def split: if_splits)
qed

lemma reply_step_status:
  "bsp_step I f \<Longrightarrow> reply_step I peer i (\<lambda>s tr. reply_status e peer i msg (run_bsp f s tr))"
  unfolding reply_status_def by (rule reply_step_act [unfolded Let_def])

lemma uptime_ms_frame:
  "uptime_ms e s tr = (up, s', tr') \<Longrightarrow>
     hs_bsp s' = hs_bsp s \<and> g_srv s' = g_srv s \<and>
     (\<exists>evs. tr' = tr @ evs \<and> (\<forall>ev \<in> set evs. bsp_ev ev))"
  by (auto simp: uptime_ms_def clock_gettime_def Let_def split: if_splits)

lemma in_range_param:
  "json_lib_ok jl \<Longrightarrow> in_range f64 d \<Longrightarrow> in_range f32 (to_f32 (rpc_param_double jl p k d))"
  by (rule in_range_to_f32 [of f64])
     (auto simp: rpc_param_double_def json_lib_ok_def split: option.split)

lemma param_int_bounds:
  "json_lib_ok jl \<Longrightarrow> rpc_param_int jl p k (-1) < 2 ^ 31"
  by (auto simp: rpc_param_int_def json_lib_ok_def split: option.split)

lemma in_range_default: "in_range f64 (Fin s 0)" "in_range f64 (Fin s 1)"
  by (simp_all add: in_range_def f64_def pow2_def)

context drone_bsp
begin

lemma reply_h_system_ping: "reply_step I peer i (h_system_ping e peer i)"
  by (rule reply_stepI)
     (fastforce simp: h_system_ping_def send_events is_reply_def Let_def split: prod.splits
       dest: uptime_ms_frame)

lemma reply_getters:
  "reply_step I peer i (h_drone_get_telemetry e ops peer i)"
  "reply_step I peer i (h_drone_get_battery_info e ops peer i)"
  "reply_step I peer i (h_drone_get_gimbal_angle e ops peer i)"
  "reply_step I peer i (h_drone_get_camera_state e ops peer i)"
  "reply_step I peer i (h_drone_get_rtk_status e ops peer i)"
  unfolding h_drone_get_telemetry_def [abs_def] h_drone_get_battery_info_def [abs_def]
    h_drone_get_gimbal_angle_def [abs_def] h_drone_get_camera_state_def [abs_def]
    h_drone_get_rtk_status_def [abs_def]
  by (rule reply_step_get [OF get_telemetry] reply_step_get [OF get_battery_info]
      reply_step_get [OF get_gimbal_angle] reply_step_get [OF get_camera_state]
      reply_step_get [OF get_rtk_status])+

lemma reply_actions:
  "reply_step I peer i (h_drone_shoot_photo e ops peer i)"
  "reply_step I peer i (h_drone_start_recording e ops peer i)"
  "reply_step I peer i (h_drone_stop_recording e ops peer i)"
  unfolding h_drone_shoot_photo_def [abs_def] h_drone_start_recording_def [abs_def]
    h_drone_stop_recording_def [abs_def]
  by (rule reply_step_status shoot_photo start_recording stop_recording)+

lemma reply_setters:
  assumes "json_lib_ok jl"
  shows "reply_step I peer i (h_drone_set_rth_altitude e ops jl peer i p)"
    and "reply_step I peer i (h_drone_set_gimbal_angle e ops jl peer i p)"
    and "reply_step I peer i (h_drone_set_camera_mode e ops jl peer i p)"
    and "reply_step I peer i (h_drone_set_camera_zoom e ops jl peer i p)"
    and "reply_step I peer i (h_drone_set_home_location e ops jl peer i p)"
    and "reply_step I peer i (h_drone_set_obstacle_avoidance e ops jl peer i p)"
  unfolding h_drone_set_rth_altitude_def [abs_def] h_drone_set_gimbal_angle_def [abs_def]
    h_drone_set_camera_mode_def [abs_def] h_drone_set_camera_zoom_def [abs_def]
    h_drone_set_home_location_def [abs_def] h_drone_set_obstacle_avoidance_def [abs_def] Let_def
  using in_range_param [OF assms] in_range_default param_int_bounds [OF assms]
  by (auto simp: gimbal_ok_def
      intro!: reply_step_if reply_step_error reply_step_status set_rth_altitude set_gimbal_angle set_camera_mode set_camera_zoom
        set_home_location set_obstacle_avoidance)

lemma reply_upload: "reply_step I peer i (h_drone_upload_kmz e ops jl peer i p)"
proof (cases "rpc_param_str jl p ''file''")
  case None
  then show ?thesis unfolding h_drone_upload_kmz_def [abs_def] by (simp add: reply_step_error)
next
  case (Some name)
  note nn = rpc_param_str_no_NUL [OF Some]
  have act: "\<not> strstr name ''..'' \<Longrightarrow> \<not> strchr name (CHR ''/'') \<Longrightarrow> name \<noteq> [] \<Longrightarrow>
      kmz_path (snprintf_text PATH_MAX (KMZ_BASE_DIR @ ''/'' @ name))"
    using nn unfolding kmz_path_def by blast
  from Some show ?thesis unfolding h_drone_upload_kmz_def [abs_def] Let_def
    by (auto intro!: reply_step_if reply_step_error reply_step_act [OF upload_kmz, unfolded Let_def] act)
qed

lemma reply_dispatch:
  assumes "json_lib_ok jl"
  shows "reply_step I peer i (dispatch e ops jl peer m i p)"
  unfolding dispatch_def [abs_def]
  by (intro reply_step_if reply_h_system_ping reply_getters reply_actions reply_setters [OF assms]
      reply_upload reply_step_error)

lemma handle_rpc_parsed:
  assumes json: "json_lib_ok jl" and I: "I (hs_bsp s)"
    and ok: "rpc_parse jl line = ((0, req), jops)"
    and run: "handle_rpc e ops jl peer line len s tr = (r, s', tr')"
  shows "I (hs_bsp s') \<and> g_srv s' = g_srv s \<and>
    (\<exists>evs text. tr' = tr @ map Json jops @ evs @ [reply_event (g_srv s) peer text, Json Root_Put] \<and>
       (\<forall>ev \<in> set evs. bsp_ev ev) \<and> is_reply (req_id req) text)"
proof -
  let ?d = "dispatch e ops jl peer (req_method req) (req_id req) (req_params req) s (tr @ map Json jops)"
  obtain s1 tr1 where d: "?d = (s1, tr1)" by fastforce
  have "req_root req \<noteq> None" using ok rpc_parse_ok_root [of jl line] by simp
  then have "snd (rpc_request_free req) = [Root_Put]" by (auto simp: rpc_request_free_def)
  then have eq: "s' = s1" "tr' = tr1 @ [Json Root_Put]"
    using run ok d by (auto simp: handle_rpc_def Let_def split: prod.splits)
  have "I (hs_bsp s1) \<and> g_srv s1 = g_srv s \<and>
     (\<exists>evs text. tr1 = (tr @ map Json jops) @ evs @ [reply_event (g_srv s) peer text] \<and>
        (\<forall>ev \<in> set evs. bsp_ev ev) \<and> is_reply (req_id req) text)"
    using reply_dispatch [OF json] I d unfolding reply_step_def by blast
  then show ?thesis using eq by auto
qed

lemma handle_rpc_contract:
  assumes "json_lib_ok jl \<and> I (hs_bsp s)" and "handle_rpc e ops jl peer line len s tr = (r, s', tr')"
  shows "json_lib_ok jl \<and> I (hs_bsp s')"
    and "\<exists>evs. tr' = tr @ evs \<and> length (sends evs) \<le> 1 \<and> (\<forall>x \<in> set (sends evs). fst (snd x) = peer) \<and>
           (\<forall>ev \<in> set evs. \<not> fd_event ev)"
proof -
  obtain rc req jops where p: "rpc_parse jl line = ((rc, req), jops)"
    by (cases "rpc_parse jl line") auto
  have nj: "sends (map Json jops) = []" by (rule sends_no_net) auto
  have "(json_lib_ok jl \<and> I (hs_bsp s')) \<and>
    (\<exists>evs. tr' = tr @ evs \<and> length (sends evs) \<le> 1 \<and> (\<forall>x \<in> set (sends evs). fst (snd x) = peer) \<and>
       (\<forall>ev \<in> set evs. \<not> fd_event ev))"
  proof (cases "rc = 0")
    case True
    then obtain evs body where
        "tr' = tr @ map Json jops @ evs @ [reply_event (g_srv s) peer body, Json Root_Put]"
        and nn: "\<forall>ev \<in> set evs. bsp_ev ev" and "I (hs_bsp s')"
      using handle_rpc_parsed [of jl s line req jops e peer len tr r s' tr'] assms p by auto
    moreover have "sends (map Json jops @ evs @ [reply_event (g_srv s) peer body, Json Root_Put]) =
        sends [reply_event (g_srv s) peer body]"
      using nj sends_no_bsp [OF nn] sends_append [of "[reply_event (g_srv s) peer body]" "[Json Root_Put]"]
      by (simp add: sends_append sends_no_net [of "[Json Root_Put]"])
    moreover have "\<forall>ev \<in> set (map Json jops @ evs @ [reply_event (g_srv s) peer body, Json Root_Put]).
        \<not> fd_event ev"
      using nn bsp_ev_not_fd reply_event_not_fd by auto
    ultimately show ?thesis using assms(1) sends_reply_event by metis
  next
    case False
    then have "s' = s" "tr' = tr @ map Json jops"
      using assms(2) p by (auto simp: handle_rpc_def Let_def)
    then show ?thesis using assms(1) nj by auto
  qed
  then show "json_lib_ok jl \<and> I (hs_bsp s')"
    and "\<exists>evs. tr' = tr @ evs \<and> length (sends evs) \<le> 1 \<and> (\<forall>x \<in> set (sends evs). fst (snd x) = peer) \<and>
           (\<forall>ev \<in> set evs. \<not> fd_event ev)"
    by blast+
qed

end

lemma handle_rpc_rejected:
  assumes "fst (fst (rpc_parse jl line)) \<noteq> 0"
  shows "handle_rpc e ops jl peer line len s tr = (0, s, tr @ map Json (snd (rpc_parse jl line)))"
  using assms by (auto simp: handle_rpc_def Let_def split: prod.splits)

lemma handle_rpc_zero: "fst (handle_rpc e ops jl peer line len s tr) = 0"
  by (simp add: handle_rpc_def Let_def split: prod.split)

end
