(* ===== verification/Handler_Spec.thy ===== *)
theory Handler_Spec
  imports Handler_Replies
begin

text \<open>
  The RPC service seen from its clients, without buffers: a method name and its parameters are read
  as an action or refused, the action is carried out on the provider, and the reply is a result or an
  error of any length. The handlers refine this service whenever the reply survives the fixed-size
  buffers it is formatted in; the second half bounds the replies against these buffers.
\<close>

section \<open>The abstract service\<close>

datatype rpc_method =
    Ping | Get_Telemetry | Get_Battery_Info | Get_Gimbal_Angle | Get_Camera_State | Get_Rtk_Status
  | Upload_Kmz | Set_Rth_Altitude | Set_Gimbal_Angle | Set_Camera_Mode | Set_Camera_Zoom
  | Set_Home_Location | Set_Obstacle_Avoidance | Shoot_Photo | Start_Recording | Stop_Recording

definition method_table :: "(string \<times> rpc_method) list" where
  "method_table =
     [(''system.ping'', Ping),
      (''drone.get_telemetry'', Get_Telemetry), (''drone.get_battery_info'', Get_Battery_Info),
      (''drone.get_gimbal_angle'', Get_Gimbal_Angle), (''drone.get_camera_state'', Get_Camera_State),
      (''drone.get_rtk_status'', Get_Rtk_Status),
      (''drone.set_rth_altitude'', Set_Rth_Altitude), (''drone.set_gimbal_angle'', Set_Gimbal_Angle),
      (''drone.set_camera_mode'', Set_Camera_Mode), (''drone.set_camera_zoom'', Set_Camera_Zoom),
      (''drone.set_home_location'', Set_Home_Location),
      (''drone.set_obstacle_avoidance'', Set_Obstacle_Avoidance),
      (''drone.shoot_photo'', Shoot_Photo), (''drone.start_recording'', Start_Recording),
      (''drone.stop_recording'', Stop_Recording), (''drone.upload_kmz'', Upload_Kmz)]"

datatype rpc_reply = Result string | Error string

fun reply_text :: "int \<Rightarrow> rpc_reply \<Rightarrow> string" where
  "reply_text i (Result b) = result_text i b"
| "reply_text i (Error m) = error_text i m"

text \<open>A request read from its parameters: what the method is asked to do, or why it is refused.\<close>

datatype rpc_action =
    Do_Ping | Do_Get rpc_method | Do_Upload string | Do_Rth fp | Do_Gimbal DroneGimbalAngle
  | Do_Camera_Mode int | Do_Zoom fp | Do_Home DroneHomeLocation | Do_Avoidance int
  | Do_Simple rpc_method | Refuse string

definition refuse_if :: "bool \<Rightarrow> string \<Rightarrow> rpc_action \<Rightarrow> rpc_action" where
  "refuse_if c msg a = (if c then Refuse msg else a)"

fun decode :: "'j json_lib \<Rightarrow> 'j option \<Rightarrow> rpc_method \<Rightarrow> rpc_action" where
  "decode jl p Ping = Do_Ping"
| "decode jl p Upload_Kmz =
     (case rpc_param_str jl p ''file'' of
        None \<Rightarrow> Refuse ''missing param: file''
      | Some n \<Rightarrow> refuse_if (n = []) ''missing param: file''
                   (refuse_if (strstr n ''..'' \<or> strchr n (CHR ''/'')) ''invalid file name''
                     (Do_Upload n)))"
| "decode jl p Set_Rth_Altitude =
     (let x = to_f32 (rpc_param_double jl p ''altitude_m'' (Fin True 1))
      in refuse_if (flt x fzero) ''missing param: altitude_m'' (Do_Rth x))"
| "decode jl p Set_Gimbal_Angle =
     Do_Gimbal \<lparr>pitch = to_f32 (rpc_param_double jl p ''pitch'' fzero),
                roll = to_f32 (rpc_param_double jl p ''roll'' fzero),
                yaw = to_f32 (rpc_param_double jl p ''yaw'' fzero)\<rparr>"
| "decode jl p Set_Camera_Mode =
     (let m = rpc_param_int jl p ''mode'' (-1)
      in refuse_if (m < 0) ''missing param: mode (0=photo, 1=video)'' (Do_Camera_Mode m))"
| "decode jl p Set_Camera_Zoom =
     (let z = to_f32 (rpc_param_double jl p ''zoom_factor'' (Fin True 1))
      in refuse_if (flt z (Fin False 1)) ''missing or invalid param: zoom_factor (>= 1.0)'' (Do_Zoom z))"
| "decode jl p Set_Home_Location =
     (let l = \<lparr>h_lat = rpc_param_double jl p ''lat'' (Fin False 999),
               h_lon = rpc_param_double jl p ''lon'' (Fin False 999),
               h_alt_m = to_f32 (rpc_param_double jl p ''alt_m'' fzero)\<rparr>
      in refuse_if (flt (Fin False 90) (h_lat l) \<or> flt (h_lat l) (Fin True 90) \<or>
                    flt (Fin False 180) (h_lon l) \<or> flt (h_lon l) (Fin True 180))
           ''missing or invalid params: lat, lon'' (Do_Home l))"
| "decode jl p Set_Obstacle_Avoidance =
     (let m = rpc_param_int jl p ''mode'' (-1)
      in refuse_if (m < 0) ''missing param: mode (0=off, 1=on, 2=brake)'' (Do_Avoidance m))"
| "decode jl p Shoot_Photo = Do_Simple Shoot_Photo"
| "decode jl p Start_Recording = Do_Simple Start_Recording"
| "decode jl p Stop_Recording = Do_Simple Stop_Recording"
| "decode jl p m = Do_Get m"

text \<open>Carrying an action out on the provider, with replies of any length.\<close>

definition status_reply :: "string \<Rightarrow> string \<Rightarrow> DroneError \<Rightarrow> rpc_reply" where
  "status_reply body msg err = (if err = DRONE_OK then Result body else Error msg)"

definition value_reply :: "string \<Rightarrow> ('x \<Rightarrow> string) \<Rightarrow> DroneError + 'x \<Rightarrow> rpc_reply" where
  "value_reply msg body r = (case r of Inl _ \<Rightarrow> Error msg | Inr x \<Rightarrow> Result (body x))"

definition act :: "('r \<Rightarrow> rpc_reply) \<Rightarrow> ('b, 'r) bsp_op \<Rightarrow> 'b handler_state \<Rightarrow> trace \<Rightarrow>
    rpc_reply \<times> 'b handler_state \<times> trace" where
  "act g f s tr = (case run_bsp f s tr of (r, s, tr) \<Rightarrow> (g r, s, tr))"

fun perform ::
    "env \<Rightarrow> 'b drone_ops \<Rightarrow> rpc_action \<Rightarrow> 'b handler_state \<Rightarrow> trace \<Rightarrow>
      rpc_reply \<times> 'b handler_state \<times> trace" where
  "perform e ops Do_Ping s tr = (case uptime_ms e s tr of (up, s, tr) \<Rightarrow> (Result (ping_json up), s, tr))"
| "perform e ops (Do_Get m) s tr =
     (if m = Get_Telemetry
      then act (value_reply ''failed to read telemetry'' telemetry_json) (op_get_telemetry ops) s tr
      else if m = Get_Battery_Info
      then act (value_reply ''failed to read battery info'' battery_json) (op_get_battery_info ops) s tr
      else if m = Get_Gimbal_Angle
      then act (value_reply ''failed to read gimbal angle'' gimbal_json) (op_get_gimbal_angle ops) s tr
      else if m = Get_Camera_State
      then act (value_reply ''failed to read camera state'' camera_json) (op_get_camera_state ops) s tr
      else act (value_reply ''failed to read RTK status'' rtk_json) (op_get_rtk_status ops) s tr)"
| "perform e ops (Do_Upload n) s tr =
     (let path = KMZ_BASE_DIR @ ''/'' @ n
      in act (status_reply (uploaded_json n path) ''kmz upload failed'') (op_upload_kmz ops (Some path)) s tr)"
| "perform e ops (Do_Rth x) s tr =
     act (status_reply ''{}'' ''PSDK set rth altitude failed'') (op_set_rth_altitude ops x) s tr"
| "perform e ops (Do_Gimbal a) s tr =
     act (status_reply ''{}'' ''PSDK set gimbal angle failed'') (op_set_gimbal_angle ops a) s tr"
| "perform e ops (Do_Camera_Mode m) s tr =
     act (status_reply ''{}'' ''PSDK set camera mode failed'') (op_set_camera_mode ops m) s tr"
| "perform e ops (Do_Zoom z) s tr =
     act (status_reply ''{}'' ''PSDK set camera zoom failed'') (op_set_camera_zoom ops z) s tr"
| "perform e ops (Do_Home l) s tr =
     act (status_reply ''{}'' ''PSDK set home location failed'') (op_set_home_location ops l) s tr"
| "perform e ops (Do_Avoidance m) s tr =
     act (status_reply ''{}'' ''PSDK set obstacle avoidance failed'') (op_set_obstacle_avoidance ops m) s tr"
| "perform e ops (Do_Simple m) s tr =
     (if m = Shoot_Photo
      then act (status_reply ''{}'' ''PSDK shoot photo failed'') (op_shoot_photo ops) s tr
      else if m = Start_Recording
      then act (status_reply ''{}'' ''PSDK start recording failed'') (op_start_recording ops) s tr
      else act (status_reply ''{}'' ''PSDK stop recording failed'') (op_stop_recording ops) s tr)"
| "perform e ops (Refuse msg) s tr = (Error msg, s, tr)"

definition action_of :: "'j json_lib \<Rightarrow> string \<Rightarrow> 'j option \<Rightarrow> rpc_action" where
  "action_of jl m p =
     (case map_of method_table m of None \<Rightarrow> Refuse ''method not found'' | Some k \<Rightarrow> decode jl p k)"

section \<open>The buffers of the handlers\<close>

text \<open>Size of the result buffer of a method, and that a reply survives it and the path buffer.\<close>

fun result_buf :: "rpc_action \<Rightarrow> nat" where
  "result_buf Do_Ping = 128"
| "result_buf (Do_Get m) =
     (if m = Get_Telemetry then 512 else if m = Get_Battery_Info then 256
      else if m = Get_Gimbal_Angle then 128 else if m = Get_Camera_State then 128 else 256)"
| "result_buf (Do_Upload n) = PATH_MAX + 64"
| "result_buf _ = DRONE_MAX_MSG_LEN"

definition fits :: "rpc_action \<Rightarrow> rpc_reply \<Rightarrow> bool" where
  "fits a r \<longleftrightarrow>
     (case r of Error _ \<Rightarrow> True | Result b \<Rightarrow> b \<noteq> [] \<and> NUL \<notin> set b \<and> length b < result_buf a) \<and>
     (case a of Do_Upload n \<Rightarrow> NUL \<notin> set n \<and> length KMZ_BASE_DIR + 1 + length n < PATH_MAX | _ \<Rightarrow> True)"

lemma snprintf_body:
  "b \<noteq> [] \<Longrightarrow> NUL \<notin> set b \<Longrightarrow> length b < sz \<Longrightarrow> result_body (Some (snprintf_text sz b)) = b"
  by (simp add: snprintf_text_fits result_body_def)

lemma KMZ_BASE_DIR_no_NUL: "NUL \<notin> set KMZ_BASE_DIR"
  by (simp add: KMZ_BASE_DIR_def)

lemmas h_defs =
  h_system_ping_def h_drone_get_telemetry_def h_drone_get_battery_info_def
  h_drone_get_gimbal_angle_def h_drone_get_camera_state_def h_drone_get_rtk_status_def
  h_drone_upload_kmz_def h_drone_set_rth_altitude_def h_drone_set_gimbal_angle_def
  h_drone_set_camera_mode_def h_drone_set_camera_zoom_def h_drone_set_home_location_def
  h_drone_set_obstacle_avoidance_def h_drone_shoot_photo_def h_drone_start_recording_def
  h_drone_stop_recording_def

lemma dispatch_table:
  "dispatch e ops jl peer m i p s tr =
     (case map_of method_table m of
        None \<Rightarrow> (s, send_error e peer i ''method not found'' s tr)
      | Some Ping \<Rightarrow> h_system_ping e peer i s tr
      | Some Get_Telemetry \<Rightarrow> h_drone_get_telemetry e ops peer i s tr
      | Some Get_Battery_Info \<Rightarrow> h_drone_get_battery_info e ops peer i s tr
      | Some Get_Gimbal_Angle \<Rightarrow> h_drone_get_gimbal_angle e ops peer i s tr
      | Some Get_Camera_State \<Rightarrow> h_drone_get_camera_state e ops peer i s tr
      | Some Get_Rtk_Status \<Rightarrow> h_drone_get_rtk_status e ops peer i s tr
      | Some Upload_Kmz \<Rightarrow> h_drone_upload_kmz e ops jl peer i p s tr
      | Some Set_Rth_Altitude \<Rightarrow> h_drone_set_rth_altitude e ops jl peer i p s tr
      | Some Set_Gimbal_Angle \<Rightarrow> h_drone_set_gimbal_angle e ops jl peer i p s tr
      | Some Set_Camera_Mode \<Rightarrow> h_drone_set_camera_mode e ops jl peer i p s tr
      | Some Set_Camera_Zoom \<Rightarrow> h_drone_set_camera_zoom e ops jl peer i p s tr
      | Some Set_Home_Location \<Rightarrow> h_drone_set_home_location e ops jl peer i p s tr
      | Some Set_Obstacle_Avoidance \<Rightarrow> h_drone_set_obstacle_avoidance e ops jl peer i p s tr
      | Some Shoot_Photo \<Rightarrow> h_drone_shoot_photo e ops peer i s tr
      | Some Start_Recording \<Rightarrow> h_drone_start_recording e ops peer i s tr
      | Some Stop_Recording \<Rightarrow> h_drone_stop_recording e ops peer i s tr)"
proof (cases "m \<in> fst ` set method_table")
  case True
  then show ?thesis by (auto simp: method_table_def dispatch_def)
next
  case False
  then have "map_of method_table m = None" by (simp add: map_of_eq_None_iff)
  moreover have "m \<notin> fst ` set method_table" by (rule False)
  ultimately show ?thesis by (simp add: method_table_def dispatch_def)
qed

section \<open>The handlers refine the service\<close>

lemma send_fitting_result:
  "b \<noteq> [] \<Longrightarrow> NUL \<notin> set b \<Longrightarrow> length b < sz \<Longrightarrow>
     send_result e peer i (Some (snprintf_text sz b)) s tr =
       tr @ [reply_event (g_srv s) peer (result_text i b)]"
  by (simp add: send_result_event snprintf_body)

lemma send_empty_result:
  "send_result e peer i None s tr = tr @ [reply_event (g_srv s) peer (result_text i ''{}'')]"
  by (simp add: send_result_event result_body_def)

lemma get_refines:
  assumes "act (value_reply msg body) f s tr = (rep, s', tr1)"
    and "\<And>b. rep = Result b \<Longrightarrow> b \<noteq> [] \<and> NUL \<notin> set b \<and> length b < sz"
  shows "(let (r, s, tr) = run_bsp f s tr
          in case r of Inl err \<Rightarrow> (s, send_error e peer i msg s tr)
             | Inr x \<Rightarrow> (s, send_result e peer i (Some (snprintf_text sz (body x))) s tr)) =
         (s', tr1 @ [reply_event (g_srv s') peer (reply_text i rep)])"
  using assms
  by (auto simp: act_def value_reply_def send_fitting_result send_error_event
      split: prod.splits sum.splits)

lemma status_refines:
  assumes "act (status_reply ''{}'' msg) f s tr = (rep, s', tr1)"
  shows "reply_status e peer i msg (run_bsp f s tr) =
         (s', tr1 @ [reply_event (g_srv s') peer (reply_text i rep)])"
  using assms
  by (auto simp: act_def status_reply_def reply_status_def send_empty_result send_error_event
      split: prod.splits)

lemma upload_refines:
  assumes "perform e ops (decode jl p Upload_Kmz) s tr = (rep, s', tr1)"
    and "fits (decode jl p Upload_Kmz) rep"
  shows "h_drone_upload_kmz e ops jl peer i p s tr =
         (s', tr1 @ [reply_event (g_srv s') peer (reply_text i rep)])"
proof (cases "rpc_param_str jl p ''file''")
  case None
  then show ?thesis using assms by (auto simp: h_drone_upload_kmz_def send_error_event)
next
  case (Some n)
  show ?thesis
  proof (cases "n = [] \<or> strstr n ''..'' \<or> strchr n (CHR ''/'')")
    case True
    then show ?thesis using assms Some
      by (auto simp: h_drone_upload_kmz_def send_error_event refuse_if_def split: if_splits)
  next
    case False
    have d: "decode jl p Upload_Kmz = Do_Upload n" using Some False by (simp add: refuse_if_def)
    have n: "NUL \<notin> set n" "length KMZ_BASE_DIR + 1 + length n < PATH_MAX"
      using assms(2) unfolding d fits_def by auto
    have p: "snprintf_text PATH_MAX (KMZ_BASE_DIR @ CHR ''/'' # n) = KMZ_BASE_DIR @ CHR ''/'' # n"
      using n by (intro snprintf_text_fits) (auto simp: KMZ_BASE_DIR_no_NUL)
    have b: "b \<noteq> [] \<and> NUL \<notin> set b \<and> length b < PATH_MAX + 64" if "rep = Result b" for b
      using assms(2) that unfolding d fits_def by auto
    have fb: "snprintf_text (PATH_MAX + 64) b = b" if "rep = Result b" for b
      using b [OF that] by (intro snprintf_text_fits) auto
    show ?thesis using assms(1) False Some b fb unfolding d
      by (auto simp: h_drone_upload_kmz_def p act_def status_reply_def send_events result_body_def Let_def
          split: prod.splits if_splits)
  qed
qed

lemma decode_refines:
  assumes "perform e ops (action_of jl m p) s tr = (rep, s', tr1)"
    and "fits (action_of jl m p) rep"
  shows "dispatch e ops jl peer m i p s tr =
         (s', tr1 @ [reply_event (g_srv s') peer (reply_text i rep)])"
proof (cases "map_of method_table m")
  case None
  then show ?thesis using assms
    by (auto simp: dispatch_table action_of_def send_error_event)
next
  case (Some k)
  then have P: "perform e ops (decode jl p k) s tr = (rep, s', tr1)"
    and F: "fits (decode jl p k) rep" using assms by (auto simp: action_of_def)
  show ?thesis
  proof (cases k)
    case Ping
    then show ?thesis using P F Some
      by (auto simp: dispatch_table h_system_ping_def send_fitting_result fits_def split: prod.splits)
  next
    case Upload_Kmz
    then show ?thesis using P F Some by (simp add: dispatch_table upload_refines)
  qed (use P F Some in \<open>auto simp: dispatch_table h_defs fits_def refuse_if_def send_error_event Let_def
         intro!: get_refines [unfolded Let_def] status_refines split: if_splits\<close>)
qed

lemma handle_rpc_refines:
  assumes "rpc_parse jl line = ((0, req), jops)"
    and "perform e ops (action_of jl (req_method req) (req_params req)) s (tr @ map Json jops) =
           (rep, s', tr1)"
    and "fits (action_of jl (req_method req) (req_params req)) rep"
  shows "handle_rpc e ops jl peer line len s tr =
           (0, s', tr1 @ [reply_event (g_srv s') peer (reply_text (req_id req) rep), Json Root_Put])"
proof -
  have "req_root req \<noteq> None" using assms(1) rpc_parse_ok_root [of jl line] by simp
  then have "snd (rpc_request_free req) = [Root_Put]" by (auto simp: rpc_request_free_def)
  then show ?thesis using decode_refines [OF assms(2,3), of peer "req_id req"] assms(1)
    by (auto simp: handle_rpc_def Let_def split: prod.splits)
qed

lemma perform_g_srv: "perform e ops a s tr = (rep, s', tr1) \<Longrightarrow> g_srv s' = g_srv s"
  by (cases a)
     (auto simp: act_def run_bsp_def Let_def dest: uptime_ms_frame split: prod.splits if_splits)

section \<open>Replies against their buffers\<close>

text \<open>Readings of a size the reply buffers were made for.\<close>

definition telemetry_ok :: "DroneTelemetry \<Rightarrow> bool" where
  "telemetry_ok t \<longleftrightarrow>
     fp_bounded (10 ^ 20) (t_lat t) \<and> fp_bounded (10 ^ 20) (t_lon t) \<and>
     in_range f32 (t_alt_msl_m t) \<and> in_range f32 (t_alt_rel_m t) \<and> in_range f32 (t_vx_ms t) \<and>
     in_range f32 (t_vy_ms t) \<and> in_range f32 (t_vz_ms t) \<and> in_range f32 (t_heading_deg t)"

definition gimbal_reading_ok :: "DroneGimbalAngle \<Rightarrow> bool" where
  "gimbal_reading_ok g \<longleftrightarrow>
     in_range f32 (pitch g) \<and> fp_bounded (10 ^ 20) (roll g) \<and> fp_bounded (10 ^ 20) (yaw g)"

definition camera_ok :: "DroneCameraState \<Rightarrow> bool" where
  "camera_ok c \<longleftrightarrow> \<bar>c_mode c\<bar> < 2 ^ 32 \<and> in_range f32 (c_zoom_factor c)"

definition rtk_ok :: "DroneRtkStatus \<Rightarrow> bool" where
  "rtk_ok r \<longleftrightarrow>
     fp_bounded (10 ^ 20) (r_lat r) \<and> fp_bounded (10 ^ 20) (r_lon r) \<and> in_range f32 (r_alt_m r)"

lemma length_fmt_f_bounded:
  assumes "fp_bounded (10 ^ 20) x" and "0 < p"
  shows "length (fmt_f p x) \<le> 23 + p"
proof -
  have "length (fmt_f p x) \<le> 21 + 2 + p"
    by (rule length_fmt_f [where M = "10 ^ 20"])
       (use assms in \<open>auto simp: fp_bounded_def split: fp.splits\<close>)
  then show ?thesis by simp
qed

lemma fmt_f_bounded_no_NUL: "fp_bounded M x \<Longrightarrow> NUL \<notin> set (fmt_f p x)"
  by (rule fmt_f_no_NUL) (auto simp: fp_bounded_def)

lemma length_jkey [simp]: "length (jkey k) = length k + 3"
  by (simp add: jkey_def)

lemma length_jbool: "length (jbool b) \<le> 5"
  by (simp add: jbool_def)

lemma jkey_no_NUL [cstring_simps]: "NUL \<notin> set k \<Longrightarrow> NUL \<notin> set (jkey k)"
  by (simp add: jkey_def)

lemma jbool_no_NUL [cstring_simps]: "NUL \<notin> set (jbool b)"
  by (simp add: jbool_def)

lemma sint_u16: "\<bar>sint (w :: u16)\<bar> < 10 ^ 5" and sint_u32: "\<bar>sint (v :: u32)\<bar> < 10 ^ 10"
  using sint_greater_eq [of w] sint_less [of w] sint_greater_eq [of v] sint_less [of v] by auto

lemmas json_no_NUL =
  cstring_simps fmt_f_in_range_no_NUL [of f32] fmt_f_bounded_no_NUL [of "10 ^ 20", simplified]

lemma ping_json_fits: "ping_json up \<noteq> [] \<and> NUL \<notin> set (ping_json up) \<and> length (ping_json up) < 128"
  using length_fmt_u_u64 [of up] by (simp add: ping_json_def json_no_NUL)

lemma battery_json_fits:
  "battery_json b \<noteq> [] \<and> NUL \<notin> set (battery_json b) \<and> length (battery_json b) < 256"
  using length_fmt_u_u32 [of "b_voltage_mv b"] length_fmt_d [of 10 "sint (b_current_ma b)"]
    length_fmt_u_u8 [of "b_remaining_pct b"] length_fmt_d [of 5 "sint (b_temperature_dc b)"]
    length_fmt_u_u32 [of "b_cycle_count b"] sint_u32 [of "b_current_ma b"]
    sint_u16 [of "b_temperature_dc b"]
  by (simp add: battery_json_def json_no_NUL)

lemma gimbal_json_fits:
  assumes "gimbal_reading_ok g"
  shows "gimbal_json g \<noteq> [] \<and> NUL \<notin> set (gimbal_json g) \<and> length (gimbal_json g) < 128"
  using assms length_fmt_f_f32 [of "pitch g" 2] length_fmt_f_bounded [of "roll g" 2]
    length_fmt_f_bounded [of "yaw g" 2]
  by (simp add: gimbal_json_def gimbal_reading_ok_def json_no_NUL)

lemma camera_json_fits:
  assumes "camera_ok c"
  shows "camera_json c \<noteq> [] \<and> NUL \<notin> set (camera_json c) \<and> length (camera_json c) < 128"
  using assms length_fmt_f_f32 [of "c_zoom_factor c" 2] length_fmt_d [of 10 "c_mode c"]
    length_jbool [of "c_is_recording c"]
  by (simp add: camera_json_def camera_ok_def json_no_NUL)

lemma rtk_json_fits:
  assumes "rtk_ok r"
  shows "rtk_json r \<noteq> [] \<and> NUL \<notin> set (rtk_json r) \<and> length (rtk_json r) < 256"
  using assms length_fmt_f_bounded [of "r_lat r" 8] length_fmt_f_bounded [of "r_lon r" 8]
    length_fmt_f_f32 [of "r_alt_m r" 2] length_fmt_u_u8 [of "r_fix_type r"]
    length_fmt_u_u8 [of "r_satellites r"] length_jbool [of "r_enabled r"]
  by (simp add: rtk_json_def rtk_ok_def json_no_NUL)

lemma telemetry_json_fits:
  assumes "telemetry_ok t"
  shows "telemetry_json t \<noteq> [] \<and> NUL \<notin> set (telemetry_json t) \<and> length (telemetry_json t) < 512"
  using assms length_fmt_f_bounded [of "t_lat t" 8] length_fmt_f_bounded [of "t_lon t" 8]
    length_fmt_f_f32 [of "t_alt_msl_m t" 2] length_fmt_f_f32 [of "t_alt_rel_m t" 2]
    length_fmt_f_f32 [of "t_vx_ms t" 2] length_fmt_f_f32 [of "t_vy_ms t" 2]
    length_fmt_f_f32 [of "t_vz_ms t" 2] length_fmt_f_f32 [of "t_heading_deg t" 1]
    length_fmt_u_u8 [of "t_battery_pct t"] length_fmt_u_u32 [of "t_battery_mv t"]
    length_fmt_u_u8 [of "t_gps_sats t"] length_fmt_u_u8 [of "t_gps_fix t"]
    length_fmt_u_u8 [of "t_flight_status t"] length_jbool [of "t_motors_on t"]
  by (simp add: telemetry_json_def telemetry_ok_def json_no_NUL)

lemmas json_fits =
  ping_json_fits battery_json_fits gimbal_json_fits camera_json_fits rtk_json_fits
  telemetry_json_fits

text \<open>
  The reply to an upload repeats the file name twice; names up to 2000 bytes leave it within the
  4096-byte reply buffer.
\<close>

definition name_fits :: "rpc_action \<Rightarrow> bool" where
  "name_fits a \<longleftrightarrow> (case a of Do_Upload n \<Rightarrow> length n \<le> 2000 | _ \<Rightarrow> True)"

lemma length_uploaded_json:
  "length (uploaded_json n (KMZ_BASE_DIR @ ''/'' @ n)) = 66 + 2 * length n"
  by (simp add: uploaded_json_def KMZ_BASE_DIR_def)

lemma action_of_upload_no_NUL: "action_of jl m p = Do_Upload n \<Longrightarrow> NUL \<notin> set n"
proof -
  assume a: "action_of jl m p = Do_Upload n"
  then obtain k where k: "map_of method_table m = Some k" "decode jl p k = Do_Upload n"
    by (auto simp: action_of_def split: option.splits)
  then have "rpc_param_str jl p ''file'' = Some n"
    by (cases k) (auto simp: Let_def refuse_if_def split: option.splits if_splits)
  then show ?thesis by (rule rpc_param_str_no_NUL)
qed

lemma action_of_refuse_len: "action_of jl m p = Refuse msg \<Longrightarrow> length msg \<le> 256"
proof (cases "map_of method_table m")
  case (Some k)
  assume "action_of jl m p = Refuse msg"
  then show ?thesis using Some
    by (cases k) (auto simp: action_of_def Let_def refuse_if_def split: option.splits if_splits)
qed (auto simp: action_of_def)

definition reply_len_ok :: "rpc_reply \<Rightarrow> bool" where
  "reply_len_ok r \<longleftrightarrow> (case r of Result b \<Rightarrow> length b \<le> 4066 | Error m \<Rightarrow> length m \<le> 256)"

definition body_fits :: "nat \<Rightarrow> rpc_reply \<Rightarrow> bool" where
  "body_fits sz r \<longleftrightarrow>
     (case r of Error m \<Rightarrow> length m \<le> 256 | Result b \<Rightarrow> b \<noteq> [] \<and> NUL \<notin> set b \<and> length b < sz)"

lemma act_value_fits:
  assumes "act (value_reply msg body) f s tr = (rep, s', tr')" and "length msg \<le> 256"
    and "\<And>x b tr1. f (hs_bsp s) tr = (Inr x, b, tr1) \<Longrightarrow>
           body x \<noteq> [] \<and> NUL \<notin> set (body x) \<and> length (body x) < sz"
  shows "body_fits sz rep"
  using assms by (auto simp: act_def value_reply_def run_bsp_def body_fits_def
      split: prod.splits sum.splits)

lemma act_status_fits:
  assumes "act (status_reply body msg) f s tr = (rep, s', tr')" and "length msg \<le> 256"
    and "body \<noteq> []" and "NUL \<notin> set body" and "length body < sz"
  shows "body_fits sz rep"
  using assms by (auto simp: act_def status_reply_def body_fits_def split: prod.splits)

lemma act_empty_fits:
  "act (status_reply ''{}'' msg) f s tr = (rep, s', tr') \<Longrightarrow> length msg \<le> 256 \<Longrightarrow> body_fits 3 rep"
  by (erule act_status_fits) simp_all

lemma body_fits_fits:
  assumes "body_fits sz r" and "sz \<le> result_buf a" and "\<forall>n. a \<noteq> Do_Upload n"
  shows "fits a r"
  using assms by (auto simp: body_fits_def fits_def split: rpc_reply.splits rpc_action.splits)

lemma body_fits_len: "body_fits sz r \<Longrightarrow> sz \<le> 4067 \<Longrightarrow> reply_len_ok r"
  by (auto simp: body_fits_def reply_len_ok_def split: rpc_reply.splits)

lemma rpc_parse_id_range:
  "json_lib_ok jl \<Longrightarrow> - (2 ^ 31) \<le> req_id (snd (fst (rpc_parse jl line))) \<and>
     req_id (snd (fst (rpc_parse jl line))) < 2 ^ 31"
  by (auto simp: rpc_parse_def json_lib_ok_def Let_def split: option.split)

text \<open>A short id and a reply within these bounds give a text the reply buffer holds.\<close>

lemma reply_text_fits:
  assumes "reply_len_ok r" and "- (2 ^ 31) \<le> i" and "i < 2 ^ 31"
  shows "length (reply_text i r) < DRONE_MAX_MSG_LEN"
proof -
  have "length (fmt_d i) \<le> Suc 10" using assms(2,3) by (intro length_fmt_d) auto
  then show ?thesis using assms(1)
    by (cases r) (auto simp: reply_len_ok_def length_result_text length_error_text drone_limits)
qed

lemma uploaded_json_fits:
  assumes "NUL \<notin> set n" and "length n \<le> 2000"
  shows "uploaded_json n (KMZ_BASE_DIR @ ''/'' @ n) \<noteq> [] \<and>
         NUL \<notin> set (uploaded_json n (KMZ_BASE_DIR @ ''/'' @ n)) \<and>
         length (uploaded_json n (KMZ_BASE_DIR @ ''/'' @ n)) < 4067"
  using assms length_uploaded_json [of n]
  by (auto simp: uploaded_json_def KMZ_BASE_DIR_no_NUL jkey_def)

lemma perform_upload_fits:
  assumes "perform e ops (Do_Upload n) s tr = (rep, s', tr')"
    and "NUL \<notin> set n" and "length n \<le> 2000"
  shows "fits (Do_Upload n) rep \<and> reply_len_ok rep"
proof -
  let ?b = "uploaded_json n (KMZ_BASE_DIR @ ''/'' @ n)"
  note u = uploaded_json_fits [OF assms(2,3)]
  have "body_fits 4067 rep"
    by (rule act_status_fits [of ?b "''kmz upload failed''" "op_upload_kmz ops (Some (KMZ_BASE_DIR @ ''/'' @ n))" s tr rep s' tr'])
       (use assms(1) u in \<open>simp_all add: Let_def\<close>)
  then show ?thesis using assms(2,3)
    by (auto simp: fits_def body_fits_def reply_len_ok_def PATH_MAX_def KMZ_BASE_DIR_def
        split: rpc_reply.splits)
qed

locale bounded_bsp = drone_bsp ops I for ops :: "'b drone_ops" and I +
  assumes telemetry_bounded: "I s \<Longrightarrow> op_get_telemetry ops s tr = (Inr t, s', tr') \<Longrightarrow> telemetry_ok t"
    and gimbal_bounded: "I s \<Longrightarrow> op_get_gimbal_angle ops s tr = (Inr g, s', tr') \<Longrightarrow> gimbal_reading_ok g"
    and camera_bounded: "I s \<Longrightarrow> op_get_camera_state ops s tr = (Inr c, s', tr') \<Longrightarrow> camera_ok c"
    and rtk_bounded: "I s \<Longrightarrow> op_get_rtk_status ops s tr = (Inr r, s', tr') \<Longrightarrow> rtk_ok r"
begin

lemma perform_get_fits:
  assumes I: "I (hs_bsp s)" and P: "perform e ops (Do_Get m) s tr = (rep, s', tr')"
  shows "body_fits (result_buf (Do_Get m)) rep"
proof -
  note rules = act_value_fits [OF _ _ telemetry_bounded [OF I, THEN telemetry_json_fits]]
    act_value_fits [OF _ _ battery_json_fits]
    act_value_fits [OF _ _ gimbal_bounded [OF I, THEN gimbal_json_fits]]
    act_value_fits [OF _ _ camera_bounded [OF I, THEN camera_json_fits]]
    act_value_fits [OF _ _ rtk_bounded [OF I, THEN rtk_json_fits]]
  show ?thesis using P by (auto split: if_splits elim!: rules)
qed

lemma perform_fits:
  assumes I: "I (hs_bsp s)" and P: "perform e ops (action_of jl m p) s tr = (rep, s', tr')"
    and n: "name_fits (action_of jl m p)"
  shows "fits (action_of jl m p) rep \<and> reply_len_ok rep"
proof -
  let ?a = "action_of jl m p"
  show ?thesis
  proof (cases "\<exists>n. ?a = Do_Upload n")
    case True
    then show ?thesis using perform_upload_fits P n action_of_upload_no_NUL [of jl m p]
      by (fastforce simp: name_fits_def)
  next
    case False
    obtain sz where sz: "body_fits sz rep" "sz \<le> result_buf ?a" "sz \<le> 4067"
    proof (cases ?a)
      case Do_Ping
      then show ?thesis using P that [of 128]
        by (auto simp: body_fits_def ping_json_fits split: prod.splits)
    next
      case (Do_Get k)
      then show ?thesis using P that [of "result_buf (Do_Get k)"] perform_get_fits [OF I]
        by (auto split: if_splits)
    next
      case (Refuse msg)
      then show ?thesis using P that [of 3] action_of_refuse_len [of jl m p msg]
        by (auto simp: body_fits_def DRONE_MAX_MSG_LEN_def)
    qed (use P that [of 3] False in \<open>auto split: if_splits dest!: act_empty_fits simp: DRONE_MAX_MSG_LEN_def\<close>)
    then show ?thesis using body_fits_fits body_fits_len False by blast
  qed
qed

text \<open>
  The service on the wire: the datagram sent back is the whole reply text of the abstract service,
  for every request whose file name, if it has one, is not overlong.
\<close>

lemma handle_rpc_wire:
  assumes json: "json_lib_ok jl" and I: "I (hs_bsp s)" and srv: "g_srv s' = Some fd"
    and parse: "rpc_parse jl line = ((0, req), jops)"
    and P: "perform e ops (action_of jl (req_method req) (req_params req)) s (tr @ map Json jops) =
              (rep, s', tr1)"
    and n: "name_fits (action_of jl (req_method req) (req_params req))"
  shows "handle_rpc e ops jl peer line len s tr =
           (0, s', tr1 @ [Net (Sendto fd peer (reply_text (req_id req) rep)), Json Root_Put])"
proof -
  note F = perform_fits [OF I P n]
  have "length (reply_text (req_id req) rep) < DRONE_MAX_MSG_LEN"
    using F rpc_parse_id_range [OF json, of line] parse by (intro reply_text_fits) auto
  then show ?thesis using handle_rpc_refines [OF parse P, of peer len] F srv
    by (simp add: reply_event_fits)
qed

end

section \<open>The guard of the home location\<close>

text \<open>
  The values that pass a range check written with \<^verbatim>\<open>>\<close> and \<^verbatim>\<open><\<close>: those in range, and every NaN.
\<close>

definition passes_range :: "rat \<Rightarrow> fp \<Rightarrow> bool" where
  "passes_range b x \<longleftrightarrow> (case x of Fin s m \<Rightarrow> m \<le> b | Inf s \<Rightarrow> False | NaN s \<Rightarrow> True)"

lemma range_guard:
  assumes "in_range f64 x" and "0 \<le> b"
  shows "flt (Fin False b) x \<or> flt x (Fin True b) \<longleftrightarrow> \<not> passes_range b x"
  using assms by (cases x) (auto simp: passes_range_def in_range_def)

lemma in_range_999: "in_range f64 (Fin False 999)"
  by (simp add: in_range_def f64_def pow2_def)

section \<open>Uptime\<close>

lemma elapsed_borrow:
  assumes "valid_ts a" and "valid_ts b" and "ts_ns a \<le> ts_ns b"
  defines "sec \<equiv> tv_sec b - tv_sec a" and "nsec \<equiv> tv_nsec b - tv_nsec a"
  shows "0 \<le> (if nsec < 0 then sec - 1 else sec) \<and>
         0 \<le> (if nsec < 0 then nsec + 1000000000 else nsec) \<and>
         (if nsec < 0 then nsec + 1000000000 else nsec) < 1000000000 \<and>
         (if nsec < 0 then sec - 1 else sec) * 1000000000 + (if nsec < 0 then nsec + 1000000000 else nsec) =
           ts_ns b - ts_ns a"
  using assms by (auto simp: valid_ts_def ts_ns_def)

lemma elapsed_ms: "((s :: int) * 1000000000 + n) div 1000000 = s * 1000 + n div 1000000"
proof -
  have "s * 1000000000 + n = n + (s * 1000) * 1000000" by simp
  then show ?thesis by (simp only: div_mult_self1)
qed

text \<open>The milliseconds between two readings, computed with a borrow as the code does.\<close>

lemma uptime_word:
  assumes "valid_ts a" and "valid_ts b" and "ts_ns a \<le> ts_ns b" and "tv_sec b < 2 ^ 53"
  shows "uint (let sec = tv_sec b - tv_sec a; nsec = tv_nsec b - tv_nsec a;
                   (sec, nsec) = (if nsec < 0 then (sec - 1, nsec + 1000000000) else (sec, nsec))
               in word_of_int sec * 1000 + word_of_int nsec div 1000000 :: u64) =
         (ts_ns b - ts_ns a) div 1000000"
proof -
  define sec where "sec = (if tv_nsec b < tv_nsec a then tv_sec b - tv_sec a - 1 else tv_sec b - tv_sec a)"
  define nsec where "nsec = (if tv_nsec b < tv_nsec a then tv_nsec b - tv_nsec a + 1000000000
                              else tv_nsec b - tv_nsec a)"
  have "0 \<le> sec" "0 \<le> nsec" "nsec < 1000000000" "sec * 1000000000 + nsec = ts_ns b - ts_ns a"
    using elapsed_borrow [OF assms(1-3)] by (auto simp: sec_def nsec_def split: if_splits)
  moreover have "sec < 2 ^ 53" using assms(1,4) by (auto simp: sec_def valid_ts_def)
  ultimately have "uint (word_of_int sec * 1000 + word_of_int nsec div 1000000 :: u64) =
      (ts_ns b - ts_ns a) div 1000000"
    using uint_ms_word [of sec nsec] elapsed_ms [of sec nsec] by simp
  then show ?thesis by (auto simp: sec_def nsec_def Let_def split: if_splits)
qed

text \<open>The reading the uptime counts from is a reading of the clock made earlier.\<close>

definition start_recorded :: "env \<Rightarrow> 'b handler_state \<Rightarrow> trace \<Rightarrow> bool" where
  "start_recorded e s tr \<longleftrightarrow>
     (g_started s \<longrightarrow> (\<exists>tr0 evs. tr = tr0 @ evs \<and> g_start s = env_clock e tr0))"

lemma uptime_ms_value:
  assumes clk: "monotonic_clock e" "clock_bounded e"
    and st: "start_recorded e s tr"
    and run: "uptime_ms e s tr = (up, s', tr')"
  shows "uint up = (ts_ns (env_clock e tr') - ts_ns (g_start s')) div 1000000 \<and> g_started s' \<and>
         (g_started s \<longrightarrow> g_start s' = g_start s) \<and> start_recorded e s' tr'"
proof -
  obtain tr0 evs where t: "tr' = tr0 @ evs" "g_start s' = env_clock e tr0" "g_started s'"
  proof (cases "g_started s")
    case True
    then obtain tr0 evs where "tr = tr0 @ evs" "g_start s = env_clock e tr0"
      using st by (auto simp: start_recorded_def)
    then show ?thesis using that [of tr0 "evs @ [Clock_Monotonic]"] run True
      by (auto simp: uptime_ms_def clock_gettime_def Let_def split: if_splits)
  next
    case False
    then show ?thesis using that [of "tr @ [Clock_Monotonic]" "[Clock_Monotonic]"] run
      by (auto simp: uptime_ms_def clock_gettime_def Let_def split: if_splits)
  qed
  have v: "valid_ts (env_clock e x)" "tv_sec (env_clock e x) < 2 ^ 53" for x
    using clk by (auto simp: monotonic_clock_def clock_bounded_def)
  have "ts_ns (env_clock e tr0) \<le> ts_ns (env_clock e tr')"
    using clk(1) t(1) by (simp add: monotonic_clock_def)
  note u = uptime_word [OF v(1) v(1) this v(2)]
  have "up = (let sec = tv_sec (env_clock e tr') - tv_sec (g_start s');
                   nsec = tv_nsec (env_clock e tr') - tv_nsec (g_start s');
                   (sec, nsec) = (if nsec < 0 then (sec - 1, nsec + 1000000000) else (sec, nsec))
               in word_of_int sec * 1000 + word_of_int nsec div 1000000)"
    using run by (auto simp: uptime_ms_def clock_gettime_def Let_def split: if_splits)
  moreover have "g_started s \<longrightarrow> g_start s' = g_start s"
    using run by (auto simp: uptime_ms_def Let_def split: if_splits prod.splits)
  moreover have "start_recorded e s' tr'" using t by (auto simp: start_recorded_def)
  ultimately show ?thesis using u t by simp
qed

end
