(* ===== verification/Drone_Stub.thy ===== *)
theory Drone_Stub
  imports Drone_Ctrl_Api Sample_Env
begin

text \<open>
  The development build of \<^verbatim>\<open>bsp/drone_ctrl.c\<close> (without \<^verbatim>\<open>PSDK_REAL\<close>): mock readings, and settings
  kept in file-scope variables.
\<close>

section \<open>State\<close>

record stub_state =
  g_stub_rth_alt :: fp
  g_stub_gimbal_p :: fp
  g_stub_zoom :: fp
  g_stub_cam_mode :: int
  g_stub_recording :: bool

definition stub_initial :: stub_state where
  "stub_initial =
     \<lparr>g_stub_rth_alt = Fin False 30, g_stub_gimbal_p = Fin True 30, g_stub_zoom = Fin False 1,
      g_stub_cam_mode = CAMERA_MODE_PHOTO, g_stub_recording = False\<rparr>"

definition stub_drone_ctrl_init :: "stub_state \<Rightarrow> trace \<Rightarrow> int \<times> stub_state \<times> trace" where
  "stub_drone_ctrl_init s tr = (0, s, tr)"

definition stub_drone_ctrl_deinit :: "stub_state \<Rightarrow> trace \<Rightarrow> stub_state \<times> trace" where
  "stub_drone_ctrl_deinit s tr = (s, tr)"

section \<open>Readings\<close>

text \<open>\<^verbatim>\<open>fmod\<close> on doubles is exact: the remainder has the sign of the dividend.\<close>

fun fmod :: "fp \<Rightarrow> fp \<Rightarrow> fp" where
  "fmod (NaN s) y = NaN s"
| "fmod x (NaN s) = NaN s"
| "fmod (Inf s) y = NaN False"
| "fmod x (Inf t) = x"
| "fmod (Fin s m) (Fin t n) =
     (if n = 0 then NaN False else Fin s (m - n * of_int \<lfloor>m / n\<rfloor>))"

definition stub_time :: "timespec \<Rightarrow> fp" where
  "stub_time ts =
     fadd f64 (fp_of_int f64 (tv_sec ts)) (fmul f64 (fp_of_int f64 (tv_nsec ts)) (lit64 (1 / 10 ^ 9)))"

definition stub_get_telemetry :: "env \<Rightarrow> (stub_state, DroneError + DroneTelemetry) bsp_op" where
  "stub_get_telemetry e s tr =
     (let (ts, tr) = clock_gettime e tr;
          t = stub_time ts;
          out = zero_telemetry
            \<lparr>t_lat := fadd f64 (lit64 (225430 / 10000))
                       (fmul f64 (lit64 (1 / 10000)) (env_sin e (fmul f64 t (lit64 (1 / 10))))),
             t_lon := fadd f64 (lit64 (1139310 / 10000))
                       (fmul f64 (lit64 (1 / 10000)) (env_cos e (fmul f64 t (lit64 (1 / 10))))),
             t_alt_msl_m := fadd f32 (lit32 50)
                       (fmul f32 (lit32 5) (to_f32 (env_sin e (fmul f64 t (lit64 (5 / 100)))))),
             t_alt_rel_m := lit32 30,
             t_vx_ms := lit32 (15 / 10),
             t_vy_ms := lit32 (3 / 10),
             t_vz_ms := lit32 0,
             t_heading_deg := to_f32 (fmod (fmul f64 t (lit64 5)) (lit64 360)),
             t_battery_pct := 82,
             t_battery_mv := 25200,
             t_gps_sats := 14,
             t_gps_fix := 2,
             t_flight_status := 2,
             t_motors_on := True\<rparr>
      in (Inr out, s, tr))"

definition stub_get_battery_info :: "(stub_state, DroneError + DroneBatteryInfo) bsp_op" where
  "stub_get_battery_info s tr =
     (Inr (zero_battery
        \<lparr>b_voltage_mv := 25200, b_current_ma := word_of_int (-3200), b_remaining_pct := 82,
         b_temperature_dc := 253, b_cycle_count := 47\<rparr>), s, tr)"

definition stub_get_gimbal_angle :: "(stub_state, DroneError + DroneGimbalAngle) bsp_op" where
  "stub_get_gimbal_angle s tr =
     (Inr \<lparr>pitch = g_stub_gimbal_p s, roll = lit32 0, yaw = lit32 0\<rparr>, s, tr)"

definition stub_get_camera_state :: "(stub_state, DroneError + DroneCameraState) bsp_op" where
  "stub_get_camera_state s tr =
     (Inr \<lparr>c_mode = g_stub_cam_mode s, c_is_recording = g_stub_recording s,
           c_zoom_factor = g_stub_zoom s\<rparr>, s, tr)"

definition stub_get_rtk_status :: "(stub_state, DroneError + DroneRtkStatus) bsp_op" where
  "stub_get_rtk_status s tr =
     (Inr (zero_rtk\<lparr>r_enabled := False, r_fix_type := 0, r_satellites := 0\<rparr>), s, tr)"

section \<open>Settings and actions\<close>

definition stub_set_rth_altitude :: "fp \<Rightarrow> (stub_state, DroneError) bsp_op" where
  "stub_set_rth_altitude alt_m s tr = (DRONE_OK, s\<lparr>g_stub_rth_alt := alt_m\<rparr>, tr)"

definition stub_set_gimbal_angle :: "DroneGimbalAngle \<Rightarrow> (stub_state, DroneError) bsp_op" where
  "stub_set_gimbal_angle a s tr = (DRONE_OK, s\<lparr>g_stub_gimbal_p := pitch a\<rparr>, tr)"

definition stub_set_camera_mode :: "CameraMode \<Rightarrow> (stub_state, DroneError) bsp_op" where
  "stub_set_camera_mode mode s tr = (DRONE_OK, s\<lparr>g_stub_cam_mode := mode\<rparr>, tr)"

definition stub_set_camera_zoom :: "fp \<Rightarrow> (stub_state, DroneError) bsp_op" where
  "stub_set_camera_zoom zoom_factor s tr = (DRONE_OK, s\<lparr>g_stub_zoom := zoom_factor\<rparr>, tr)"

definition stub_set_home_location :: "DroneHomeLocation \<Rightarrow> (stub_state, DroneError) bsp_op" where
  "stub_set_home_location loc s tr = (DRONE_OK, s, tr)"

definition stub_set_obstacle_avoidance :: "ObstacleAvoidMode \<Rightarrow> (stub_state, DroneError) bsp_op" where
  "stub_set_obstacle_avoidance mode s tr = (DRONE_OK, s, tr)"

definition stub_shoot_photo :: "(stub_state, DroneError) bsp_op" where
  "stub_shoot_photo s tr = (DRONE_OK, s, tr)"

definition stub_start_recording :: "(stub_state, DroneError) bsp_op" where
  "stub_start_recording s tr = (DRONE_OK, s\<lparr>g_stub_recording := True\<rparr>, tr)"

definition stub_stop_recording :: "(stub_state, DroneError) bsp_op" where
  "stub_stop_recording s tr = (DRONE_OK, s\<lparr>g_stub_recording := False\<rparr>, tr)"

definition stub_upload_kmz :: "string option \<Rightarrow> (stub_state, DroneError) bsp_op" where
  "stub_upload_kmz path s tr =
     (if path = None \<or> path = Some [] then (DRONE_ERR_PARAM, s, tr) else (DRONE_OK, s, tr))"

definition stub_ops :: "env \<Rightarrow> stub_state drone_ops" where
  "stub_ops e =
     \<lparr>op_get_telemetry = stub_get_telemetry e,
      op_get_battery_info = stub_get_battery_info,
      op_get_gimbal_angle = stub_get_gimbal_angle,
      op_get_camera_state = stub_get_camera_state,
      op_get_rtk_status = stub_get_rtk_status,
      op_set_rth_altitude = stub_set_rth_altitude,
      op_set_gimbal_angle = stub_set_gimbal_angle,
      op_set_camera_mode = stub_set_camera_mode,
      op_set_camera_zoom = stub_set_camera_zoom,
      op_set_home_location = stub_set_home_location,
      op_set_obstacle_avoidance = stub_set_obstacle_avoidance,
      op_shoot_photo = stub_shoot_photo,
      op_start_recording = stub_start_recording,
      op_stop_recording = stub_stop_recording,
      op_upload_kmz = stub_upload_kmz\<rparr>"

section \<open>The stub keeps the contract\<close>

text \<open>Invariant: the stored floats are values of type \<^verbatim>\<open>float\<close>, the camera mode is a nonnegative \<^verbatim>\<open>int\<close>.\<close>

definition stub_inv :: "stub_state \<Rightarrow> bool" where
  "stub_inv s \<longleftrightarrow> in_range f32 (g_stub_rth_alt s) \<and> in_range f32 (g_stub_gimbal_p s) \<and>
                 in_range f32 (g_stub_zoom s) \<and> 0 \<le> g_stub_cam_mode s \<and> g_stub_cam_mode s < 2 ^ 31"

lemmas stub_defs =
  stub_get_telemetry_def stub_get_battery_info_def stub_get_gimbal_angle_def
  stub_get_camera_state_def stub_get_rtk_status_def stub_set_rth_altitude_def
  stub_set_gimbal_angle_def stub_set_camera_mode_def stub_set_camera_zoom_def
  stub_set_home_location_def stub_set_obstacle_avoidance_def stub_shoot_photo_def
  stub_start_recording_def stub_stop_recording_def stub_upload_kmz_def

lemma stub_inv_initial: "stub_inv stub_initial"
  by (simp add: stub_inv_def stub_initial_def in_range_def f32_def pow2_def
      CAMERA_MODE_PHOTO_def)

interpretation stub: drone_bsp "stub_ops e" stub_inv
  by unfold_locales
     (rule bsp_stepI;
      auto simp: stub_ops_def stub_defs clock_gettime_def Let_def stub_inv_def gimbal_ok_def
           split: if_splits)+

section \<open>Reading back what was set\<close>

text \<open>A sequence of settings and actions, run on the stub.\<close>

datatype stub_cmd =
    Cmd_Mode CameraMode | Cmd_Zoom fp | Cmd_Record bool | Cmd_Gimbal DroneGimbalAngle | Cmd_Rth fp
  | Cmd_Home DroneHomeLocation | Cmd_Avoidance ObstacleAvoidMode | Cmd_Photo | Cmd_Upload "string option"

fun stub_cmd_step :: "stub_cmd \<Rightarrow> (stub_state, DroneError) bsp_op" where
  "stub_cmd_step (Cmd_Mode m) = stub_set_camera_mode m"
| "stub_cmd_step (Cmd_Zoom z) = stub_set_camera_zoom z"
| "stub_cmd_step (Cmd_Record r) = (if r then stub_start_recording else stub_stop_recording)"
| "stub_cmd_step (Cmd_Gimbal a) = stub_set_gimbal_angle a"
| "stub_cmd_step (Cmd_Rth x) = stub_set_rth_altitude x"
| "stub_cmd_step (Cmd_Home l) = stub_set_home_location l"
| "stub_cmd_step (Cmd_Avoidance m) = stub_set_obstacle_avoidance m"
| "stub_cmd_step Cmd_Photo = stub_shoot_photo"
| "stub_cmd_step (Cmd_Upload p) = stub_upload_kmz p"

fun stub_cmds :: "stub_cmd list \<Rightarrow> stub_state \<Rightarrow> trace \<Rightarrow> stub_state \<times> trace" where
  "stub_cmds [] s tr = (s, tr)"
| "stub_cmds (c # cs) s tr = (case stub_cmd_step c s tr of (_, s, tr) \<Rightarrow> stub_cmds cs s tr)"

text \<open>The values of one kind in a sequence.\<close>

definition picked :: "(stub_cmd \<Rightarrow> 'a option) \<Rightarrow> stub_cmd list \<Rightarrow> 'a list" where
  "picked f cs = List.map_filter f cs"

lemma picked_simps [simp]:
  "picked f [] = []" "picked f (c # cs) = (case f c of None \<Rightarrow> picked f cs | Some x \<Rightarrow> x # picked f cs)"
  by (simp_all add: picked_def map_filter_simps split: option.split)

lemma stub_cmds_state:
  assumes "stub_cmds cs s tr = (s', tr')"
  shows "g_stub_cam_mode s' = last (g_stub_cam_mode s # picked (\<lambda>c. case c of Cmd_Mode m \<Rightarrow> Some m | _ \<Rightarrow> None) cs) \<and>
         g_stub_zoom s' = last (g_stub_zoom s # picked (\<lambda>c. case c of Cmd_Zoom z \<Rightarrow> Some z | _ \<Rightarrow> None) cs) \<and>
         g_stub_recording s' = last (g_stub_recording s # picked (\<lambda>c. case c of Cmd_Record r \<Rightarrow> Some r | _ \<Rightarrow> None) cs) \<and>
         g_stub_gimbal_p s' = last (g_stub_gimbal_p s # picked (\<lambda>c. case c of Cmd_Gimbal a \<Rightarrow> Some (pitch a) | _ \<Rightarrow> None) cs)"
  using assms
proof (induction cs arbitrary: s tr)
  case (Cons c cs)
  obtain r s1 tr1 where c: "stub_cmd_step c s tr = (r, s1, tr1)" by (cases "stub_cmd_step c s tr") auto
  then have "stub_cmds cs s1 tr1 = (s', tr')" using Cons.prems by simp
  note IH = Cons.IH [OF this]
  show ?case using c IH by (cases c) (auto simp: stub_defs split: if_splits)
qed simp

text \<open>
  C31. After any sequence of settings and actions the stub reports the last camera mode, zoom factor,
  recording state and gimbal pitch that were set, or the earlier ones when none was set; the actions it
  does not keep anything of leave these alone.
\<close>

theorem stub_settings_read_back:
  assumes "stub_cmds cs s tr = (s', tr')"
  shows "stub_get_camera_state s' tr' =
      (Inr \<lparr>c_mode = last (g_stub_cam_mode s # picked (\<lambda>c. case c of Cmd_Mode m \<Rightarrow> Some m | _ \<Rightarrow> None) cs),
            c_is_recording = last (g_stub_recording s # picked (\<lambda>c. case c of Cmd_Record r \<Rightarrow> Some r | _ \<Rightarrow> None) cs),
            c_zoom_factor = last (g_stub_zoom s # picked (\<lambda>c. case c of Cmd_Zoom z \<Rightarrow> Some z | _ \<Rightarrow> None) cs)\<rparr>,
       s', tr') \<and>
    stub_get_gimbal_angle s' tr' =
      (Inr \<lparr>pitch = last (g_stub_gimbal_p s # picked (\<lambda>c. case c of Cmd_Gimbal a \<Rightarrow> Some (pitch a) | _ \<Rightarrow> None) cs),
            roll = lit32 0, yaw = lit32 0\<rparr>, s', tr')"
  using stub_cmds_state [OF assms]
  by (simp add: stub_get_camera_state_def stub_get_gimbal_angle_def del: last.simps)

theorem stub_settings_read_back_witness:
  "\<exists>s' tr'. stub_cmds [Cmd_Mode 1, Cmd_Record True, Cmd_Photo, Cmd_Zoom (Fin False 4)] stub_initial [] = (s', tr') \<and>
     stub_get_camera_state s' tr' = (Inr \<lparr>c_mode = 1, c_is_recording = True, c_zoom_factor = Fin False 4\<rparr>, s', tr')"
proof -
  let ?cs = "[Cmd_Mode 1, Cmd_Record True, Cmd_Photo, Cmd_Zoom (Fin False 4)]"
  obtain s' tr' where r: "stub_cmds ?cs stub_initial [] = (s', tr')" by fastforce
  show ?thesis using r stub_settings_read_back [OF r] by simp
qed

section \<open>The mock readings stay in range\<close>

lemma lit_bounds:
  "fp_bounded 23 (lit64 (225430 / 10000))" "fp_bounded 114 (lit64 (1139310 / 10000))"
  "fp_bounded 1 (lit64 (1 / 10000))"
  using fp_bounded_of_rat [of f64 "225430 / 10000" 23 False]
    fp_bounded_of_rat [of f64 "1139310 / 10000" 114 False]
    fp_bounded_of_rat [of f64 "1 / 10000" 1 False]
  by (simp_all add: lit64_def f64_def)

lemma fmod_bounded:
  assumes "in_range f x" and "0 < n"
  shows "fp_bounded n (fmod x (Fin False n))"
proof (cases x)
  case (Fin s m)
  show ?thesis using floor_divide_lower [OF assms(2), of m] floor_divide_upper [OF assms(2), of m] assms(2)
    by (simp add: Fin fp_bounded_def algebra_simps)
qed (use assms in \<open>auto simp: fp_bounded_def\<close>)

lemma to_f32_bounded:
  assumes "fp_bounded 360 x" shows "fp_bounded 360 (to_f32 x)"
proof (cases x)
  case (Fin s m)
  then have "0 \<le> m" "m \<le> 360" using assms by (auto simp: fp_bounded_def)
  then show ?thesis using fp_bounded_round [of f32 m 360 s] Fin by (simp add: f32_def)
qed (use assms in \<open>auto simp: fp_bounded_def\<close>)

lemma stub_telemetry_bounds:
  assumes "libm_ok e" and "stub_get_telemetry e s tr = (Inr t, s', tr')"
  shows "fp_bounded 24 (t_lat t)" and "fp_bounded 115 (t_lon t)" and "in_range f32 (t_alt_msl_m t)"
    and "fp_bounded 360 (t_heading_deg t)"
proof -
  let ?ts = "env_clock e (tr @ [Clock_Monotonic])"
  have sc: "fp_bounded 1 (env_sin e x)" "fp_bounded 1 (env_cos e x)" for x
    using assms(1) by (auto simp: libm_ok_def)
  have m: "fp_bounded 1 (fmul f64 (lit64 (1 / 10000)) y)" if "fp_bounded 1 y" for y
    using fp_bounded_fmul [OF _ lit_bounds(3) that, of f64 1] by (simp add: f64_def)
  show "fp_bounded 24 (t_lat t)" "fp_bounded 115 (t_lon t)"
    using assms(2) fp_bounded_fadd [OF _ lit_bounds(1) m [OF sc(1)], of f64 24]
      fp_bounded_fadd [OF _ lit_bounds(2) m [OF sc(2)], of f64 115]
    by (auto simp: stub_get_telemetry_def clock_gettime_def Let_def f64_def)
  have "in_range f32 (to_f32 (env_sin e x))" for x
    using in_range_to_f32 [OF bounded_in_range_f64 [OF sc(1)]] by simp
  then show "in_range f32 (t_alt_msl_m t)"
    using assms(2) by (auto simp: stub_get_telemetry_def clock_gettime_def Let_def
        intro!: in_range_fadd in_range_fmul in_range_lit32)
  have "in_range f64 (fmul f64 (stub_time ?ts) (lit64 5))"
    by (auto simp: stub_time_def fp_of_int_def
        intro!: in_range_fmul in_range_fadd in_range_lit64 in_range_fp_of_rat)
  then have "fp_bounded 360 (fmod (fmul f64 (stub_time ?ts) (lit64 5)) (lit64 360))"
    using fmod_bounded by (simp add: lit64_int)
  then have "fp_bounded 360 (to_f32 (fmod (fmul f64 (stub_time ?ts) (lit64 5)) (lit64 360)))"
    by (rule to_f32_bounded)
  then show "fp_bounded 360 (t_heading_deg t)"
    using assms(2) by (auto simp: stub_get_telemetry_def clock_gettime_def Let_def)
qed

text \<open>
  The mock position stays within 24 degrees of latitude and 115 of longitude and the mock heading
  within 360 degrees, whatever the clock shows, because the sine and cosine only move it by one unit in
  the fourth decimal and the heading is reduced by \<^verbatim>\<open>fmod\<close>.
\<close>

theorem stub_position_bounds:
  assumes "libm_ok e" and "stub_get_telemetry e s tr = (Inr t, s', tr')"
  shows "fp_bounded 24 (t_lat t) \<and> fp_bounded 115 (t_lon t) \<and> fp_bounded 360 (t_heading_deg t)"
  using stub_telemetry_bounds [OF assms] by simp

theorem stub_position_bounds_witness:
  "\<exists>t s' tr'. stub_get_telemetry env0 stub_initial [] = (Inr t, s', tr') \<and>
     fp_bounded 24 (t_lat t) \<and> fp_bounded 115 (t_lon t) \<and> fp_bounded 360 (t_heading_deg t)"
proof -
  obtain t s' tr' where r: "stub_get_telemetry env0 stub_initial [] = (Inr t, s', tr')"
    by (simp add: stub_get_telemetry_def clock_gettime_def Let_def)
  show ?thesis using r stub_position_bounds [OF env0_libm r] by blast
qed

end
