(* ===== verification/Linked_Builds.thy ===== *)
theory Linked_Builds
  imports Handler_Spec Drone_Stub Drone_Real_Props
begin

text \<open>
  The two builds of the daemon: \<^verbatim>\<open>handle_rpc\<close> linked against the stub and against the PSDK provider.
  Each provider's interpretation of \<open>drone_bsp\<close> gives the facts that make its handler a callback the
  UDP server may use.
\<close>

interpretation stub_rpc: udp_handler
  "handle_rpc e (stub_ops e) jl" "\<lambda>s. json_lib_ok jl \<and> stub_inv (hs_bsp s)"
  by unfold_locales (rule drone_bsp.handle_rpc_contract [OF stub.drone_bsp_axioms]; assumption)+

interpretation real_rpc: udp_handler
  "handle_rpc e (real_ops e) jl" "\<lambda>s. json_lib_ok jl \<and> real_inv (hs_bsp s)"
  by unfold_locales (rule drone_bsp.handle_rpc_contract [OF real.drone_bsp_axioms]; assumption)+

section \<open>Readings stay within the reply buffers\<close>

text \<open>
  What the SDK documents of its samples: positions are in radians and gimbal angles in degrees. The
  zoom factor it reports is a \<^verbatim>\<open>float\<close>.
\<close>

definition real_samples_ok :: "real_state \<Rightarrow> bool" where
  "real_samples_ok s \<longleftrightarrow>
     fp_bounded 4 (p_latitude (g_pos_fused s)) \<and> fp_bounded 4 (p_longitude (g_pos_fused s)) \<and>
     fp_bounded 1000 (gs_y (g_gimbal s)) \<and> fp_bounded 1000 (gs_z (g_gimbal s))"

definition zoom_ok :: "env \<Rightarrow> bool" where
  "zoom_ok e \<longleftrightarrow> (\<forall>tr. in_range f32 (env_zoom e tr))"

definition real_wire_inv :: "env \<Rightarrow> real_state \<Rightarrow> bool" where
  "real_wire_inv e s \<longleftrightarrow> real_inv s \<and> real_samples_ok s \<and> libm_ok e \<and> zoom_ok e"

definition stub_wire_inv :: "env \<Rightarrow> stub_state \<Rightarrow> bool" where
  "stub_wire_inv e s \<longleftrightarrow> stub_inv s \<and> libm_ok e"

lemma bounded_big: "fp_bounded a x \<Longrightarrow> a \<le> 1000 \<Longrightarrow> fp_bounded (10 ^ 20) x"
  by (erule fp_bounded_weaken) simp

lemma fzero_ok: "fp_bounded (10 ^ 20) fzero" "in_range f32 fzero" "in_range f32 (Fin False 1)"
  by (simp_all add: fp_bounded_def in_range_def f32_def pow2_def)

interpretation stub_wire: bounded_bsp "stub_ops e" "stub_wire_inv e"
proof (intro bounded_bsp.intro bounded_bsp_axioms.intro)
  show "drone_bsp (stub_ops e) (stub_wire_inv e)"
    using drone_bsp_const [OF stub.drone_bsp_axioms] unfolding stub_wire_inv_def [abs_def] .
next
  fix s tr t s' tr'
  assume "stub_wire_inv e s" and g: "op_get_telemetry (stub_ops e) s tr = (Inr t, s', tr')"
  then have m: "libm_ok e" and g: "stub_get_telemetry e s tr = (Inr t, s', tr')"
    by (auto simp: stub_wire_inv_def stub_ops_def)
  note b = stub_telemetry_bounds [OF m g]
  have "in_range f32 (t_heading_deg t)" using b(4) by (rule bounded_in_range_f32) simp
  moreover have "in_range f32 (t_alt_rel_m t)" "in_range f32 (t_vx_ms t)" "in_range f32 (t_vy_ms t)"
      "in_range f32 (t_vz_ms t)"
    using g by (auto simp: stub_get_telemetry_def clock_gettime_def Let_def in_range_lit32 fzero_ok)
  ultimately show "telemetry_ok t"
    using bounded_big [OF b(1)] bounded_big [OF b(2)] b(3) by (simp add: telemetry_ok_def)
qed (auto simp: stub_ops_def stub_defs stub_wire_inv_def stub_inv_def gimbal_reading_ok_def
      camera_ok_def rtk_ok_def zero_rtk_def fp_bounded_def in_range_def)

interpretation real_wire: bounded_bsp "real_ops e" "real_wire_inv e"
proof (intro bounded_bsp.intro bounded_bsp_axioms.intro)
  show "drone_bsp (real_ops e) (real_wire_inv e)"
    by (rule real_bsp) (auto simp: flag_free_def real_wire_inv_def real_inv_def real_samples_ok_def)
next
  fix s tr t s' tr'
  assume I: "real_wire_inv e s" and g: "op_get_telemetry (real_ops e) s tr = (Inr t, s', tr')"
  have "in_range f32 (quat_to_heading e (g_quat s))"
    using quat_to_heading_range [of e "g_quat s"] I
    by (intro bounded_in_range_f32 [of 360]) (auto simp: real_wire_inv_def fp_bounded_def)
  then show "telemetry_ok t" using I
    rad_to_deg_bounded [THEN bounded_big, of "p_latitude (g_pos_fused s)"]
    rad_to_deg_bounded [THEN bounded_big, of "p_longitude (g_pos_fused s)"]
    real_telemetry_fields [of e s tr t s' tr'] g
    by (auto simp: telemetry_ok_def real_wire_inv_def real_inv_def real_samples_ok_def real_ops_def)
next
  fix s tr c s' tr'
  assume "real_wire_inv e s" and "op_get_camera_state (real_ops e) s tr = (Inr c, s', tr')"
  then show "camera_ok c"
    by (auto simp: real_wire_inv_def zoom_ok_def real_ops_def real_get_camera_state_def dji_def Let_def
        camera_ok_def CAMERA_MODE_PHOTO_def CAMERA_MODE_VIDEO_def fzero_ok split: if_splits)
qed (auto simp: real_ops_def real_get_gimbal_angle_def real_get_rtk_status_def real_wire_inv_def
      real_inv_def real_samples_ok_def gimbal_reading_ok_def rtk_ok_def zero_rtk_def fzero_ok [simplified]
      intro: bounded_big [simplified])

text \<open>A state of the handlers with an open socket.\<close>

definition served_by :: "'b \<Rightarrow> 'b handler_state" where
  "served_by b = (handler_initial b)\<lparr>g_srv := Some 3\<rparr>"

lemma served_by_sel [simp]: "hs_bsp (served_by b) = b" "g_srv (served_by b) = Some 3"
  by (simp_all add: served_by_def handler_initial_def)

section \<open>From the datagram to the request\<close>

lemma udp_receive_parse:
  assumes "length (us_recv_buf srv) = DRONE_MAX_MSG_LEN"
    and "udp_receive e timeout srv tr = (srv', Some (peer, line, len), tr')"
  shows "\<exists>dgram. env_datagram e tr' = (peer, dgram) \<and> 0 < len \<and> len < 4096 \<and>
           take len line = strip_suffix udp_ws (take 4095 dgram) \<and> line ! len = NUL \<and>
           rpc_parse jl line = rpc_parse jl (strip_suffix udp_ws (take 4095 dgram)) \<and>
           us_fd srv' = us_fd srv \<and> length (us_recv_buf srv') = DRONE_MAX_MSG_LEN"
proof -
  obtain dgram where d: "env_datagram e tr' = (peer, dgram)"
      "take len line = strip_suffix udp_ws (take (DRONE_MAX_MSG_LEN - 1) dgram)"
      "0 < len" "len < DRONE_MAX_MSG_LEN" "length line = DRONE_MAX_MSG_LEN" "line ! len = NUL"
      "us_recv_buf srv' = line" "us_fd srv' = us_fd srv"
    using udp_receive_spec [OF assms(2,1)] by blast
  have "cstr line = cstr (take len line)" using d by (intro cstr_take_nth) auto
  then have "rpc_parse jl line = rpc_parse jl (take len line)" by (simp add: rpc_parse_def)
  then show ?thesis using d by (auto simp: drone_limits)
qed

text \<open>A server of the sample environment, which receives the same datagram in every turn.\<close>

definition fresh_server :: UdpServer where
  "fresh_server = \<lparr>us_fd = 3, us_recv_buf = replicate DRONE_MAX_MSG_LEN NUL\<rparr>"

lemma fresh_server_sel: "length (us_recv_buf fresh_server) = DRONE_MAX_MSG_LEN" "us_fd fresh_server = 3"
  by (simp_all add: fresh_server_def)

lemma sample_receive:
  "\<exists>srv' line len tr'. udp_receive env0 500 fresh_server tr = (srv', Some (peer0, line, len), tr') \<and>
     (\<forall>docs. rpc_parse (table_lib docs) line = rpc_parse (table_lib docs) ''ping'')"
proof -
  let ?buf = "((''ping'' @ [LF]) @ drop 5 (us_recv_buf fresh_server))[5 := NUL]"
  obtain b n where s: "udp_strip ?buf 5 = (b, n)" by fastforce
  have "take n b = strip_suffix udp_ws (''ping'' @ [LF])"
    using udp_strip_spec [OF _ s] fresh_server_sel by (simp add: drone_limits)
  moreover have p: "strip_suffix udp_ws (''ping'' @ [LF]) = ''ping''" by code_simp
  ultimately have "n \<noteq> 0" by (intro notI) simp
  moreover have five: "Suc (Suc (Suc (Suc (Suc 0)))) = 5" by simp
  ultimately obtain srv' line len tr' where r: "udp_receive env0 500 fresh_server tr = (srv', Some (peer0, line, len), tr')"
    using s by (simp add: udp_receive_def Let_def five recvfrom_def libc_def ret0_def drone_limits fresh_server_def)
  have "strip_suffix udp_ws (take 4095 (''ping'' @ [LF])) = ''ping''" by code_simp
  then have "rpc_parse (table_lib docs) line = rpc_parse (table_lib docs) ''ping''" for docs
    using udp_receive_parse [OF fresh_server_sel(1) r, of "table_lib docs"] by auto
  then show ?thesis using r by blast
qed

end
