(* ===== verification/Log_Facility.thy ===== *)
theory Log_Facility
  imports Drone_Types
begin

text \<open>
  \<^verbatim>\<open>core/log/log.c\<close>: the level filter and the line each call writes. The local wall-clock text that
  \<^verbatim>\<open>localtime_r\<close> and \<^verbatim>\<open>strftime\<close> give for the call is an argument, as is the text the \<^verbatim>\<open>printf\<close> format
  expands to; both output streams are lists of lines, oldest first.
\<close>

section \<open>Levels\<close>

datatype LogLevel = LOG_DEBUG | LOG_INFO | LOG_WARN | LOG_ERROR

fun level_rank :: "LogLevel \<Rightarrow> nat" where
  "level_rank LOG_DEBUG = 0"
| "level_rank LOG_INFO = 1"
| "level_rank LOG_WARN = 2"
| "level_rank LOG_ERROR = 3"

lemma level_rank_inj: "level_rank a = level_rank b \<longleftrightarrow> a = b"
  by (cases a; cases b) auto

instantiation LogLevel :: linorder
begin

definition less_eq_LogLevel :: "LogLevel \<Rightarrow> LogLevel \<Rightarrow> bool" where
  "a \<le> b \<longleftrightarrow> level_rank a \<le> level_rank b"

definition less_LogLevel :: "LogLevel \<Rightarrow> LogLevel \<Rightarrow> bool" where
  "a < b \<longleftrightarrow> level_rank a < level_rank b"

instance
  by standard (auto simp: less_eq_LogLevel_def less_LogLevel_def level_rank_inj)

end

section \<open>Writing a line\<close>

record log_state =
  g_level :: LogLevel
  stdout_lines :: "string list"
  stderr_lines :: "string list"

definition log_init :: log_state where
  "log_init = \<lparr>g_level = LOG_INFO, stdout_lines = [], stderr_lines = []\<rparr>"

definition log_set_level :: "LogLevel \<Rightarrow> log_state \<Rightarrow> log_state" where
  "log_set_level level st = st\<lparr>g_level := level\<rparr>"

fun level_str :: "LogLevel \<Rightarrow> string" where
  "level_str LOG_DEBUG = ''DBG''"
| "level_str LOG_INFO = ''INF''"
| "level_str LOG_WARN = ''WRN''"
| "level_str LOG_ERROR = ''ERR''"

text \<open>\<open>timebuf\<close> is the 24-byte buffer \<^verbatim>\<open>strftime\<close> fills; \<open>nsec\<close> the nanoseconds of the reading.\<close>

definition log_line :: "LogLevel \<Rightarrow> string \<Rightarrow> string \<Rightarrow> string \<Rightarrow> int \<Rightarrow> string" where
  "log_line level tag msg timebuf nsec =
     ''['' @ timebuf @ ''.'' @ zero_pad 3 (dec (nsec div 1000000)) @ ''] ['' @
     level_str level @ ''] ['' @ tag @ ''] '' @ msg @ [LF]"

definition log_write ::
    "LogLevel \<Rightarrow> string \<Rightarrow> string \<Rightarrow> string \<Rightarrow> int \<Rightarrow> log_state \<Rightarrow> log_state" where
  "log_write level tag msg timebuf nsec st =
     (if level < g_level st then st
      else if LOG_WARN \<le> level
      then st\<lparr>stderr_lines := stderr_lines st @ [log_line level tag msg timebuf nsec]\<rparr>
      else st\<lparr>stdout_lines := stdout_lines st @ [log_line level tag msg timebuf nsec]\<rparr>)"

definition log_debug where "log_debug = log_write LOG_DEBUG"
definition log_info where "log_info = log_write LOG_INFO"
definition log_warn where "log_warn = log_write LOG_WARN"
definition log_error where "log_error = log_write LOG_ERROR"

section \<open>Properties\<close>

lemma log_write_level [simp]: "g_level (log_write l tag msg tb ns st) = g_level st"
  by (simp add: log_write_def)

text \<open>A sequence of log calls, given as (level, tag, message, time text, nanoseconds).\<close>

fun log_run ::
    "(LogLevel \<times> string \<times> string \<times> string \<times> int) list \<Rightarrow> log_state \<Rightarrow> log_state" where
  "log_run [] st = st"
| "log_run ((l, tag, msg, tb, ns) # cs) st = log_run cs (log_write l tag msg tb ns st)"

definition log_lines ::
    "(LogLevel \<Rightarrow> bool) \<Rightarrow> (LogLevel \<times> string \<times> string \<times> string \<times> int) list \<Rightarrow> string list" where
  "log_lines keep cs =
     map (\<lambda>(l, tag, msg, tb, ns). log_line l tag msg tb ns) (filter (\<lambda>(l, _). keep l) cs)"

text \<open>
  C22. Over any sequence of log calls, standard output receives exactly the lines of the calls at or
  above the level and below warning, standard error those at or above the level from warning on, each
  stream in the order of the calls.
\<close>

theorem log_run_streams:
  "stdout_lines (log_run cs st) =
     stdout_lines st @ log_lines (\<lambda>l. g_level st \<le> l \<and> l < LOG_WARN) cs \<and>
   stderr_lines (log_run cs st) =
     stderr_lines st @ log_lines (\<lambda>l. g_level st \<le> l \<and> LOG_WARN \<le> l) cs"
proof (induction cs arbitrary: st)
  case Nil
  then show ?case by (simp add: log_lines_def)
next
  case (Cons c cs)
  obtain l tag msg tb ns where c: "c = (l, tag, msg, tb, ns)" by (cases c) auto
  show ?case using Cons.IH [of "log_write l tag msg tb ns st"]
    by (auto simp: c log_lines_def log_write_def not_less)
qed

end
