(* ===== verification/Psdk_Platform.thy ===== *)
theory Psdk_Platform
  imports Sample_Env Log_Facility
begin

text \<open>
  \<^verbatim>\<open>bsp/psdk_hal.c\<close> and \<^verbatim>\<open>bsp/psdk_init.c\<close>: registering the platform with the SDK, starting and
  stopping its core. The transport selected at compile time is an argument, so that the three
  \<^verbatim>\<open>#if\<close> branches are modelled; the application credentials and the sizes of the SDK's arrays they
  are copied to are arguments too. Both functions run a fixed plan of SDK calls, of which some may
  fail; the plan is stated separately and the functions are shown to follow it.
\<close>

section \<open>Console callback\<close>

definition console_eol :: "char \<Rightarrow> bool" where
  "console_eol c \<longleftrightarrow> c = LF \<or> c = CR"

text \<open>
  \<open>data\<close> is the given number of bytes. The contents of the 512-byte stack buffer before the copy is
  the argument \<open>stack\<close>.
\<close>

definition psdk_console_cb :: "string \<Rightarrow> string \<Rightarrow> string \<Rightarrow> int \<Rightarrow> log_state \<Rightarrow> log_state" where
  "psdk_console_cb stack data timebuf nsec st =
     (let copy = (if length data < 512 - 1 then length data else 512 - 1);
          buf = take copy data @ drop copy stack;
          buf = buf[copy := NUL];
          (buf, copy) = strip_loop console_eol buf copy
      in if 0 < copy then log_debug ''bsp.psdk'' (cstr buf) timebuf nsec st else st)"

section \<open>Platform registration\<close>

datatype hw_connection =
    DJI_USE_ONLY_UART
  | DJI_USE_UART_AND_USB_BULK_DEVICE
  | DJI_USE_UART_AND_NETWORK_DEVICE

definition CONFIG_HARDWARE_CONNECTION :: hw_connection where
  "CONFIG_HARDWARE_CONNECTION = DJI_USE_UART_AND_NETWORK_DEVICE"

definition osal_handler :: handler_table where
  "osal_handler =
     [(''TaskCreate'', ''Osal_TaskCreate''), (''TaskDestroy'', ''Osal_TaskDestroy''),
      (''TaskSleepMs'', ''Osal_TaskSleepMs''), (''MutexCreate'', ''Osal_MutexCreate''),
      (''MutexDestroy'', ''Osal_MutexDestroy''), (''MutexLock'', ''Osal_MutexLock''),
      (''MutexUnlock'', ''Osal_MutexUnlock''), (''SemaphoreCreate'', ''Osal_SemaphoreCreate''),
      (''SemaphoreDestroy'', ''Osal_SemaphoreDestroy''), (''SemaphoreWait'', ''Osal_SemaphoreWait''),
      (''SemaphoreTimedWait'', ''Osal_SemaphoreTimedWait''), (''SemaphorePost'', ''Osal_SemaphorePost''),
      (''Malloc'', ''Osal_Malloc''), (''Free'', ''Osal_Free''),
      (''GetTimeMs'', ''Osal_GetTimeMs''), (''GetTimeUs'', ''Osal_GetTimeUs''),
      (''GetRandomNum'', ''Osal_GetRandomNum'')]"

definition uart_handler :: handler_table where
  "uart_handler =
     [(''UartInit'', ''HalUart_Init''), (''UartDeInit'', ''HalUart_DeInit''),
      (''UartWriteData'', ''HalUart_WriteData''), (''UartReadData'', ''HalUart_ReadData''),
      (''UartGetStatus'', ''HalUart_GetStatus'')]"

definition usb_bulk_handler :: handler_table where
  "usb_bulk_handler =
     [(''UsbBulkInit'', ''HalUsbBulk_Init''), (''UsbBulkDeInit'', ''HalUsbBulk_DeInit''),
      (''UsbBulkWriteData'', ''HalUsbBulk_WriteData''), (''UsbBulkReadData'', ''HalUsbBulk_ReadData''),
      (''UsbBulkGetDeviceInfo'', ''HalUsbBulk_GetDeviceInfo'')]"

definition network_handler :: handler_table where
  "network_handler =
     [(''NetworkInit'', ''HalNetWork_Init''), (''NetworkDeInit'', ''HalNetWork_DeInit''),
      (''NetworkGetDeviceInfo'', ''HalNetWork_GetDeviceInfo'')]"

definition socket_handler :: handler_table where
  "socket_handler =
     [(''Socket'', ''Osal_Socket''), (''Bind'', ''Osal_Bind''),
      (''Close'', ''Osal_Close''), (''UdpSendData'', ''Osal_UdpSendData''),
      (''UdpRecvData'', ''Osal_UdpRecvData''), (''TcpListen'', ''Osal_TcpListen''),
      (''TcpAccept'', ''Osal_TcpAccept''), (''TcpConnect'', ''Osal_TcpConnect''),
      (''TcpSendData'', ''Osal_TcpSendData''), (''TcpRecvData'', ''Osal_TcpRecvData'')]"

definition fs_handler :: handler_table where
  "fs_handler =
     [(''FileOpen'', ''Osal_FileOpen''), (''FileClose'', ''Osal_FileClose''),
      (''FileWrite'', ''Osal_FileWrite''), (''FileRead'', ''Osal_FileRead''),
      (''FileSync'', ''Osal_FileSync''), (''FileSeek'', ''Osal_FileSeek''),
      (''DirOpen'', ''Osal_DirOpen''), (''DirClose'', ''Osal_DirClose''),
      (''DirRead'', ''Osal_DirRead''), (''Mkdir'', ''Osal_Mkdir''),
      (''Unlink'', ''Osal_Unlink''), (''Rename'', ''Osal_Rename''),
      (''Stat'', ''Osal_Stat'')]"

text \<open>The transport branch; the UART-only build registers nothing more.\<close>

definition reg_transport :: "env \<Rightarrow> hw_connection \<Rightarrow> trace \<Rightarrow> bool \<times> trace" where
  "reg_transport e cfg tr =
     (case cfg of
        DJI_USE_UART_AND_USB_BULK_DEVICE \<Rightarrow>
          dji e (Core (DjiPlatform_RegHalUsbBulkHandler usb_bulk_handler)) tr
      | DJI_USE_UART_AND_NETWORK_DEVICE \<Rightarrow>
          dji e (Core (DjiPlatform_RegHalNetworkHandler network_handler)) tr
      | DJI_USE_ONLY_UART \<Rightarrow> (True, tr))"

definition psdk_hal_register :: "env \<Rightarrow> hw_connection \<Rightarrow> trace \<Rightarrow> int \<times> trace" where
  "psdk_hal_register e cfg tr =
     (let (ok, tr) = dji e (Core (DjiPlatform_RegOsalHandler osal_handler)) tr in
      if \<not> ok then (-1, tr) else
      let (ok, tr) = dji e (Core (DjiPlatform_RegHalUartHandler uart_handler)) tr in
      if \<not> ok then (-1, tr) else
      let (_, tr) = dji e (Core DjiLogger_AddConsole) tr;
          (ok, tr) = reg_transport e cfg tr in
      if \<not> ok then (-1, tr) else
      let (ok, tr) = dji e (Core (DjiPlatform_RegSocketHandler socket_handler)) tr in
      if \<not> ok then (-1, tr) else
      let (ok, tr) = dji e (Core (DjiPlatform_RegFileSystemHandler fs_handler)) tr in
      if \<not> ok then (-1, tr) else (0, tr))"

definition stub_psdk_hal_register :: "trace \<Rightarrow> int \<times> trace" where
  "stub_psdk_hal_register tr = (0, tr)"

section \<open>Core start and stop\<close>

text \<open>\<^verbatim>\<open>strncpy(dst, src, sizeof(dst) - 1)\<close> into an array of \<open>sz\<close> zero bytes.\<close>

definition strncpy_zeroed :: "nat \<Rightarrow> string \<Rightarrow> string" where
  "strncpy_zeroed sz src =
     (let t = take (sz - 1) (cstr src) in t @ replicate (sz - length t) NUL)"

record user_info_sizes =
  sz_appName :: nat
  sz_appId :: nat
  sz_appKey :: nat
  sz_appLicense :: nat
  sz_developerAccount :: nat
  sz_baudRate :: nat

definition fill_user_info :: "user_info_sizes \<Rightarrow> user_info \<Rightarrow> user_info" where
  "fill_user_info z u =
     \<lparr>appName = strncpy_zeroed (sz_appName z) (appName u),
      appId = strncpy_zeroed (sz_appId z) (appId u),
      appKey = strncpy_zeroed (sz_appKey z) (appKey u),
      appLicense = strncpy_zeroed (sz_appLicense z) (appLicense u),
      developerAccount = strncpy_zeroed (sz_developerAccount z) (developerAccount u),
      baudRate = strncpy_zeroed (sz_baudRate z) (baudRate u)\<rparr>"

definition real_psdk_init ::
    "env \<Rightarrow> hw_connection \<Rightarrow> user_info_sizes \<Rightarrow> user_info \<Rightarrow> trace \<Rightarrow> int \<times> trace" where
  "real_psdk_init e cfg z u tr =
     (let (r, tr) = psdk_hal_register e cfg tr in
      if r \<noteq> 0 then (-1, tr) else
      let user_info = fill_user_info z u;
          (ok, tr) = dji e (Core (DjiCore_Init user_info)) tr in
      if \<not> ok then (-1, tr) else
      let (_, tr) = dji e (Core (DjiCore_SetAlias ''PSDK-Bridge'')) tr;
          (_, tr) = dji e (Core (DjiCore_SetFirmwareVersion 1 0 0 0)) tr;
          (_, tr) = dji e (Core (DjiCore_SetSerialNumber ''OPSDK00000001'')) tr;
          (ok, tr) = dji e (Core DjiCore_ApplicationStart) tr in
      if \<not> ok then (-1, tr) else (0, tr))"

definition real_psdk_deinit :: "env \<Rightarrow> trace \<Rightarrow> trace" where
  "real_psdk_deinit e tr = snd (dji e (Core DjiCore_DeInit) tr)"

definition stub_psdk_init :: "trace \<Rightarrow> int \<times> trace" where
  "stub_psdk_init tr = (let (_, tr) = stub_psdk_hal_register tr in (0, tr))"

definition stub_psdk_deinit :: "trace \<Rightarrow> trace" where
  "stub_psdk_deinit tr = tr"

section \<open>The plan of calls\<close>

text \<open>A plan lists the calls in order, each with whether its failure ends the run.\<close>

fun run_plan :: "env \<Rightarrow> (core_call \<times> bool) list \<Rightarrow> trace \<Rightarrow> int \<times> trace" where
  "run_plan e [] tr = (0, tr)"
| "run_plan e ((c, fatal) # cs) tr =
     (if fatal \<and> \<not> env_dji_ok e (tr @ [Core c]) then (-1, tr @ [Core c])
      else run_plan e cs (tr @ [Core c]))"

definition hal_plan :: "hw_connection \<Rightarrow> (core_call \<times> bool) list" where
  "hal_plan cfg =
     [(DjiPlatform_RegOsalHandler osal_handler, True),
      (DjiPlatform_RegHalUartHandler uart_handler, True),
      (DjiLogger_AddConsole, False)] @
     (case cfg of
        DJI_USE_UART_AND_USB_BULK_DEVICE \<Rightarrow> [(DjiPlatform_RegHalUsbBulkHandler usb_bulk_handler, True)]
      | DJI_USE_UART_AND_NETWORK_DEVICE \<Rightarrow> [(DjiPlatform_RegHalNetworkHandler network_handler, True)]
      | DJI_USE_ONLY_UART \<Rightarrow> []) @
     [(DjiPlatform_RegSocketHandler socket_handler, True),
      (DjiPlatform_RegFileSystemHandler fs_handler, True)]"

definition core_plan :: "user_info \<Rightarrow> (core_call \<times> bool) list" where
  "core_plan u =
     [(DjiCore_Init u, True), (DjiCore_SetAlias ''PSDK-Bridge'', False),
      (DjiCore_SetFirmwareVersion 1 0 0 0, False), (DjiCore_SetSerialNumber ''OPSDK00000001'', False),
      (DjiCore_ApplicationStart, True)]"

section \<open>Lemmas\<close>

lemma run_plan_append:
  "run_plan e (a @ b) tr =
     (case run_plan e a tr of (r, tr) \<Rightarrow> if r \<noteq> 0 then (r, tr) else run_plan e b tr)"
  by (induction e a tr rule: run_plan.induct) auto

lemma run_plan_code: "run_plan e cs tr = (r, tr') \<Longrightarrow> r = 0 \<or> r = -1"
  by (induction e cs tr rule: run_plan.induct) (auto split: if_splits)

text \<open>A run that succeeds made every call; one that fails made the calls up to a fatal failure.\<close>

lemma run_plan_ok:
  "run_plan e cs tr = (0, tr') \<Longrightarrow> tr' = tr @ map (\<lambda>c. Core (fst c)) cs"
  by (induction e cs tr rule: run_plan.induct) (auto split: if_splits)

lemma run_plan_failed:
  assumes "run_plan e cs tr = (r, tr')" and "r \<noteq> 0"
  shows "\<exists>made c rest. cs = made @ (c, True) # rest \<and> tr' = tr @ map (\<lambda>c. Core (fst c)) made @ [Core c] \<and>
           \<not> env_dji_ok e tr'"
  using assms
proof (induction e cs tr rule: run_plan.induct)
  case (2 e c fatal cs tr)
  show ?case
  proof (cases "fatal \<and> \<not> env_dji_ok e (tr @ [Core c])")
    case True
    then show ?thesis using 2(2,3) by (intro exI [of _ "[]"]) auto
  next
    case False
    then obtain made c' rest where "cs = made @ (c', True) # rest"
        "tr' = (tr @ [Core c]) @ map (\<lambda>c. Core (fst c)) made @ [Core c']" "\<not> env_dji_ok e tr'"
      using 2(1) [OF False] 2(2,3) False by (simp only: run_plan.simps if_False) blast
    then show ?thesis by (intro exI [of _ "(c, fatal) # made"] exI [of _ c'] exI [of _ rest]) simp
  qed
qed simp

lemma psdk_hal_register_plan: "psdk_hal_register e cfg tr = run_plan e (hal_plan cfg) tr"
  by (cases cfg)
     (simp_all add: psdk_hal_register_def reg_transport_def hal_plan_def dji_def Let_def)

lemma real_psdk_init_plan:
  "real_psdk_init e cfg z u tr = run_plan e (hal_plan cfg @ core_plan (fill_user_info z u)) tr"
proof (cases "run_plan e (hal_plan cfg) tr")
  case (Pair r tr1)
  then show ?thesis using run_plan_code [OF Pair]
    by (auto simp: real_psdk_init_def psdk_hal_register_plan run_plan_append core_plan_def dji_def Let_def)
qed

text \<open>
  C32. Starting the SDK performs the fixed plan of calls, in order: the two mandatory handlers, the
  console, the handler of the configured transport if it has one, sockets and files, then the core
  with the credentials as bounded copies, its three properties, and the start of the application; it
  stops at the first failing call that is mandatory.
\<close>

theorem psdk_init_follows_plan:
  "real_psdk_init e cfg z u tr = run_plan e (hal_plan cfg @ core_plan (fill_user_info z u)) tr"
  by (rule real_psdk_init_plan)

text \<open>
  How starting the SDK ends: with 0 after every call of the plan, or with -1 right after a mandatory
  call that failed, the calls before it made in the order of the plan and none after it.
\<close>

theorem psdk_init_outcome:
  assumes "real_psdk_init e cfg z u tr = (r, tr')"
  defines "plan \<equiv> hal_plan cfg @ core_plan (fill_user_info z u)"
  shows "r = 0 \<and> tr' = tr @ map (\<lambda>c. Core (fst c)) plan \<or>
         r = -1 \<and> \<not> env_dji_ok e tr' \<and>
           (\<exists>made c rest. plan = made @ (c, True) # rest \<and> tr' = tr @ map (\<lambda>c. Core (fst c)) made @ [Core c])"
proof -
  have p: "run_plan e plan tr = (r, tr')" using assms by (simp add: real_psdk_init_plan plan_def)
  show ?thesis
  proof (cases "r = 0")
    case True
    then show ?thesis using run_plan_ok p by blast
  next
    case False
    then show ?thesis using run_plan_code [OF p] run_plan_failed [OF p False] by blast
  qed
qed

definition sample_sizes :: user_info_sizes where
  "sample_sizes = \<lparr>sz_appName = 32, sz_appId = 16, sz_appKey = 32, sz_appLicense = 512,
                   sz_developerAccount = 64, sz_baudRate = 7\<rparr>"

definition sample_user :: user_info where
  "sample_user = \<lparr>appName = ''bridge'', appId = ''1'', appKey = ''k'', appLicense = ''l'',
                  developerAccount = ''d'', baudRate = ''921600''\<rparr>"

theorem psdk_init_outcome_witness:
  "\<exists>r tr'. real_psdk_init env0 CONFIG_HARDWARE_CONNECTION sample_sizes sample_user [] = (r, tr') \<and>
     (r = 0 \<and> tr' = map (\<lambda>c. Core (fst c))
         (hal_plan CONFIG_HARDWARE_CONNECTION @ core_plan (fill_user_info sample_sizes sample_user)) \<or> r = -1)"
proof -
  obtain r tr' where p: "real_psdk_init env0 CONFIG_HARDWARE_CONNECTION sample_sizes sample_user [] = (r, tr')"
    by fastforce
  show ?thesis using p psdk_init_outcome [OF p] by auto
qed

lemma strncpy_zeroed_spec:
  assumes "0 < sz"
  shows "length (strncpy_zeroed sz src) = sz \<and> last (strncpy_zeroed sz src) = NUL \<and>
         cstr (strncpy_zeroed sz src) = take (sz - 1) (cstr src)"
proof -
  let ?t = "take (sz - 1) (cstr src)"
  have t: "NUL \<notin> set ?t" using cstr_no_NUL [of src] by (auto dest: in_set_takeD)
  have l: "length ?t < sz" using assms by simp
  then obtain k where k: "sz - length ?t = Suc k" by (metis Suc_diff_Suc)
  have "cstr (?t @ replicate (Suc k) NUL) = ?t"
    using cstr_stop [OF t] by simp
  moreover have "last (?t @ replicate (Suc k) NUL) = NUL"
    by (metis append_is_Nil_conv last_appendR last_replicate nat.simps(3) replicate_empty)
  moreover have "length (?t @ replicate (Suc k) NUL) = sz" using k l by (simp del: length_take)
  ultimately show ?thesis unfolding strncpy_zeroed_def Let_def k by blast
qed

text \<open>
  What the console callback logs, whatever its uninitialised stack buffer held: the first 511 bytes
  with their trailing line ends removed, up to the first NUL; nothing when only line ends remain.
\<close>

theorem psdk_console_cb_spec:
  assumes "length stack = 512"
  shows "psdk_console_cb stack data tb ns st =
     (let msg = strip_suffix console_eol (take 511 data)
      in if msg = [] then st else log_debug ''bsp.psdk'' (cstr msg) tb ns st)"
proof -
  define copy where "copy = (if length data < 512 - 1 then length data else 512 - 1)"
  define buf where "buf = (take copy data @ drop copy stack)[copy := NUL]"
  obtain b n where s: "strip_loop console_eol buf copy = (b, n)" by fastforce
  have c: "copy \<le> 511" "take copy data = take 511 data" "length (take copy data) = copy"
    by (auto simp: copy_def)
  then have lb: "length buf = 512" using assms by (simp add: buf_def)
  then have le: "copy \<le> length buf" using c by simp
  note sp = strip_loop_spec [OF le s]
  have tk: "take copy buf = take 511 data" using c(2,3) by (simp add: buf_def)
  have nn: "b ! n = NUL"
  proof (cases "n < copy")
    case False
    then have "n = copy" using sp by simp
    moreover have "b ! copy = buf ! copy" using sp lb c by (intro drop_nth_eq) auto
    moreover have "buf ! copy = NUL" using lb c by (simp add: buf_def)
    ultimately show ?thesis by simp
  qed (use sp in simp)
  have "cstr b = cstr (take n b)" using nn sp lb c by (intro cstr_take_nth) auto
  moreover have "take n b = strip_suffix console_eol (take 511 data)" using sp tk by simp
  moreover have "n \<le> length b" using sp lb c by auto
  then have "length (take n b) = n" by simp
  ultimately have r: "cstr b = cstr (strip_suffix console_eol (take 511 data))"
      "0 < n \<longleftrightarrow> strip_suffix console_eol (take 511 data) \<noteq> []"
    by (simp_all flip: length_greater_0_conv)
  show ?thesis
    unfolding psdk_console_cb_def Let_def copy_def [symmetric] buf_def [symmetric] s
    using r by simp
qed

theorem psdk_console_cb_spec_witness:
  "psdk_console_cb (replicate 512 (CHR ''x'')) (''hi'' @ [CR, LF]) ''t'' 0 (log_set_level LOG_DEBUG log_init) =
     log_debug ''bsp.psdk'' ''hi'' ''t'' 0 (log_set_level LOG_DEBUG log_init)"
proof -
  have "strip_suffix console_eol (take 511 (''hi'' @ [CR, LF])) = ''hi''" by code_simp
  then show ?thesis using psdk_console_cb_spec [of "replicate 512 (CHR ''x'')" "''hi'' @ [CR, LF]"]
    by (simp add: cstr_id)
qed

end
