(* ===== verification/Daemon_Main.thy ===== *)
theory Daemon_Main
  imports Linked_Builds Psdk_Platform
begin

text \<open>
  \<^verbatim>\<open>app/main.c\<close>: command line, startup, poll loop and shutdown, over either build. Delivery of SIGINT
  and SIGTERM is a function of the trace: \<open>delivered\<close> lists the signals handled during the calls made so
  far. The loop runs until it reads a cleared flag and may run for ever; that it returns is proved for a
  signal that arrives.
\<close>

section \<open>Command line\<close>

record options =
  opt_port :: u16
  opt_bind_ip :: string
  opt_debug :: bool

definition default_options :: options where
  "default_options =
     \<lparr>opt_port = DRONE_SERVER_PORT, opt_bind_ip = ''0.0.0.0'', opt_debug = False\<rparr>"

definition usage :: "string \<Rightarrow> string" where
  "usage prog =
     ''Usage: '' @ prog @ '' [OPTIONS]'' @ [LF] @
     ''  --port     <N>    UDP listen port       (default '' @ fmt_d (uint DRONE_SERVER_PORT) @ '')'' @ [LF] @
     ''  --bind-ip  <IP>   IP address to bind to (default 0.0.0.0)'' @ [LF] @
     ''  --debug           Enable debug log level'' @ [LF] @
     ''  --help            Show this help'' @ [LF]"

text \<open>The options, or the exit status with what is printed to standard error.\<close>

fun parse_args :: "string \<Rightarrow> string list \<Rightarrow> options \<Rightarrow> int \<times> string + options" where
  "parse_args prog [] o1 = Inr o1"
| "parse_args prog (a # rest) o1 =
     (if a = ''--port'' \<and> rest \<noteq> []
      then parse_args prog (tl rest) (o1\<lparr>opt_port := word_of_int (atoi (hd rest))\<rparr>)
      else if a = ''--bind-ip'' \<and> rest \<noteq> []
      then parse_args prog (tl rest) (o1\<lparr>opt_bind_ip := hd rest\<rparr>)
      else if a = ''--debug'' then parse_args prog rest (o1\<lparr>opt_debug := True\<rparr>)
      else if a = ''--help'' then Inl (0, usage prog)
      else Inl (1, ''Unknown option: '' @ a @ [LF] @ usage prog))"

section \<open>Builds\<close>

text \<open>What the linker provides for the BSP.\<close>

record 'b build =
  psdk_init :: "trace \<Rightarrow> int \<times> trace"
  psdk_deinit :: "trace \<Rightarrow> trace"
  drone_ctrl_init :: "'b \<Rightarrow> trace \<Rightarrow> int \<times> 'b \<times> trace"
  drone_ctrl_deinit :: "'b \<Rightarrow> trace \<Rightarrow> 'b \<times> trace"
  build_ops :: "'b drone_ops"
  build_state :: 'b

definition stub_build :: "env \<Rightarrow> stub_state build" where
  "stub_build e =
     \<lparr>psdk_init = stub_psdk_init, psdk_deinit = stub_psdk_deinit,
      drone_ctrl_init = stub_drone_ctrl_init, drone_ctrl_deinit = stub_drone_ctrl_deinit,
      build_ops = stub_ops e, build_state = stub_initial\<rparr>"

definition real_build :: "env \<Rightarrow> user_info_sizes \<Rightarrow> user_info \<Rightarrow> real_state build" where
  "real_build e z u =
     \<lparr>psdk_init = real_psdk_init e CONFIG_HARDWARE_CONNECTION z u, psdk_deinit = real_psdk_deinit e,
      drone_ctrl_init = real_drone_ctrl_init e, drone_ctrl_deinit = real_drone_ctrl_deinit e,
      build_ops = real_ops e, build_state = real_initial\<rparr>"

section \<open>The poll loop\<close>

partial_function (option) main_loop ::
    "(trace \<Rightarrow> bool) \<Rightarrow> env \<Rightarrow>
      (sockaddr_in \<Rightarrow> string \<Rightarrow> nat \<Rightarrow> 's \<Rightarrow> trace \<Rightarrow> int \<times> 's \<times> trace) \<Rightarrow>
      UdpServer \<Rightarrow> 's \<Rightarrow> trace \<Rightarrow> (UdpServer \<times> 's \<times> trace) option" where
  "main_loop running e cb srv s tr =
     (if \<not> running tr then Some (srv, s, tr)
      else case udp_server_poll e cb 500 srv s tr of
             (srv, s, tr) \<Rightarrow> main_loop running e cb srv s tr)"

section \<open>The program\<close>

record 'b run =
  run_exit :: int
  run_stderr :: string
  run_level :: LogLevel
  run_handler :: "'b handler_state"
  run_trace :: trace

text \<open>
  \<open>g_running\<close> is the flag after the handler has run for the signals delivered, oldest first.
\<close>

definition sig_handler :: "int \<Rightarrow> int \<Rightarrow> int" where
  "sig_handler sig g = 0"

definition g_running :: "int list \<Rightarrow> int" where
  "g_running sigs = fold sig_handler sigs 1"

definition SIGINT :: int where "SIGINT = 2"
definition SIGTERM :: int where "SIGTERM = 15"

definition shutdown :: "'b build \<Rightarrow> UdpServer \<Rightarrow> 'b handler_state \<Rightarrow> trace \<Rightarrow> 'b handler_state \<times> trace" where
  "shutdown bd srv h tr =
     (let tr = udp_server_destroy (Some srv) tr;
          (b, tr) = drone_ctrl_deinit bd (hs_bsp h) tr;
          tr = psdk_deinit bd tr
      in (h\<lparr>hs_bsp := b\<rparr>, tr))"

definition main ::
    "(trace \<Rightarrow> int list) \<Rightarrow> env \<Rightarrow> (string \<Rightarrow> u32) \<Rightarrow> 'b build \<Rightarrow> 'j json_lib \<Rightarrow> string \<Rightarrow> string list \<Rightarrow>
      'b run option" where
  "main delivered e addr_of bd jl prog args =
     (let h = handler_initial (build_state bd) in
      case parse_args prog args default_options of
        Inl (code, msg) \<Rightarrow>
          Some \<lparr>run_exit = code, run_stderr = msg, run_level = LOG_INFO, run_handler = h, run_trace = []\<rparr>
      | Inr opts \<Rightarrow>
          let level = (if opt_debug opts then LOG_DEBUG else LOG_INFO);
              exit = (\<lambda>code h tr.
                \<lparr>run_exit = code, run_stderr = [], run_level = level, run_handler = h, run_trace = tr\<rparr>);
              tr = [Sigaction SIGINT, Sigaction SIGTERM];
              (r, tr) = psdk_init bd tr in
          if r \<noteq> 0 then Some (exit 2 h tr) else
          let (r, b, tr) = drone_ctrl_init bd (hs_bsp h) tr;
              h = h\<lparr>hs_bsp := b\<rparr> in
          if r \<noteq> 0 then Some (exit 3 h (psdk_deinit bd tr)) else
          (case udp_server_create e addr_of (Some (opt_bind_ip opts)) (opt_port opts) tr of
             (None, tr) \<Rightarrow>
               (let (b, tr) = drone_ctrl_deinit bd (hs_bsp h) tr
                in Some (exit 4 (h\<lparr>hs_bsp := b\<rparr>) (psdk_deinit bd tr)))
           | (Some srv, tr) \<Rightarrow>
               (let h = handler_set_server srv h in
                case main_loop (\<lambda>tr. g_running (delivered tr) \<noteq> 0) e (handle_rpc e (build_ops bd) jl) srv h tr of
                  None \<Rightarrow> None
                | Some (srv, h, tr) \<Rightarrow>
                    (let (h, tr) = shutdown bd srv h tr in Some (exit 0 h tr)))))"

lemma g_running_iff: "g_running sigs \<noteq> 0 \<longleftrightarrow> sigs = []"
proof -
  have "fold sig_handler sigs 0 = 0" by (induction sigs) (simp_all add: sig_handler_def)
  then show ?thesis by (cases sigs) (simp_all add: g_running_def sig_handler_def)
qed

section \<open>The command line\<close>

lemma parse_args_exit: "parse_args prog args o1 = Inl (c, msg) \<Longrightarrow> c = 0 \<or> c = 1"
  by (induction prog args o1 rule: parse_args.induct) (auto split: if_splits)

text \<open>
  A port given in decimal is used as it is when it fits 16 bits; a larger one is not refused but
  taken modulo 65536.
\<close>

theorem parse_port:
  assumes "0 \<le> n" and "n < 2 ^ 31"
  shows "\<exists>o2. parse_args prog [''--port'', fmt_d n] o1 = Inr o2 \<and>
           uint (opt_port o2) = n mod 2 ^ 16 \<and> opt_bind_ip o2 = opt_bind_ip o1 \<and> opt_debug o2 = opt_debug o1"
  using assms atoi_fmt_d [of n] by (simp add: uint_word_of_int)

theorem parse_port_witness:
  "\<exists>o2. parse_args ''psdkd'' [''--port'', ''70000''] default_options = Inr o2 \<and> uint (opt_port o2) = 4464"
proof -
  have "fmt_d 70000 = ''70000''" by code_simp
  then show ?thesis using parse_port [of 70000 "''psdkd''" default_options] by auto
qed

text \<open>The last occurrence of an option counts; a run of accepted options splits anywhere.\<close>

lemma parse_args_append:
  assumes "parse_args prog a o1 = Inr o2" and "a = [] \<or> last a \<noteq> ''--port'' \<and> last a \<noteq> ''--bind-ip''"
  shows "parse_args prog (a @ b) o1 = parse_args prog b o2"
  using assms
proof (induction prog a o1 rule: parse_args.induct)
  case (2 prog a rest o1)
  then show ?case by (cases rest) (auto split: if_splits)
qed simp

section \<open>The loop\<close>

definition polls :: "trace \<Rightarrow> nat" where
  "polls tr = length (filter (\<lambda>ev. case ev of Net (Poll fd t) \<Rightarrow> True | _ \<Rightarrow> False) tr)"

lemma polls_append [trace_simps]: "polls (a @ b) = polls a + polls b"
  by (simp add: polls_def)

lemma polls_Cons [trace_simps]:
  "polls (ev # tr) = (case ev of Net (Poll fd t) \<Rightarrow> Suc (polls tr) | _ \<Rightarrow> polls tr)"
proof (cases ev)
  case (Net c)
  then show ?thesis by (cases c) (simp_all add: polls_def)
qed (simp_all add: polls_def)

lemma sends_Poll [trace_simps]: "sends (Net (Poll fd t) # tr) = sends tr"
  by (simp add: sends_Cons)

context udp_handler
begin

text \<open>A signal that stops the loop after at most \<open>n\<close> polls makes it return.\<close>

lemma loop_returns:
  assumes "inv s" and "\<forall>tr. n \<le> polls tr \<longrightarrow> \<not> running tr"
  shows "\<exists>srv' s' tr'. main_loop running e cb srv s tr = Some (srv', s', tr')"
  using assms(1)
proof (induction "n - polls tr" arbitrary: srv s tr rule: less_induct)
  case less
  show ?case
  proof (cases "running tr")
    case False
    then show ?thesis by (simp add: main_loop.simps)
  next
    case True
    obtain srv1 s1 tr1 where p: "udp_server_poll e cb 500 srv s tr = (srv1, s1, tr1)"
      by (cases "udp_server_poll e cb 500 srv s tr") auto
    note st = poll_step [OF less.prems p]
    then have "polls tr < polls tr1" by (auto simp: trace_simps)
    moreover have "polls tr < n" using True assms(2) by (metis not_le)
    ultimately have "n - polls tr1 < n - polls tr" by linarith
    then obtain r where "main_loop running e cb srv1 s1 tr1 = Some r"
      using less.hyps [of tr1 s1 srv1] st by fastforce
    then show ?thesis using True p by (cases r) (simp add: main_loop.simps [of running e cb srv s tr])
  qed
qed

text \<open>
  Whatever the loop does: the invariant holds at its end, the socket is the same, it opens and closes
  no descriptor, and it sends no more datagrams than it polled.
\<close>

lemma loop_run:
  assumes "main_loop running e cb srv s tr = Some (srv', s', tr')" and "inv s"
  shows "inv s' \<and> us_fd srv' = us_fd srv \<and> \<not> running tr' \<and>
         (\<exists>evs. tr' = tr @ evs \<and> (\<forall>ev \<in> set evs. \<not> fd_event ev) \<and> length (sends evs) \<le> polls evs)"
proof -
  let ?Q = "\<lambda>run srv tr (srv', s', tr').
      inv s' \<and> us_fd srv' = us_fd srv \<and> \<not> run tr' \<and>
      (\<exists>evs. tr' = tr @ evs \<and> (\<forall>ev \<in> set evs. \<not> fd_event ev) \<and> length (sends evs) \<le> polls evs)"
  have "cb = cb \<longrightarrow> inv s \<longrightarrow> ?Q running srv tr (srv', s', tr')"
  proof (rule main_loop.raw_induct [OF _ assms(1),
        where P = "\<lambda>run e c srv s tr res. c = cb \<longrightarrow> inv s \<longrightarrow> ?Q run srv tr res"], intro impI)
    fix loop run e c srv s tr res
    assume IH: "\<And>run e c srv s tr res. loop run e c srv s tr = Some res \<Longrightarrow>
        c = cb \<longrightarrow> inv s \<longrightarrow> ?Q run srv tr res"
      and body: "(if \<not> run tr then Some (srv, s, tr)
        else case udp_server_poll e c 500 srv s tr of (srv, s, tr) \<Rightarrow> loop run e c srv s tr) = Some res"
      and c: "c = cb" and inv: "inv s"
    show "?Q run srv tr res"
    proof (cases "run tr")
      case False
      then have "res = (srv, s, tr)" using body by simp
      then show ?thesis using False inv by (auto simp: sends_Nil intro!: exI [of _ "[]"])
    next
      case True
      obtain srv1 s1 tr1 where p: "udp_server_poll e cb 500 srv s tr = (srv1, s1, tr1)"
        by (cases "udp_server_poll e cb 500 srv s tr") auto
      obtain evs1 where st: "inv s1" "us_fd srv1 = us_fd srv"
          "tr1 = tr @ Net (Poll (us_fd srv) 500) # evs1" "\<forall>ev \<in> set evs1. \<not> fd_event ev"
          "length (sends evs1) \<le> 1"
        using poll_step [OF inv p] by blast
      have "loop run e cb srv1 s1 tr1 = Some res" using body True p c by simp
      note q = IH [OF this, rule_format, OF refl st(1)]
      obtain srv2 s2 tr2 where res: "res = (srv2, s2, tr2)" by (cases res) auto
      obtain evs2 where "tr2 = tr1 @ evs2" "\<forall>ev \<in> set evs2. \<not> fd_event ev"
          "length (sends evs2) \<le> polls evs2"
        using q by (auto simp: res)
      then show ?thesis using q st
        by (auto simp: res trace_simps
            intro!: exI [of _ "Net (Poll (us_fd srv) 500) # evs1 @ evs2"])
    qed
  qed
  then show ?thesis using assms(2) by simp
qed

end

section \<open>Builds that keep the daemon's contract\<close>

text \<open>
  What \<^verbatim>\<open>main\<close> relies on: the operations keep their contract, and starting and stopping the BSP makes no
  network call.
\<close>

definition quiet :: "trace \<Rightarrow> trace \<Rightarrow> bool" where
  "quiet tr tr' \<longleftrightarrow> (\<exists>evs. tr' = tr @ evs \<and> (\<forall>ev \<in> set evs. \<not> is_net ev))"

locale daemon_build = drone_bsp "build_ops bd" I
  for bd :: "'b build" and I :: "'b \<Rightarrow> bool" +
  assumes init_quiet: "psdk_init bd tr = (r, tr') \<Longrightarrow> quiet tr tr'"
    and deinit_quiet: "quiet tr (psdk_deinit bd tr)"
    and ctrl_init: "I b \<Longrightarrow> drone_ctrl_init bd b tr = (r, b', tr') \<Longrightarrow> I b' \<and> quiet tr tr'"
    and ctrl_deinit: "I b \<Longrightarrow> drone_ctrl_deinit bd b tr = (b', tr') \<Longrightarrow> I b' \<and> quiet tr tr'"
    and start: "I (build_state bd)"

lemma quiet_fds: "quiet tr tr' \<Longrightarrow> \<exists>evs. tr' = tr @ evs \<and> live_fds e tr evs fds = fds"
proof -
  assume "quiet tr tr'"
  then obtain evs where "tr' = tr @ evs" "\<forall>ev \<in> set evs. \<not> is_net ev" by (auto simp: quiet_def)
  moreover have "\<not> is_net ev \<Longrightarrow> \<not> fd_event ev" for ev using fd_event_net by blast
  ultimately have "tr' = tr @ evs" "\<forall>ev \<in> set evs. \<not> fd_event ev" by blast+
  then show ?thesis using live_fds_quiet [of evs e tr fds] by blast
qed

lemma quiet_live_fds:
  "quiet tr tr' \<Longrightarrow> live_fds e [] tr [] = fds \<Longrightarrow> live_fds e [] tr' [] = fds"
  using quiet_fds [of tr tr' e fds] by (auto simp: live_fds_append)

text \<open>The five ways the program ends, with the results of the steps before.\<close>

abbreviation signals :: trace where
  "signals \<equiv> [Sigaction SIGINT, Sigaction SIGTERM]"

lemma main_cases:
  assumes "main delivered e addr_of bd jl prog args = Some r"
  obtains (args) code where
      "parse_args prog args default_options = Inl (code, run_stderr r)" "run_exit r = code" "run_trace r = []"
  | (init) opts rc where
      "parse_args prog args default_options = Inr opts" "run_exit r = 2"
      "psdk_init bd signals = (rc, run_trace r)" "rc \<noteq> 0"
  | (ctrl) opts tr1 rc b tr2 where
      "parse_args prog args default_options = Inr opts" "run_exit r = 3"
      "psdk_init bd signals = (0, tr1)" "drone_ctrl_init bd (build_state bd) tr1 = (rc, b, tr2)" "rc \<noteq> 0"
      "run_trace r = psdk_deinit bd tr2"
  | (server) opts tr1 b tr2 tr3 b' tr4 where
      "parse_args prog args default_options = Inr opts" "run_exit r = 4"
      "psdk_init bd signals = (0, tr1)" "drone_ctrl_init bd (build_state bd) tr1 = (0, b, tr2)"
      "udp_server_create e addr_of (Some (opt_bind_ip opts)) (opt_port opts) tr2 = (None, tr3)"
      "drone_ctrl_deinit bd b tr3 = (b', tr4)" "run_trace r = psdk_deinit bd tr4"
  | (served) opts tr1 b tr2 srv tr3 srv' h' tr4 where
      "parse_args prog args default_options = Inr opts" "run_exit r = 0"
      "psdk_init bd signals = (0, tr1)" "drone_ctrl_init bd (build_state bd) tr1 = (0, b, tr2)"
      "udp_server_create e addr_of (Some (opt_bind_ip opts)) (opt_port opts) tr2 = (Some srv, tr3)"
      "main_loop (\<lambda>tr. g_running (delivered tr) \<noteq> 0) e (handle_rpc e (build_ops bd) jl) srv
         (handler_set_server srv ((handler_initial (build_state bd))\<lparr>hs_bsp := b\<rparr>)) tr3 = Some (srv', h', tr4)"
      "shutdown bd srv' h' tr4 = (run_handler r, run_trace r)"
proof (cases "parse_args prog args default_options")
  case (Inl x)
  then show ?thesis using assms args by (cases x) (auto simp: main_def)
next
  case (Inr opts)
  obtain r1 tr1 where i: "psdk_init bd signals = (r1, tr1)" by fastforce
  obtain r2 b tr2 where c: "drone_ctrl_init bd (build_state bd) tr1 = (r2, b, tr2)"
    by (cases "drone_ctrl_init bd (build_state bd) tr1") auto
  obtain res tr3 where
    u: "udp_server_create e addr_of (Some (opt_bind_ip opts)) (opt_port opts) tr2 = (res, tr3)" by fastforce
  have hs: "hs_bsp (handler_initial (build_state bd)) = build_state bd" by (simp add: handler_initial_def)
  note m = assms [unfolded main_def Let_def Inr sum.case i hs prod.case c u]
  consider "r1 \<noteq> 0" | "r1 = 0" "r2 \<noteq> 0" | "r1 = 0" "r2 = 0" "res = None"
    | srv where "r1 = 0" "r2 = 0" "res = Some srv" by (cases res) auto
  then show ?thesis
  proof cases
    case 1
    then show ?thesis using m init [of opts r1] Inr i by auto
  next
    case 2
    then show ?thesis using m ctrl [of opts tr1 r2 b tr2] Inr i c by auto
  next
    case 3
    obtain b' tr4 where d: "drone_ctrl_deinit bd b tr3 = (b', tr4)" by fastforce
    show ?thesis using m 3 server [of opts tr1 b tr2 tr3 b' tr4] Inr i c u d by auto
  next
    case 4
    let ?h = "handler_set_server srv ((handler_initial (build_state bd))\<lparr>hs_bsp := b\<rparr>)"
    obtain srv' h' tr4 where l: "main_loop (\<lambda>tr. g_running (delivered tr) \<noteq> 0) e (handle_rpc e (build_ops bd) jl) srv ?h tr3 =
        Some (srv', h', tr4)"
      using m 4 by (auto split: option.splits)
    obtain h2 tr5 where s: "shutdown bd srv' h' tr4 = (h2, tr5)" by fastforce
    show ?thesis using m 4 l s served [of opts tr1 b tr2 srv tr3 srv' h' tr4] Inr i c u by auto
  qed
qed

context daemon_build
begin

lemma rpc_handler:
  "udp_handler (handle_rpc e (build_ops bd) jl) (\<lambda>s. json_lib_ok jl \<and> I (hs_bsp s))"
  by unfold_locales (rule handle_rpc_contract; assumption)+

text \<open>Shutting down closes the server's socket and nothing else.\<close>

lemma shutdown_fds:
  assumes "shutdown bd srv h tr = (h', tr')" and "I (hs_bsp h)"
    and "live_fds e [] tr [] = [us_fd srv]"
  shows "live_fds e [] tr' [] = []"
proof -
  let ?tr1 = "udp_server_destroy (Some srv) tr"
  obtain b tr2 where d: "drone_ctrl_deinit bd (hs_bsp h) ?tr1 = (b, tr2)" by fastforce
  have "live_fds e [] ?tr1 [] = []" using assms(3) by (simp add: udp_server_destroy_def live_fds_append)
  then have "live_fds e [] tr2 [] = []" using ctrl_deinit [OF assms(2) d] quiet_live_fds by blast
  then have "live_fds e [] (psdk_deinit bd tr2) [] = []" using deinit_quiet quiet_live_fds by blast
  then show ?thesis using assms(1) d by (simp add: shutdown_def Let_def)
qed

lemma startup_fds:
  assumes "psdk_init bd signals = (0, tr1)" and "drone_ctrl_init bd (build_state bd) tr1 = (rc, b, tr2)"
  shows "I b" and "live_fds e [] tr2 [] = []"
proof -
  have "live_fds e [] tr1 [] = []" using quiet_live_fds [OF init_quiet [OF assms(1)]] by simp
  then show "I b" "live_fds e [] tr2 [] = []"
    using ctrl_init [OF start assms(2)] quiet_live_fds by blast+
qed

lemma main_fds:
  assumes "main delivered e addr_of bd jl prog args = Some r" and json: "json_lib_ok jl"
  shows "live_fds e [] (run_trace r) [] = []"
  using assms(1)
proof (cases rule: main_cases)
  case args
  then show ?thesis by simp
next
  case init
  then show ?thesis using quiet_live_fds [OF init_quiet] by fastforce
next
  case ctrl
  then show ?thesis using quiet_live_fds [OF deinit_quiet startup_fds(2)] by simp
next
  case (server opts tr1 b tr2 tr3 b' tr4)
  have "live_fds e [] tr3 [] = []"
    using udp_server_create_fds [OF server(5), of "[]"] startup_fds [OF server(3,4)]
    by (auto simp: live_fds_append)
  then have "live_fds e [] tr4 [] = []"
    using ctrl_deinit [OF startup_fds(1) [OF server(3,4)] server(6)] quiet_live_fds by blast
  then show ?thesis using quiet_live_fds [OF deinit_quiet] server(7) by simp
next
  case (served opts tr1 b tr2 srv tr3 srv' h' tr4)
  have l3: "live_fds e [] tr3 [] = [us_fd srv]"
    using udp_server_create_fds [OF served(5), of "[]"] startup_fds [OF served(3,4)]
    by (auto simp: live_fds_append)
  have "json_lib_ok jl \<and> I (hs_bsp (handler_set_server srv ((handler_initial (build_state bd))\<lparr>hs_bsp := b\<rparr>)))"
    using json startup_fds(1) [OF served(3,4)] by (simp add: handler_set_server_def)
  note lr = udp_handler.loop_run [OF rpc_handler served(6) this]
  then obtain evs where "tr4 = tr3 @ evs" "\<forall>ev \<in> set evs. \<not> fd_event ev" by blast
  then have "live_fds e [] tr4 [] = [us_fd srv']"
    using l3 lr live_fds_quiet [of evs] by (simp add: live_fds_append)
  then show ?thesis using shutdown_fds [OF served(7)] lr by blast
qed

text \<open>The program returns once the signal has been delivered.\<close>

lemma main_returns:
  assumes json: "json_lib_ok jl" and sig: "\<forall>tr. n \<le> polls tr \<longrightarrow> delivered tr \<noteq> []"
  shows "\<exists>r. main delivered e addr_of bd jl prog args = Some r"
proof -
  have sig': "\<forall>tr. n \<le> polls tr \<longrightarrow> \<not> g_running (delivered tr) \<noteq> 0" using sig by (simp add: g_running_iff del: not_not)
  have ret: "main_loop (\<lambda>tr. g_running (delivered tr) \<noteq> 0) e (handle_rpc e (build_ops bd) jl) srv h tr \<noteq> None"
    if "I (hs_bsp h)" for srv h tr
    using udp_handler.loop_returns [OF rpc_handler _ sig', of jl h e e srv tr] json that by auto
  obtain r1 tr1 where i: "psdk_init bd signals = (r1, tr1)" by fastforce
  obtain r2 b tr2 where c: "drone_ctrl_init bd (build_state bd) tr1 = (r2, b, tr2)"
    by (cases "drone_ctrl_init bd (build_state bd) tr1") auto
  have "I b" using ctrl_init [OF start c] by blast
  then have nn: "main_loop (\<lambda>tr. g_running (delivered tr) \<noteq> 0) e (handle_rpc e (build_ops bd) jl) srv
      (handler_set_server srv ((handler_initial (build_state bd))\<lparr>hs_bsp := b\<rparr>)) tr \<noteq> None" for srv tr
    using ret by (simp add: handler_set_server_def)
  have hs: "hs_bsp (handler_initial (build_state bd)) = build_state bd" by (simp add: handler_initial_def)
  have "main delivered e addr_of bd jl prog args \<noteq> None"
    by (simp add: main_def Let_def i c hs nn split: sum.split prod.split option.split)
  then show ?thesis by auto
qed

end

section \<open>Both builds\<close>

lemma run_plan_quiet: "run_plan e cs tr = (r, tr') \<Longrightarrow> quiet tr tr'"
proof (induction e cs tr rule: run_plan.induct)
  case (2 e c fatal cs tr)
  show ?case
  proof (cases "fatal \<and> \<not> env_dji_ok e (tr @ [Core c])")
    case True
    then show ?thesis using 2 by (auto simp: quiet_def)
  next
    case False
    then have "quiet (tr @ [Core c]) tr'" using 2 by auto
    then show ?thesis by (fastforce simp: quiet_def)
  qed
qed (simp add: quiet_def)

interpretation stub_daemon: daemon_build "stub_build e" stub_inv
proof (intro daemon_build.intro daemon_build_axioms.intro)
  show "drone_bsp (build_ops (stub_build e)) stub_inv"
    using stub.drone_bsp_axioms by (simp add: stub_build_def)
qed (auto simp: stub_build_def stub_psdk_init_def stub_psdk_hal_register_def stub_psdk_deinit_def
      stub_drone_ctrl_init_def stub_drone_ctrl_deinit_def quiet_def stub_inv_initial)

interpretation real_daemon: daemon_build "real_build e z u" real_inv
proof (intro daemon_build.intro daemon_build_axioms.intro)
  show "drone_bsp (build_ops (real_build e z u)) real_inv"
    using real.drone_bsp_axioms by (simp add: real_build_def)
  show "psdk_init (real_build e z u) tr = (r, tr') \<Longrightarrow> quiet tr tr'" for tr r tr'
    by (auto simp: real_build_def real_psdk_init_plan dest: run_plan_quiet)
  show "real_inv b \<Longrightarrow> drone_ctrl_init (real_build e z u) b tr = (r, b', tr') \<Longrightarrow>
      real_inv b' \<and> quiet tr tr'" for b tr r b' tr'
    by (auto simp: real_build_def real_init_trace quiet_def subscriptions_def split: if_splits)
  show "real_inv b \<Longrightarrow> drone_ctrl_deinit (real_build e z u) b tr = (b', tr') \<Longrightarrow>
      real_inv b' \<and> quiet tr tr'" for b tr b' tr'
    by (auto simp: real_build_def real_drone_ctrl_deinit_def dji_def Let_def quiet_def real_inv_def
        split: if_splits)
qed (auto simp: real_build_def real_psdk_deinit_def dji_def quiet_def real_inv_initial)

section \<open>Properties of the program\<close>

text \<open>
  C33. Both builds return: if a signal has been delivered by the time the loop has polled
  \<open>n\<close> times, the program ends, whatever the network, the SDK and the clients do.
\<close>

theorem main_returns_after_signal:
  assumes "json_lib_ok jl" and "\<forall>tr. n \<le> polls tr \<longrightarrow> delivered tr \<noteq> []"
  shows "(\<exists>r. main delivered e addr_of (real_build e z u) jl prog args = Some r) \<and>
         (\<exists>r. main delivered e addr_of (stub_build e) jl prog args = Some r)"
  using real_daemon.main_returns [OF assms] stub_daemon.main_returns [OF assms] by blast

theorem main_returns_after_signal_witness:
  "\<exists>r. main (\<lambda>tr. if polls tr < 2 then [] else [SIGTERM]) env0 (\<lambda>ip. 0) (real_build env0 sample_sizes sample_user) (table_lib [])
         ''psdkd'' [''--debug''] = Some r"
  using main_returns_after_signal [OF table_lib_ok, of 2 "\<lambda>tr. if polls tr < 2 then [] else [SIGTERM]"] by simp

text \<open>
  C34. Both builds close what they open: when the program returns, on whichever path, every socket
  descriptor it obtained has been closed.
\<close>

theorem main_closes_descriptors:
  assumes "json_lib_ok jl"
    and "main delivered e addr_of (real_build e z u) jl prog args = Some r"
    and "main delivered e addr_of (stub_build e) jl prog args = Some r'"
  shows "live_fds e [] (run_trace r) [] = [] \<and> live_fds e [] (run_trace r') [] = []"
  using real_daemon.main_fds [OF assms(2,1)] stub_daemon.main_fds [OF assms(3,1)] by blast

theorem main_closes_descriptors_witness:
  "\<exists>r. main (\<lambda>tr. if polls tr < 2 then [] else [SIGTERM]) env0 (\<lambda>ip. 0) (real_build env0 sample_sizes sample_user) (table_lib [])
         ''psdkd'' [] = Some r \<and> live_fds env0 [] (run_trace r) [] = []"
proof -
  let ?run = "\<lambda>tr. if polls tr < 2 then [] else [SIGTERM]"
  have sig: "\<forall>tr. 2 \<le> polls tr \<longrightarrow> ?run tr \<noteq> []" by simp
  obtain r where r: "main ?run env0 (\<lambda>ip. 0) (real_build env0 sample_sizes sample_user) (table_lib [])
      ''psdkd'' [] = Some r" using real_daemon.main_returns [OF table_lib_ok sig] by blast
  obtain r' where r': "main ?run env0 (\<lambda>ip. 0) (stub_build env0) (table_lib []) ''psdkd'' [] = Some r'"
    using stub_daemon.main_returns [OF table_lib_ok sig] by blast
  show ?thesis using r main_closes_descriptors [OF table_lib_ok r r'] by blast
qed

section \<open>Shutdown of the hardware build\<close>

lemma real_shutdown_trace:
  assumes "shutdown (real_build e z u) srv h tr = (h', tr')"
  shows "tr' = tr @ [Net (Close_Fd (us_fd srv)), Net Free_Server] @
           (if s_waypoint_v3_inited (hs_bsp h) then [WP DjiWaypointV3_DeInit] else []) @
           [Cam DjiGimbalManager_Deinit, Cam DjiCameraManager_DeInit, FC DjiFcSubscription_DeInit,
            Core DjiCore_DeInit] \<and>
         \<not> s_waypoint_v3_inited (hs_bsp h')"
  using assms
  by (auto simp: shutdown_def real_build_def udp_server_destroy_def real_drone_ctrl_deinit_def
      real_psdk_deinit_def dji_def Let_def split: if_splits)

text \<open>
  C35. Every run of the hardware build that got past the start of the SDK exits with 0, 3 or 4 and ends by
  closing the SDK's core, as its last call.
\<close>

theorem real_core_closed:
  assumes "main delivered e addr_of (real_build e z u) jl prog args = Some r"
    and "parse_args prog args default_options = Inr opts" and "run_exit r \<noteq> 2"
  shows "run_exit r \<in> {0, 3, 4} \<and> run_trace r \<noteq> [] \<and> last (run_trace r) = Core DjiCore_DeInit"
  using assms(1)
proof (cases rule: main_cases)
  case (served opts tr1 b tr2 srv tr3 srv' h' tr4)
  then show ?thesis using real_shutdown_trace [OF served(7)] by simp
qed (use assms in \<open>auto simp: real_build_def real_psdk_deinit_def dji_def\<close>)

lemma run_plan_all_ok: "\<forall>tr. env_dji_ok e tr \<Longrightarrow> fst (run_plan e cs tr) = 0"
  by (induction e cs tr rule: run_plan.induct) auto

theorem real_core_closed_witness:
  "\<exists>r. main (\<lambda>tr. if polls tr < 2 then [] else [SIGTERM]) env0 (\<lambda>ip. 0) (real_build env0 sample_sizes sample_user) (table_lib [])
         ''psdkd'' [] = Some r \<and> run_exit r \<in> {0, 3, 4} \<and> last (run_trace r) = Core DjiCore_DeInit"
proof -
  have sig: "\<forall>tr. 2 \<le> polls tr \<longrightarrow> (if polls tr < 2 then [] else [SIGTERM]) \<noteq> []" by simp
  obtain r where r: "main (\<lambda>tr. if polls tr < 2 then [] else [SIGTERM]) env0 (\<lambda>ip. 0) (real_build env0 sample_sizes sample_user)
      (table_lib []) ''psdkd'' [] = Some r" using real_daemon.main_returns [OF table_lib_ok sig] by blast
  have "run_exit r \<noteq> 2" using r
  proof (cases rule: main_cases)
    case (init opts rc)
    then show ?thesis
      using run_plan_all_ok [of env0 "hal_plan CONFIG_HARDWARE_CONNECTION @
          core_plan (fill_user_info sample_sizes sample_user)" signals]
      by (simp add: real_build_def real_psdk_init_plan)
  qed auto
  then show ?thesis using r real_core_closed [OF r, of default_options] by auto
qed

text \<open>
  A run of the hardware build that exits with 2 ends with the failing call and never closes the
  SDK's core, although the core may have been initialised before the start of the application failed.
\<close>

theorem real_start_failure:
  assumes "main delivered e addr_of (real_build e z u) jl prog args = Some r"
    and "parse_args prog args default_options = Inr opts" and "run_exit r = 2"
  shows "Core DjiCore_DeInit \<notin> set (run_trace r) \<and> \<not> env_dji_ok e (run_trace r)"
  using assms(1)
proof (cases rule: main_cases)
  case (init opts rc)
  then have p: "run_plan e (hal_plan CONFIG_HARDWARE_CONNECTION @ core_plan (fill_user_info z u)) signals =
      (rc, run_trace r)" by (simp add: real_build_def real_psdk_init_plan)
  obtain made c rest where m:
      "hal_plan CONFIG_HARDWARE_CONNECTION @ core_plan (fill_user_info z u) = made @ (c, True) # rest"
      "run_trace r = signals @ map (\<lambda>c. Core (fst c)) made @ [Core c]" "\<not> env_dji_ok e (run_trace r)"
    using run_plan_failed [OF p init(4)] by blast
  have "DjiCore_DeInit \<notin> fst ` set (hal_plan CONFIG_HARDWARE_CONNECTION @ core_plan (fill_user_info z u))"
    by (simp add: hal_plan_def core_plan_def CONFIG_HARDWARE_CONNECTION_def)
  then have "DjiCore_DeInit \<notin> fst ` set made" "c \<noteq> DjiCore_DeInit" unfolding m(1) by auto
  then show ?thesis using m by force
qed (use assms parse_args_exit in \<open>auto\<close>)

theorem real_start_failure_witness:
  "\<exists>r. main (\<lambda>tr. []) (env0\<lparr>env_dji_ok := \<lambda>tr. last tr \<noteq> Core DjiCore_ApplicationStart\<rparr>) (\<lambda>ip. 0)
         (real_build (env0\<lparr>env_dji_ok := \<lambda>tr. last tr \<noteq> Core DjiCore_ApplicationStart\<rparr>) sample_sizes sample_user)
         (table_lib []) ''psdkd'' [] = Some r \<and>
     Core (DjiCore_Init (fill_user_info sample_sizes sample_user)) \<in> set (run_trace r) \<and>
     Core DjiCore_DeInit \<notin> set (run_trace r)"
proof -
  let ?e = "env0\<lparr>env_dji_ok := \<lambda>tr. last tr \<noteq> Core DjiCore_ApplicationStart\<rparr>"
  obtain r where r: "main (\<lambda>tr. []) ?e (\<lambda>ip. 0) (real_build ?e sample_sizes sample_user) (table_lib [])
      ''psdkd'' [] = Some r" and x: "run_exit r = 2"
    and i: "Core (DjiCore_Init (fill_user_info sample_sizes sample_user)) \<in> set (run_trace r)"
    by (simp add: main_def real_build_def real_psdk_init_plan hal_plan_def core_plan_def
        CONFIG_HARDWARE_CONNECTION_def Let_def)
  show ?thesis using r i real_start_failure [OF r _ x, of default_options] by auto
qed

end
