(* ===== verification/Json_Text.thy ===== *)
theory Json_Text
  imports C_Float
begin

text \<open>
  What the client at the other end of the wire reads: the JSON grammar of RFC 8259 as an executable
  reader, and a printer whose output it reads back. The daemon writes its replies with \<^verbatim>\<open>snprintf\<close>;
  against this reader they can be shown to be JSON, and to say what they should.
\<close>

section \<open>Documents\<close>

text \<open>
  A number is kept as its text, a string as the text between its quotes (escapes are checked, not
  decoded). Bytes from 0x80 on are taken as they are.
\<close>

datatype doc =
    DNum string
  | DStr string
  | DBool bool
  | DNull
  | DArr "doc list"
  | DObj "(string \<times> doc) list"

section \<open>The reader\<close>

definition json_ws :: "char \<Rightarrow> bool" where
  "json_ws c \<longleftrightarrow> c = CHR '' '' \<or> c = CHR 0x09 \<or> c = LF \<or> c = CR"

definition skip_ws :: "string \<Rightarrow> string" where
  "skip_ws s = dropWhile json_ws s"

definition read_digits :: "string \<Rightarrow> (string \<times> string) option" where
  "read_digits s =
     (let d = takeWhile is_digit s in if d = [] then None else Some (d, dropWhile is_digit s))"

text \<open>A zero stands alone.\<close>

definition read_int :: "string \<Rightarrow> (string \<times> string) option" where
  "read_int s =
     (case read_digits s of
        None \<Rightarrow> None
      | Some (d, r) \<Rightarrow> if hd d = CHR ''0'' then Some (''0'', tl s) else Some (d, r))"

definition read_frac :: "string \<Rightarrow> (string \<times> string) option" where
  "read_frac s =
     (case s of
        [] \<Rightarrow> Some ([], [])
      | c # r \<Rightarrow> if c = CHR ''.'' then map_option (\<lambda>(d, r). (c # d, r)) (read_digits r) else Some ([], s))"

definition read_exp :: "string \<Rightarrow> (string \<times> string) option" where
  "read_exp s =
     (case s of
        [] \<Rightarrow> Some ([], [])
      | c # r \<Rightarrow>
          if c = CHR ''e'' \<or> c = CHR ''E'' then
            let (sg, r) = (case r of
                             [] \<Rightarrow> ([], [])
                           | x # r' \<Rightarrow> if x = CHR ''+'' \<or> x = CHR ''-'' then ([x], r') else ([], r))
            in map_option (\<lambda>(d, r). (c # sg @ d, r)) (read_digits r)
          else Some ([], s))"

definition read_sign :: "string \<Rightarrow> string \<times> string" where
  "read_sign s = (if s \<noteq> [] \<and> hd s = CHR ''-'' then (''-'', tl s) else ([], s))"

definition read_number :: "string \<Rightarrow> (string \<times> string) option" where
  "read_number s =
     (let (sg, s) = read_sign s in
      case read_int s of
        None \<Rightarrow> None
      | Some (i, s) \<Rightarrow>
          (case read_frac s of
             None \<Rightarrow> None
           | Some (f, s) \<Rightarrow> map_option (\<lambda>(x, s). (sg @ i @ f @ x, s)) (read_exp s)))"

definition is_hex :: "char \<Rightarrow> bool" where
  "is_hex c \<longleftrightarrow> is_digit c \<or> c \<in> set ''abcdefABCDEF''"

text \<open>The rest of a string after its opening quote.\<close>

fun read_chars :: "string \<Rightarrow> (string \<times> string) option" where
  "read_chars [] = None"
| "read_chars (c # s) =
     (if c = DQ then Some ([], s)
      else if (of_char c :: int) < 32 then None
      else if c = CHR 0x5C then
        (case s of
           [] \<Rightarrow> None
         | x # r \<Rightarrow>
             if x \<in> set (DQ # CHR 0x5C # ''/bfnrt'')
             then map_option (\<lambda>(t, r). (c # x # t, r)) (read_chars r)
             else if x = CHR ''u'' \<and> length (take 4 r) = 4 \<and> list_all is_hex (take 4 r)
             then map_option (\<lambda>(t, q). (c # x # take 4 r @ t, q)) (read_chars (drop 4 r))
             else None)
      else map_option (\<lambda>(t, r). (c # t, r)) (read_chars s))"

definition read_word :: "string \<Rightarrow> doc \<Rightarrow> string \<Rightarrow> (doc \<times> string) option" where
  "read_word w d s = (if take (length w) s = w then Some (d, drop (length w) s) else None)"

text \<open>
  Values, members and elements. Every nested call has consumed a byte, so that the length of the text
  is enough fuel.
\<close>

fun read_value :: "nat \<Rightarrow> string \<Rightarrow> (doc \<times> string) option"
  and read_members :: "nat \<Rightarrow> string \<Rightarrow> ((string \<times> doc) list \<times> string) option"
  and read_elems :: "nat \<Rightarrow> string \<Rightarrow> (doc list \<times> string) option" where
  "read_value 0 s = None"
| "read_value (Suc n) s =
     (case skip_ws s of
        [] \<Rightarrow> None
      | c # r \<Rightarrow>
          if c = CHR ''{'' then
            (if skip_ws r \<noteq> [] \<and> hd (skip_ws r) = CHR ''}'' then Some (DObj [], tl (skip_ws r))
             else map_option (\<lambda>(ms, r). (DObj ms, r)) (read_members n r))
          else if c = CHR ''['' then
            (if skip_ws r \<noteq> [] \<and> hd (skip_ws r) = CHR '']'' then Some (DArr [], tl (skip_ws r))
             else map_option (\<lambda>(ds, r). (DArr ds, r)) (read_elems n r))
          else if c = DQ then map_option (\<lambda>(t, r). (DStr t, r)) (read_chars r)
          else if c = CHR ''t'' then read_word ''true'' (DBool True) (c # r)
          else if c = CHR ''f'' then read_word ''false'' (DBool False) (c # r)
          else if c = CHR ''n'' then read_word ''null'' DNull (c # r)
          else map_option (\<lambda>(t, r). (DNum t, r)) (read_number (c # r)))"
| "read_members 0 s = None"
| "read_members (Suc n) s =
     (case skip_ws s of
        [] \<Rightarrow> None
      | c # r \<Rightarrow>
          if c \<noteq> DQ then None else
          (case read_chars r of
             None \<Rightarrow> None
           | Some (k, r) \<Rightarrow>
               (case skip_ws r of
                  [] \<Rightarrow> None
                | c # r \<Rightarrow>
                    if c \<noteq> CHR '':'' then None else
                    (case read_value n r of
                       None \<Rightarrow> None
                     | Some (v, r) \<Rightarrow>
                         (case skip_ws r of
                            [] \<Rightarrow> None
                          | c # r \<Rightarrow>
                              if c = CHR '','' then
                                map_option (\<lambda>(ms, r). ((k, v) # ms, r)) (read_members n r)
                              else if c = CHR ''}'' then Some ([(k, v)], r) else None)))))"
| "read_elems 0 s = None"
| "read_elems (Suc n) s =
     (case read_value n s of
        None \<Rightarrow> None
      | Some (v, r) \<Rightarrow>
          (case skip_ws r of
             [] \<Rightarrow> None
           | c # r \<Rightarrow>
               if c = CHR '','' then map_option (\<lambda>(ds, r). (v # ds, r)) (read_elems n r)
               else if c = CHR '']'' then Some ([v], r) else None))"

definition json_read :: "string \<Rightarrow> doc option" where
  "json_read s =
     (case read_value (length s) s of
        None \<Rightarrow> None
      | Some (d, r) \<Rightarrow> if skip_ws r = [] then Some d else None)"

section \<open>Printing\<close>

function (sequential) print_doc :: "doc \<Rightarrow> string"
  and print_members :: "(string \<times> doc) list \<Rightarrow> string"
  and print_elems :: "doc list \<Rightarrow> string" where
  "print_doc (DNum t) = t"
| "print_doc (DStr t) = [DQ] @ t @ [DQ]"
| "print_doc (DBool b) = (if b then ''true'' else ''false'')"
| "print_doc DNull = ''null''"
| "print_doc (DArr ds) = ''['' @ print_elems ds @ '']''"
| "print_doc (DObj ms) = ''{'' @ print_members ms @ ''}''"
| "print_members [] = []"
| "print_members [(k, d)] = [DQ] @ k @ [DQ] @ '':'' @ print_doc d"
| "print_members ((k, d) # ms) = [DQ] @ k @ [DQ] @ '':'' @ print_doc d @ '','' @ print_members ms"
| "print_elems [] = []"
| "print_elems [d] = print_doc d"
| "print_elems (d # ds) = print_doc d @ '','' @ print_elems ds"
  by pat_completeness auto

termination
  by (relation "measure (\<lambda>x. case x of
        Inl d \<Rightarrow> size d
      | Inr (Inl ms) \<Rightarrow> size_list (size_prod (\<lambda>_. 0) size) ms
      | Inr (Inr ds) \<Rightarrow> size_list size ds)") auto

text \<open>Texts that need no escape, number texts, and documents made of them.\<close>

definition plain :: "string \<Rightarrow> bool" where
  "plain t \<longleftrightarrow> (\<forall>c \<in> set t. c \<noteq> DQ \<and> c \<noteq> CHR 0x5C \<and> 32 \<le> (of_char c :: int))"

definition num_text :: "string \<Rightarrow> bool" where
  "num_text t \<longleftrightarrow>
     (\<exists>neg n fr. t = (if neg then ''-'' else '''') @ dec n @ (if fr = [] then [] else CHR ''.'' # fr) \<and>
        0 \<le> n \<and> (\<forall>c \<in> set fr. is_digit c))"

fun wf_doc :: "doc \<Rightarrow> bool" where
  "wf_doc (DNum t) = num_text t"
| "wf_doc (DStr t) = plain t"
| "wf_doc (DBool b) = True"
| "wf_doc DNull = True"
| "wf_doc (DArr ds) = (\<forall>d \<in> set ds. wf_doc d)"
| "wf_doc (DObj ms) = (\<forall>(k, d) \<in> set ms. plain k \<and> wf_doc d)"

section \<open>Reading what was printed\<close>

lemma hd_dec_zero: "0 \<le> n \<Longrightarrow> hd (dec n) = CHR ''0'' \<Longrightarrow> n = 0"
proof (induction n rule: dec.induct)
  case (1 n)
  show ?case
  proof (cases "n < 10")
    case True
    then have "digit_char n = CHR ''0''" using 1 by (simp add: dec.simps [of n])
    then show ?thesis using digit_val_digit_char [of n] 1 True by (simp add: digit_val_def)
  next
    case False
    have "hd (dec n) = hd (dec (n div 10))" using False by (simp add: dec.simps [of n])
    then have "n div 10 = 0" using 1 False by (simp add: pos_imp_zdiv_nonneg_iff)
    then show ?thesis using False 1(2) by presburger
  qed
qed

lemma dec_0: "dec 0 = ''0''"
  by code_simp

definition stops :: "string \<Rightarrow> bool" where
  "stops r \<longleftrightarrow> (case r of [] \<Rightarrow> True | c # _ \<Rightarrow> c = CHR '','' \<or> c = CHR ''}'' \<or> c = CHR '']'')"

lemma stops_not_digit: "stops r \<Longrightarrow> r \<noteq> [] \<Longrightarrow> \<not> is_digit (hd r)"
  by (cases r) (auto simp: stops_def is_digit_def)

lemma takeWhile_digits_append:
  "\<forall>c \<in> set d. is_digit c \<Longrightarrow> r = [] \<or> \<not> is_digit (hd r) \<Longrightarrow>
     takeWhile is_digit (d @ r) = d \<and> dropWhile is_digit (d @ r) = r"
  by (cases r) auto

lemma read_digits_append:
  "d \<noteq> [] \<Longrightarrow> \<forall>c \<in> set d. is_digit c \<Longrightarrow> r = [] \<or> \<not> is_digit (hd r) \<Longrightarrow> read_digits (d @ r) = Some (d, r)"
  using takeWhile_digits_append [of d r] by (simp add: read_digits_def)

lemma read_int_dec:
  assumes "0 \<le> n" and "r = [] \<or> \<not> is_digit (hd r)"
  shows "read_int (dec n @ r) = Some (dec n, r)"
proof (cases "n = 0")
  case True
  then show ?thesis using read_digits_append [of "''0''" r] assms(2)
    by (simp add: read_int_def dec_0 is_digit_def)
next
  case False
  then have "hd (dec n) \<noteq> CHR ''0''" using hd_dec_zero assms(1) by blast
  then show ?thesis using read_digits_append [of "dec n" r] dec_digits assms
    by (simp add: read_int_def)
qed

lemma read_frac_append:
  assumes "\<forall>c \<in> set fr. is_digit c" and "stops r"
  shows "read_frac ((if fr = [] then [] else CHR ''.'' # fr) @ r) =
           Some (if fr = [] then [] else CHR ''.'' # fr, r)"
proof (cases "fr = []")
  case True
  then show ?thesis using assms(2) by (auto simp: read_frac_def stops_def split: list.split)
next
  case False
  then show ?thesis using read_digits_append [OF False assms(1)] stops_not_digit [OF assms(2)]
    by (auto simp: read_frac_def)
qed

lemma read_exp_stops: "stops r \<Longrightarrow> read_exp r = Some ([], r)"
  by (auto simp: read_exp_def stops_def split: list.split)

lemma read_number_text:
  assumes "num_text t" and "stops r"
  shows "read_number (t @ r) = Some (t, r)"
proof -
  obtain neg n fr where t: "t = (if neg then ''-'' else '''') @ dec n @ (if fr = [] then [] else CHR ''.'' # fr)"
    and n: "0 \<le> n" and fr: "\<forall>c \<in> set fr. is_digit c"
    using assms(1) by (auto simp: num_text_def)
  let ?fr = "if fr = [] then [] else CHR ''.'' # fr"
  have "hd (dec n @ ?fr @ r) \<noteq> CHR ''-''"
    using hd_dec [OF n] digit_not_special by (cases "dec n") fastforce+
  then have s: "read_sign (t @ r) = (if neg then ''-'' else '''', dec n @ ?fr @ r)"
    by (simp add: t read_sign_def)
  have "?fr @ r = [] \<or> \<not> is_digit (hd (?fr @ r))"
    using stops_not_digit [OF assms(2)] by (auto simp: is_digit_def)
  note i = read_int_dec [OF n this]
  show ?thesis unfolding read_number_def s Let_def prod.case i option.case
      read_frac_append [OF fr assms(2)] read_exp_stops [OF assms(2)] by (simp add: t)
qed

lemma num_text_hd: "num_text t \<Longrightarrow> t \<noteq> [] \<and> (is_digit (hd t) \<or> hd t = CHR ''-'')"
  using hd_dec by (fastforce simp: num_text_def)

lemma read_chars_plain: "plain t \<Longrightarrow> read_chars (t @ DQ # r) = Some (t, r)"
  by (induction t) (auto simp: plain_def)

lemma skip_ws_Cons [simp]: "skip_ws (c # r) = (if json_ws c then skip_ws r else c # r)"
  by (simp add: skip_ws_def)

lemma skip_ws_stops: "stops r \<Longrightarrow> skip_ws r = r"
  by (cases r) (auto simp: stops_def skip_ws_def json_ws_def)

lemma json_ws_simps [simp]:
  "\<not> json_ws DQ" "\<not> json_ws (CHR ''{'')" "\<not> json_ws (CHR ''}'')" "\<not> json_ws (CHR ''['')" "\<not> json_ws (CHR '']'')"
  "\<not> json_ws (CHR '','')" "\<not> json_ws (CHR '':'')" "\<not> json_ws (CHR ''t'')" "\<not> json_ws (CHR ''f'')" "\<not> json_ws (CHR ''n'')"
  by (simp_all add: json_ws_def)

lemma stops_simps [simp]: "stops []" "stops (CHR '','' # r)" "stops (CHR ''}'' # r)" "stops (CHR '']'' # r)"
  by (simp_all add: stops_def)

lemma read_value_num:
  assumes "num_text t" and "stops r"
  shows "read_value (Suc n) (t @ r) = Some (DNum t, r)"
proof -
  obtain c u where t: "t = c # u" and c: "is_digit c \<or> c = CHR ''-''"
    using num_text_hd [OF assms(1)] by (cases t) auto
  have "\<not> json_ws c \<and> c \<notin> set (DQ # ''{[tfn'')" using c by (auto simp: json_ws_def is_digit_def)
  then show ?thesis using read_number_text [OF assms] by (simp add: t)
qed

lemma print_doc_hd:
  assumes "wf_doc d"
  shows "print_doc d \<noteq> [] \<and> \<not> json_ws (hd (print_doc d)) \<and> hd (print_doc d) \<noteq> CHR '']''"
proof (cases d)
  case (DNum t)
  then show ?thesis using num_text_hd [of t] assms by (auto simp: json_ws_def is_digit_def)
qed auto

lemma print_members_hd: "ms \<noteq> [] \<Longrightarrow> \<exists>u. print_members ms = DQ # u"
  by (cases ms rule: print_members.cases) auto

lemma print_elems_hd:
  assumes "ds \<noteq> []" and "\<forall>d \<in> set ds. wf_doc d"
  shows "\<exists>c u. print_elems ds = c # u \<and> \<not> json_ws c \<and> c \<noteq> CHR '']''"
proof -
  obtain d ds' where ds: "ds = d # ds'" using assms(1) by (cases ds) auto
  then obtain c u where "print_doc d = c # u" "\<not> json_ws c" "c \<noteq> CHR '']''"
    using print_doc_hd [of d] assms(2) by (cases "print_doc d") auto
  then show ?thesis by (cases ds') (simp_all add: ds)
qed

lemma read_print:
  "wf_doc d \<Longrightarrow> stops r \<Longrightarrow> length (print_doc d) \<le> n \<Longrightarrow> read_value n (print_doc d @ r) = Some (d, r)"
  "\<forall>(k, d) \<in> set ms. plain k \<and> wf_doc d \<Longrightarrow> ms \<noteq> [] \<Longrightarrow> length (print_members ms) \<le> m \<Longrightarrow>
     read_members m (print_members ms @ CHR ''}'' # r1) = Some (ms, r1)"
  "\<forall>d \<in> set ds. wf_doc d \<Longrightarrow> ds \<noteq> [] \<Longrightarrow> length (print_elems ds) < l \<Longrightarrow>
     read_elems l (print_elems ds @ CHR '']'' # r2) = Some (ds, r2)"
proof (induction d and ms and ds arbitrary: n r and m r1 and l r2
    rule: print_doc_print_members_print_elems.induct)
  case (1 t)
  then show ?case using read_value_num num_text_hd by (cases n) auto
next
  case (2 t)
  then show ?case by (cases n) (simp_all add: read_chars_plain)
next
  case (3 b)
  then show ?case by (cases n) (auto simp: read_word_def split: if_splits)
next
  case 4
  then show ?case by (cases n) (auto simp: read_word_def)
next
  case (5 ds)
  obtain n' where n: "n = Suc n'" using 5(4) by (cases n) auto
  show ?case
  proof (cases "ds = []")
    case False
    then obtain c u where u: "print_elems ds = c # u" "\<not> json_ws c" "c \<noteq> CHR '']''"
      using 5(2) print_elems_hd [of ds] by auto
    show ?thesis using 5 False u n by simp
  qed (simp add: n)
next
  case (6 ms)
  obtain n' where n: "n = Suc n'" using 6(4) by (cases n) auto
  show ?case
  proof (cases "ms = []")
    case False
    then obtain u where u: "print_members ms = DQ # u" using print_members_hd by blast
    show ?thesis using 6 False u n by simp
  qed (simp add: n)
next
  case 7
  then show ?case by simp
next
  case (8 k d)
  then show ?case by (cases m) (simp_all add: read_chars_plain)
next
  case (9 k d a ms)
  then show ?case by (cases m) (simp_all add: read_chars_plain)
next
  case 10
  then show ?case by simp
next
  case (11 d)
  then show ?case by (cases l) simp_all
next
  case (12 d a ds)
  then show ?case by (cases l) simp_all
qed

text \<open>Round trip: the reader gives back every document of printable texts.\<close>

lemma json_read_print: "wf_doc d \<Longrightarrow> json_read (print_doc d) = Some d"
  using read_print(1) [of d "[]" "length (print_doc d)"] by (simp add: json_read_def skip_ws_def)

section \<open>Texts of the C formats\<close>

lemma num_text_fmt_u: "0 \<le> n \<Longrightarrow> num_text (fmt_u n)"
  unfolding num_text_def fmt_u_def by (rule exI [of _ False], rule exI [of _ n], rule exI [of _ "[]"]) simp

lemma num_text_fmt_d: "num_text (fmt_d i)"
  unfolding num_text_def fmt_d_def
  by (rule exI [of _ "i < 0"], rule exI [of _ "\<bar>i\<bar>"], rule exI [of _ "[]"]) simp

text \<open>A finite value with the magnitude of one.\<close>

definition fp_finite :: "fp \<Rightarrow> bool" where
  "fp_finite x \<longleftrightarrow> (case x of Fin s m \<Rightarrow> 0 \<le> m | _ \<Rightarrow> False)"

lemma zero_pad_digits: "0 \<le> n \<Longrightarrow> \<forall>c \<in> set (zero_pad p (dec n)). is_digit c"
  using dec_digits [of n] by (auto simp: zero_pad_def is_digit_def)

lemma num_text_fmt_f:
  assumes "fp_finite x" shows "num_text (fmt_f p x)"
proof (cases x)
  case (Fin s m)
  let ?n = "round_even (m * 10 ^ p)"
  let ?fr = "if p = 0 then [] else zero_pad p (dec (?n mod 10 ^ p))"
  have "0 \<le> ?n" using assms Fin by (intro round_even_nonneg) (simp add: fp_finite_def)
  then have "0 \<le> ?n div 10 ^ p" by (simp add: pos_imp_zdiv_nonneg_iff)
  moreover have "\<forall>c \<in> set ?fr. is_digit c" using zero_pad_digits [of "?n mod 10 ^ p" p] by simp
  moreover have "zero_pad p (dec (?n mod 10 ^ p)) \<noteq> []" by (simp add: zero_pad_def)
  then have "fmt_f p x = (if s then ''-'' else '''') @ dec (?n div 10 ^ p) @ (if ?fr = [] then [] else CHR ''.'' # ?fr)"
    by (simp add: Fin fixed_dec_def)
  ultimately show ?thesis unfolding num_text_def by blast
qed (use assms in \<open>simp_all add: fp_finite_def\<close>)

section \<open>The value a reader takes from a number\<close>

text \<open>The value of a number text without exponent.\<close>

definition fixed_val :: "string \<Rightarrow> rat" where
  "fixed_val t =
     (let (sg, s) = read_sign t;
          i = takeWhile is_digit s;
          fr = takeWhile is_digit (drop 1 (dropWhile is_digit s));
          v = of_int (dec_val i) + of_int (dec_val fr) / 10 ^ length fr
      in if sg = [] then v else - v)"

lemma dec_val_zeros: "dec_val (replicate k (CHR ''0'') @ s) = dec_val s"
proof -
  have "foldl (\<lambda>a c. 10 * a + digit_val c) 0 (replicate k (CHR ''0'')) = (0 :: int)"
    by (induction k) (simp_all add: digit_val_def)
  then show ?thesis by (simp add: dec_val_def)
qed

lemma fixed_val_fixed_dec:
  assumes "0 < p" and "0 \<le> n"
  shows "fixed_val ((if s then ''-'' else '''') @ fixed_dec p n) =
           (if s then - (of_int n / 10 ^ p) else of_int n / 10 ^ p)"
proof -
  let ?q = "n div 10 ^ p" and ?fr = "zero_pad p (dec (n mod 10 ^ p))"
  have q: "0 \<le> ?q" using assms(2) by (simp add: pos_imp_zdiv_nonneg_iff)
  have sg: "read_sign ((if s then ''-'' else '''') @ fixed_dec p n) = (if s then ''-'' else '''', dec ?q @ CHR ''.'' # ?fr)"
    using assms(1) hd_dec [OF q] digit_not_special
    by (cases "dec ?q") (fastforce simp: read_sign_def fixed_dec_def)+
  have nd: "\<not> is_digit (CHR ''.'')" by (simp add: is_digit_def)
  have i: "takeWhile is_digit (dec ?q @ CHR ''.'' # ?fr) = dec ?q"
      "dropWhile is_digit (dec ?q @ CHR ''.'' # ?fr) = CHR ''.'' # ?fr"
    using takeWhile_digits_append [of "dec ?q" "CHR ''.'' # ?fr"] dec_digits [OF q] nd by auto
  have f: "takeWhile is_digit ?fr = ?fr" using zero_pad_digits [of "n mod 10 ^ p" p] by (simp add: takeWhile_eq_all_conv)
  have l: "length ?fr = p" using assms(1) by (intro length_zero_pad) auto
  have v: "dec_val ?fr = n mod 10 ^ p" by (simp add: zero_pad_def dec_val_zeros)
  have "of_int ?q + of_int (n mod 10 ^ p) / 10 ^ p = (of_int n / 10 ^ p :: rat)"
  proof -
    have "n = ?q * 10 ^ p + n mod 10 ^ p" by (rule div_mult_mod_eq [symmetric])
    then have "(of_int n :: rat) = of_int ?q * 10 ^ p + of_int (n mod 10 ^ p)"
      by (metis of_int_add of_int_mult of_int_numeral of_int_power)
    then show ?thesis by (simp add: field_simps)
  qed
  then show ?thesis using q unfolding fixed_val_def sg Let_def prod.case i by (simp add: f l v)
qed

text \<open>Printing with \<open>p\<close> decimals loses at most half a unit of the last one.\<close>

lemma fixed_val_fmt_f:
  assumes "0 < p" and "fp_finite x"
  shows "\<bar>fixed_val (fmt_f p x) - fp_val x\<bar> \<le> 1 / (2 * 10 ^ p)"
proof (cases x)
  case (Fin s m)
  let ?n = "round_even (m * 10 ^ p)"
  have m: "0 \<le> m" using assms(2) by (simp add: Fin fp_finite_def)
  then have n: "0 \<le> ?n" by (intro round_even_nonneg) simp
  have "of_int ?n / 10 ^ p - m = (of_int ?n - m * 10 ^ p) / 10 ^ p" by (simp add: field_simps)
  then have "\<bar>of_int ?n / 10 ^ p - m\<bar> = \<bar>of_int ?n - m * 10 ^ p\<bar> / 10 ^ p" by (simp add: abs_divide)
  also have "\<dots> \<le> (1 / 2) / 10 ^ p" by (intro divide_right_mono round_even_close) simp
  finally have "\<bar>of_int ?n / 10 ^ p - m\<bar> \<le> 1 / (2 * 10 ^ p)" by simp
  moreover have "fixed_val (fmt_f p x) = (if s then - (of_int ?n / 10 ^ p) else of_int ?n / 10 ^ p)"
    using fixed_val_fixed_dec [OF assms(1) n, of s] by (simp add: Fin)
  moreover have "\<bar>- a - - b\<bar> = \<bar>a - b\<bar>" for a b :: rat by simp
  ultimately show ?thesis by (cases s) (auto simp: Fin)
qed (use assms in \<open>simp_all add: fp_finite_def\<close>)

lemma fixed_val_fmt_u: "0 \<le> n \<Longrightarrow> fixed_val (fmt_u n) = of_int n"
proof -
  assume n: "0 \<le> n"
  have "hd (dec n) \<noteq> CHR ''-''" using hd_dec [OF n] digit_not_special by fastforce
  then have "read_sign (dec n) = ([], dec n)" by (simp add: read_sign_def)
  moreover have "dropWhile is_digit (dec n) = []" using dec_digits [OF n] by simp
  ultimately show ?thesis using n
    by (simp add: fixed_val_def fmt_u_def Let_def del: dropWhile_eq_Nil_conv)
qed

section \<open>Texts the reader rejects\<close>

text \<open>What \<^verbatim>\<open>%f\<close> prints for infinities and NaNs is not a JSON value.\<close>

definition no_number :: "string \<Rightarrow> bool" where
  "no_number t \<longleftrightarrow> t \<in> {''nan'', ''-nan'', ''inf'', ''-inf''}"

lemma no_number_read: "no_number t \<Longrightarrow> read_value n (t @ r) = None"
  by (cases n) (auto simp: no_number_def json_ws_def read_word_def read_number_def read_sign_def read_int_def
      read_digits_def is_digit_def)

lemma no_number_not_num:
  assumes "no_number t" shows "\<not> num_text t"
proof
  assume "num_text t"
  then have "read_value (Suc 0) (t @ []) = Some (DNum t, [])" by (rule read_value_num) simp
  then show False using no_number_read [OF assms, of "Suc 0" "[]"] by simp
qed

lemma fmt_f_no_number: "in_range f x \<Longrightarrow> \<not> fp_finite x \<Longrightarrow> no_number (fmt_f p x)"
  by (cases x) (auto simp: fp_finite_def in_range_def no_number_def)

lemma read_members_None:
  "plain k \<Longrightarrow> read_value n s = None \<Longrightarrow> read_members (Suc n) (DQ # k @ DQ # CHR '':'' # s) = None"
  by (simp add: read_chars_plain)

lemma read_object_None:
  "read_members n (DQ # r) = None \<Longrightarrow> read_value (Suc n) (CHR ''{'' # DQ # r) = None"
  by simp

lemma read_members_more:
  "plain k \<Longrightarrow> read_value n s = Some (v, CHR '','' # r) \<Longrightarrow>
     read_members (Suc n) (DQ # k @ DQ # CHR '':'' # s) = map_option (\<lambda>(ms, r). ((k, v) # ms, r)) (read_members n r)"
  by (simp add: read_chars_plain)

text \<open>Members of which each is well-formed or such a text: one bad member spoils the object.\<close>

definition almost_wf :: "string \<times> doc \<Rightarrow> bool" where
  "almost_wf m \<longleftrightarrow> plain (fst m) \<and> (wf_doc (snd m) \<or> (\<exists>t. snd m = DNum t \<and> no_number t))"

lemma read_members_reject:
  assumes "\<forall>m \<in> set ms. almost_wf m" and "\<exists>m \<in> set ms. \<not> wf_doc (snd m)" and "length (print_members ms) \<le> n"
  shows "read_members n (print_members ms @ CHR ''}'' # r) = None"
  using assms
proof (induction ms arbitrary: n)
  case (Cons m ms)
  obtain k d where m: "m = (k, d)" by fastforce
  have k: "plain k" using Cons.prems(1) by (simp add: m almost_wf_def)
  show ?case
  proof (cases n)
    case (Suc n')
    show ?thesis
    proof (cases "wf_doc d")
      case False
      then obtain t where "d = DNum t" "no_number t" using Cons.prems(1) by (auto simp: m almost_wf_def)
      then show ?thesis using no_number_read [of t n'] k
        by (cases ms) (simp_all add: m Suc read_chars_plain)
    next
      case True
      then have ms: "\<exists>m \<in> set ms. \<not> wf_doc (snd m)" using Cons.prems(2) by (auto simp: m)
      then obtain b bs where c: "ms = b # bs" by (cases ms) auto
      have p: "print_members (m # ms) = [DQ] @ k @ [DQ] @ '':'' @ print_doc d @ '','' @ print_members ms"
        by (simp add: m c)
      then have n: "length (print_doc d) \<le> n'" "length (print_members ms) \<le> n'"
        using Cons.prems(3) by (simp_all add: Suc)
      show ?thesis unfolding p Suc
        using k read_print(1) [OF True _ n(1), of "CHR '','' # print_members ms @ CHR ''}'' # r"]
          Cons.IH [OF _ ms n(2)] Cons.prems(1)
        by (simp add: read_chars_plain)
    qed
  qed simp
qed simp

end
