(* ===== verification/Json_Replies.thy ===== *)
theory Json_Replies
  imports Json_Text Linked_Builds
begin

text \<open>
  The replies of the daemon as JSON. Every reply body is the printed form of a document, so that the
  reader of \<^verbatim>\<open>Json_Text\<close> gives the document back, as long as the floating-point readings in it are
  finite and a file name repeated in it needs no escape; a reading that is not finite makes the reply
  no JSON at all.
\<close>

section \<open>Documents of the replies\<close>

definition ping_doc :: "u64 \<Rightarrow> doc" where
  "ping_doc up = DObj [(''pong'', DBool True), (''uptime_ms'', DNum (fmt_u (uint up)))]"

definition telemetry_members :: "DroneTelemetry \<Rightarrow> (string \<times> doc) list" where
  "telemetry_members t =
     [(''lat'', DNum (fmt_f 8 (t_lat t))), (''lon'', DNum (fmt_f 8 (t_lon t))),
      (''alt_msl_m'', DNum (fmt_f 2 (t_alt_msl_m t))), (''alt_rel_m'', DNum (fmt_f 2 (t_alt_rel_m t))),
      (''vx_ms'', DNum (fmt_f 2 (t_vx_ms t))), (''vy_ms'', DNum (fmt_f 2 (t_vy_ms t))),
      (''vz_ms'', DNum (fmt_f 2 (t_vz_ms t))), (''heading_deg'', DNum (fmt_f 1 (t_heading_deg t))),
      (''battery_pct'', DNum (fmt_u (uint (t_battery_pct t)))),
      (''battery_mv'', DNum (fmt_u (uint (t_battery_mv t)))),
      (''gps_sats'', DNum (fmt_u (uint (t_gps_sats t)))), (''gps_fix'', DNum (fmt_u (uint (t_gps_fix t)))),
      (''flight_status'', DNum (fmt_u (uint (t_flight_status t)))),
      (''motors_on'', DBool (t_motors_on t))]"

definition battery_doc :: "DroneBatteryInfo \<Rightarrow> doc" where
  "battery_doc b =
     DObj [(''voltage_mv'', DNum (fmt_u (uint (b_voltage_mv b)))),
           (''current_ma'', DNum (fmt_d (sint (b_current_ma b)))),
           (''remaining_pct'', DNum (fmt_u (uint (b_remaining_pct b)))),
           (''temperature_dc'', DNum (fmt_d (sint (b_temperature_dc b)))),
           (''cycle_count'', DNum (fmt_u (uint (b_cycle_count b))))]"

definition gimbal_doc :: "DroneGimbalAngle \<Rightarrow> doc" where
  "gimbal_doc g =
     DObj [(''pitch'', DNum (fmt_f 2 (pitch g))), (''roll'', DNum (fmt_f 2 (roll g))),
           (''yaw'', DNum (fmt_f 2 (yaw g)))]"

definition camera_doc :: "DroneCameraState \<Rightarrow> doc" where
  "camera_doc c =
     DObj [(''mode'', DNum (fmt_d (c_mode c))), (''is_recording'', DBool (c_is_recording c)),
           (''zoom_factor'', DNum (fmt_f 2 (c_zoom_factor c)))]"

definition rtk_doc :: "DroneRtkStatus \<Rightarrow> doc" where
  "rtk_doc r =
     DObj [(''enabled'', DBool (r_enabled r)), (''fix_type'', DNum (fmt_u (uint (r_fix_type r)))),
           (''satellites'', DNum (fmt_u (uint (r_satellites r)))),
           (''lat'', DNum (fmt_f 8 (r_lat r))), (''lon'', DNum (fmt_f 8 (r_lon r))),
           (''alt_m'', DNum (fmt_f 2 (r_alt_m r)))]"

definition uploaded_doc :: "string \<Rightarrow> string \<Rightarrow> doc" where
  "uploaded_doc name path =
     DObj [(''uploaded'', DBool True), (''file'', DStr name), (''path'', DStr path)]"

definition result_doc :: "int \<Rightarrow> doc \<Rightarrow> doc" where
  "result_doc i d = DObj [(''id'', DNum (fmt_d i)), (''result'', d)]"

definition error_doc :: "int \<Rightarrow> string \<Rightarrow> doc" where
  "error_doc i m = DObj [(''id'', DNum (fmt_d i)), (''error'', DStr m)]"

lemmas doc_defs =
  ping_doc_def telemetry_members_def battery_doc_def gimbal_doc_def camera_doc_def rtk_doc_def uploaded_doc_def

lemma printed_bodies:
  "ping_json up = print_doc (ping_doc up)"
  "telemetry_json t = print_doc (DObj (telemetry_members t))"
  "battery_json b = print_doc (battery_doc b)"
  "gimbal_json g = print_doc (gimbal_doc g)"
  "camera_json c = print_doc (camera_doc c)"
  "rtk_json r = print_doc (rtk_doc r)"
  "uploaded_json n p = print_doc (uploaded_doc n p)"
  by (simp_all add: ping_json_def telemetry_json_def battery_json_def gimbal_json_def camera_json_def rtk_json_def
      uploaded_json_def doc_defs jkey_def jbool_def)

lemma printed_replies:
  "reply_text i (Result (print_doc d)) = print_doc (result_doc i d)"
  "reply_text i (Error m) = print_doc (error_doc i m)"
  by (simp_all add: result_text_def error_text_def result_doc_def error_doc_def)

lemma plain_keys [simp]:
  "plain ''pong''" "plain ''uptime_ms''" "plain ''lat''" "plain ''lon''" "plain ''alt_msl_m''" "plain ''alt_rel_m''"
  "plain ''vx_ms''" "plain ''vy_ms''" "plain ''vz_ms''" "plain ''heading_deg''" "plain ''battery_pct''"
  "plain ''battery_mv''" "plain ''gps_sats''" "plain ''gps_fix''" "plain ''flight_status''" "plain ''motors_on''"
  "plain ''voltage_mv''" "plain ''current_ma''" "plain ''remaining_pct''" "plain ''temperature_dc''"
  "plain ''cycle_count''" "plain ''pitch''" "plain ''roll''" "plain ''yaw''" "plain ''mode''" "plain ''is_recording''"
  "plain ''zoom_factor''" "plain ''enabled''" "plain ''fix_type''" "plain ''satellites''" "plain ''alt_m''"
  "plain ''uploaded''" "plain ''file''" "plain ''path''" "plain ''id''" "plain ''result''" "plain ''error''"
  by (simp_all add: plain_def)

lemma num_texts [simp]:
  "num_text (fmt_u (uint w))" "num_text (fmt_d i)" "fp_finite x \<Longrightarrow> num_text (fmt_f p x)"
  by (simp_all add: num_text_fmt_u num_text_fmt_d num_text_fmt_f)

text \<open>Readings all of whose floating-point fields are finite.\<close>

definition telemetry_finite :: "DroneTelemetry \<Rightarrow> bool" where
  "telemetry_finite t \<longleftrightarrow>
     (\<forall>x \<in> {t_lat t, t_lon t, t_alt_msl_m t, t_alt_rel_m t, t_vx_ms t, t_vy_ms t, t_vz_ms t, t_heading_deg t}.
        fp_finite x)"

definition gimbal_finite :: "DroneGimbalAngle \<Rightarrow> bool" where
  "gimbal_finite g \<longleftrightarrow> fp_finite (pitch g) \<and> fp_finite (roll g) \<and> fp_finite (yaw g)"

definition rtk_finite :: "DroneRtkStatus \<Rightarrow> bool" where
  "rtk_finite r \<longleftrightarrow> fp_finite (r_lat r) \<and> fp_finite (r_lon r) \<and> fp_finite (r_alt_m r)"

lemma wf_bodies:
  "wf_doc (ping_doc up)" "wf_doc (battery_doc b)"
  "telemetry_finite t \<Longrightarrow> wf_doc (DObj (telemetry_members t))"
  "gimbal_finite g \<Longrightarrow> wf_doc (gimbal_doc g)"
  "fp_finite (c_zoom_factor c) \<Longrightarrow> wf_doc (camera_doc c)"
  "rtk_finite r \<Longrightarrow> wf_doc (rtk_doc r)"
  "plain n \<Longrightarrow> plain p \<Longrightarrow> wf_doc (uploaded_doc n p)"
  by (simp_all add: doc_defs telemetry_finite_def gimbal_finite_def rtk_finite_def)

lemma read_result: "wf_doc d \<Longrightarrow> json_read (reply_text i (Result (print_doc d))) = Some (result_doc i d)"
  unfolding printed_replies by (rule json_read_print) (simp add: result_doc_def)

lemma read_error: "plain m \<Longrightarrow> json_read (reply_text i (Error m)) = Some (error_doc i m)"
  unfolding printed_replies by (rule json_read_print) (simp add: error_doc_def)

section \<open>Replies that are no JSON\<close>

lemma json_read_reject:
  assumes "\<forall>m \<in> set ms. almost_wf m" and "\<exists>m \<in> set ms. \<not> wf_doc (snd m)"
  shows "json_read (reply_text i (Result (print_doc (DObj ms)))) = None"
proof -
  have "ms \<noteq> []" using assms(2) by auto
  then obtain u where u: "print_members ms = DQ # u" using print_members_hd by blast
  have v: "read_value n (print_doc (DObj ms) @ CHR ''}'' # r) = None" if "length (print_doc (DObj ms)) \<le> n" for n r
    using that read_members_reject [OF assms, of "n - 1" "CHR ''}'' # r"] by (cases n) (simp_all add: u)
  let ?id = "DNum (fmt_d i)"
  have id: "read_value n (print_doc ?id @ r) = Some (?id, r)" if "stops r" "length (print_doc ?id) \<le> n" for n r
    using that by (intro read_print(1)) simp_all
  let ?p = "print_doc (result_doc i (DObj ms))"
  let ?m2 = "DQ # ''result'' @ DQ # CHR '':'' # print_doc (DObj ms) @ CHR ''}'' # []"
  obtain a where a: "length ?p = Suc (Suc (Suc a))" "length (print_doc ?id) \<le> Suc a"
      "length (print_doc (DObj ms)) \<le> a"
    by (rule that [of "length ?p - 3"]) (simp_all add: result_doc_def)
  have m2: "read_members (Suc a) ?m2 = None" by (rule read_members_None [OF _ v [OF a(3)]]) simp
  have i: "read_value (Suc a) (print_doc ?id @ CHR '','' # ?m2) = Some (?id, CHR '','' # ?m2)"
    by (rule id [OF _ a(2)]) simp
  have "read_members (Suc (Suc a)) (DQ # ''id'' @ DQ # CHR '':'' # print_doc ?id @ CHR '','' # ?m2) = None"
    using read_members_more [OF _ i, of "''id''"] unfolding m2 by (simp only: plain_keys option.map)
  then have "read_value (length ?p) ?p = None" unfolding a(1) by (simp add: result_doc_def)
  then show ?thesis unfolding printed_replies by (simp add: json_read_def)
qed

lemma almost_wf_num: "plain k \<Longrightarrow> in_range f x \<Longrightarrow> almost_wf (k, DNum (fmt_f p x))"
  using fmt_f_no_number [of f x p] num_texts(3) [of x p] by (cases "fp_finite x") (simp_all add: almost_wf_def)

text \<open>A telemetry reply is JSON exactly when every floating-point field of the reading is finite.\<close>

lemma telemetry_reply_read:
  assumes "telemetry_ok t"
  shows "json_read (reply_text i (Result (telemetry_json t))) =
           (if telemetry_finite t then Some (result_doc i (DObj (telemetry_members t))) else None)"
proof (cases "telemetry_finite t")
  case True
  then show ?thesis unfolding printed_bodies using read_result [OF wf_bodies(3)] by simp
next
  case False
  have r: "\<exists>f. in_range f x" if "x \<in> {t_lat t, t_lon t, t_alt_msl_m t, t_alt_rel_m t, t_vx_ms t, t_vy_ms t, t_vz_ms t,
      t_heading_deg t}" for x
  proof -
    have "fp_bounded (10 ^ 20) x \<Longrightarrow> in_range \<lparr>fmt_prec = 0, fmt_qmin = 0, fmt_qmax = 100\<rparr> x" for x
      by (auto simp: fp_bounded_def in_range_def pow2_def split: fp.splits)
    then show ?thesis using that assms unfolding telemetry_ok_def by blast
  qed
  have a: "almost_wf (k, DNum (fmt_f p x))" if "plain k" "x \<in> {t_lat t, t_lon t, t_alt_msl_m t, t_alt_rel_m t, t_vx_ms t,
      t_vy_ms t, t_vz_ms t, t_heading_deg t}" for k p x
    using r [OF that(2)] almost_wf_num [OF that(1)] by blast
  have b: "\<not> num_text (fmt_f p x)" if "x \<in> {t_lat t, t_lon t, t_alt_msl_m t, t_alt_rel_m t, t_vx_ms t, t_vy_ms t,
      t_vz_ms t, t_heading_deg t}" "\<not> fp_finite x" for p x
    using r [OF that(1)] fmt_f_no_number [OF _ that(2)] no_number_not_num by blast
  have "\<forall>m \<in> set (telemetry_members t). almost_wf m"
    unfolding telemetry_members_def using a by (simp, simp add: almost_wf_def)
  moreover have "\<exists>m \<in> set (telemetry_members t). \<not> wf_doc (snd m)"
    using False b unfolding telemetry_finite_def telemetry_members_def by auto
  ultimately show ?thesis unfolding printed_bodies using json_read_reject False by simp
qed

section \<open>Every reply is JSON\<close>

text \<open>A body that is a printed object, or an error text that needs no escape.\<close>

definition reply_json :: "rpc_reply \<Rightarrow> bool" where
  "reply_json r \<longleftrightarrow>
     (case r of Result b \<Rightarrow> (\<exists>ms. b = print_doc (DObj ms) \<and> wf_doc (DObj ms)) | Error m \<Rightarrow> plain m)"

lemma reply_json_Error: "plain m \<Longrightarrow> reply_json (Error m)"
  by (simp add: reply_json_def)

lemma reply_json_bodies:
  "reply_json (Result ''{}'')"
  "reply_json (Result (ping_json up))" "reply_json (Result (battery_json b))"
  "telemetry_finite t \<Longrightarrow> reply_json (Result (telemetry_json t))"
  "gimbal_finite g \<Longrightarrow> reply_json (Result (gimbal_json g))"
  "fp_finite (c_zoom_factor c) \<Longrightarrow> reply_json (Result (camera_json c))"
  "rtk_finite r \<Longrightarrow> reply_json (Result (rtk_json r))"
  "plain n \<Longrightarrow> reply_json (Result (uploaded_json n (KMZ_BASE_DIR @ ''/'' @ n)))"
proof -
  show "reply_json (Result ''{}'')" unfolding reply_json_def rpc_reply.case by (rule exI [of _ "[]"]) simp
  show "plain n \<Longrightarrow> reply_json (Result (uploaded_json n (KMZ_BASE_DIR @ ''/'' @ n)))"
    using wf_bodies(7) [of n "KMZ_BASE_DIR @ ''/'' @ n"] unfolding reply_json_def rpc_reply.case printed_bodies
    by (simp only: uploaded_doc_def) (rule exI, rule conjI, rule refl, simp add: plain_def KMZ_BASE_DIR_def)
qed (use wf_bodies in \<open>auto simp only: reply_json_def rpc_reply.case printed_bodies ping_doc_def battery_doc_def
      gimbal_doc_def camera_doc_def rtk_doc_def\<close>)

lemma act_value_json:
  assumes "act (value_reply msg body) f s tr = (rep, s', tr')" and "plain msg"
    and "\<And>x b tr1. f (hs_bsp s) tr = (Inr x, b, tr1) \<Longrightarrow> reply_json (Result (body x))"
  shows "reply_json rep"
  using assms by (auto simp: act_def value_reply_def run_bsp_def reply_json_Error split: prod.splits sum.splits)

lemma act_status_json:
  assumes "act (status_reply body msg) f s tr = (rep, s', tr')" and "plain msg" and "reply_json (Result body)"
  shows "reply_json rep"
  using assms by (auto simp: act_def status_reply_def reply_json_Error split: prod.splits)

lemma plain_messages:
  "plain ''failed to read telemetry''" "plain ''failed to read battery info''" "plain ''failed to read gimbal angle''"
  "plain ''failed to read camera state''" "plain ''failed to read RTK status''" "plain ''kmz upload failed''"
  "plain ''PSDK set rth altitude failed''" "plain ''PSDK set gimbal angle failed''" "plain ''PSDK set camera mode failed''"
  "plain ''PSDK set camera zoom failed''" "plain ''PSDK set home location failed''"
  "plain ''PSDK set obstacle avoidance failed''" "plain ''PSDK shoot photo failed''"
  "plain ''PSDK start recording failed''" "plain ''PSDK stop recording failed''"
  by (simp_all add: plain_def)

lemma action_of_refuse_plain: "action_of jl m p = Refuse msg \<Longrightarrow> plain msg"
proof (cases "map_of method_table m")
  case (Some k)
  assume "action_of jl m p = Refuse msg"
  then show ?thesis using Some
    by (cases k) (auto simp: action_of_def Let_def refuse_if_def plain_def split: option.splits if_splits)
qed (auto simp: action_of_def plain_def)

definition name_plain :: "rpc_action \<Rightarrow> bool" where
  "name_plain a \<longleftrightarrow> (case a of Do_Upload n \<Rightarrow> plain n | _ \<Rightarrow> True)"

text \<open>The reply to an action is JSON when the reading it asks for, if any, is finite.\<close>

lemma perform_json_of:
  assumes tel: "\<And>t b tr1. action_of jl m p = Do_Get Get_Telemetry \<Longrightarrow>
        op_get_telemetry ops (hs_bsp s) tr = (Inr t, b, tr1) \<Longrightarrow> telemetry_finite t"
    and gim: "\<And>g b tr1. action_of jl m p = Do_Get Get_Gimbal_Angle \<Longrightarrow>
        op_get_gimbal_angle ops (hs_bsp s) tr = (Inr g, b, tr1) \<Longrightarrow> gimbal_finite g"
    and cam: "\<And>c b tr1. action_of jl m p = Do_Get Get_Camera_State \<Longrightarrow>
        op_get_camera_state ops (hs_bsp s) tr = (Inr c, b, tr1) \<Longrightarrow> fp_finite (c_zoom_factor c)"
    and rtk: "\<And>r b tr1. op_get_rtk_status ops (hs_bsp s) tr = (Inr r, b, tr1) \<Longrightarrow> rtk_finite r"
    and P: "perform e ops (action_of jl m p) s tr = (rep, s', tr')" and n: "name_plain (action_of jl m p)"
  shows "reply_json rep"
proof (cases "action_of jl m p")
  case Do_Ping
  then show ?thesis using P by (auto simp: reply_json_bodies split: prod.splits)
next
  case (Do_Get k)
  note rules = act_value_json [OF _ _ tel [THEN reply_json_bodies(4)]]
    act_value_json [OF _ _ reply_json_bodies(3)]
    act_value_json [OF _ _ gim [THEN reply_json_bodies(5)]]
    act_value_json [OF _ _ cam [THEN reply_json_bodies(6)]]
    act_value_json [OF _ _ rtk [THEN reply_json_bodies(7)]]
  show ?thesis using P Do_Get by (auto simp: plain_messages split: if_splits elim!: rules)
next
  case (Do_Upload f)
  then show ?thesis using P n act_status_json [OF _ plain_messages(6) reply_json_bodies(8)]
    by (simp add: Let_def name_plain_def) blast
next
  case (Refuse msg)
  then show ?thesis using P action_of_refuse_plain [OF Refuse] by (auto simp: reply_json_Error)
qed (use P in \<open>auto simp: plain_messages reply_json_bodies split: if_splits elim!: act_status_json\<close>)

text \<open>What the replies need of a provider: in the states of interest its readings are finite.\<close>

locale json_readings =
  fixes ops :: "'b drone_ops" and I :: "'b \<Rightarrow> bool"
  assumes telemetry_fin: "I s \<Longrightarrow> op_get_telemetry ops s tr = (Inr t, s', tr') \<Longrightarrow> telemetry_finite t"
    and gimbal_fin: "I s \<Longrightarrow> op_get_gimbal_angle ops s tr = (Inr g, s', tr') \<Longrightarrow> gimbal_finite g"
    and camera_fin: "I s \<Longrightarrow> op_get_camera_state ops s tr = (Inr c, s', tr') \<Longrightarrow> fp_finite (c_zoom_factor c)"
    and rtk_fin: "I s \<Longrightarrow> op_get_rtk_status ops s tr = (Inr r, s', tr') \<Longrightarrow> rtk_finite r"
begin

lemma perform_json:
  assumes I: "I (hs_bsp s)" and "perform e ops (action_of jl m p) s tr = (rep, s', tr')"
    and "name_plain (action_of jl m p)"
  shows "reply_json rep"
  by (rule perform_json_of [OF telemetry_fin [OF I] gimbal_fin [OF I] camera_fin [OF I] rtk_fin [OF I] assms(2,3)])

end

text \<open>What the client reads: the id of its request and the body of the reply as a document.\<close>

definition reply_read :: "int \<Rightarrow> rpc_reply \<Rightarrow> bool" where
  "reply_read i r \<longleftrightarrow>
     (case r of
        Result b \<Rightarrow> (\<exists>ms. b = print_doc (DObj ms) \<and> json_read (reply_text i r) = Some (result_doc i (DObj ms)))
      | Error m \<Rightarrow> json_read (reply_text i r) = Some (error_doc i m))"

lemma reply_json_read: "reply_json r \<Longrightarrow> reply_read i r"
proof (cases r)
  case (Result b)
  moreover assume "reply_json r"
  ultimately obtain ms where "b = print_doc (DObj ms)" "wf_doc (DObj ms)" by (auto simp only: reply_json_def rpc_reply.case)
  then show ?thesis using read_result [of "DObj ms" i] unfolding reply_read_def Result rpc_reply.case by blast
next
  case (Error m)
  moreover assume "reply_json r"
  ultimately show ?thesis using read_error [of m i] by (simp add: reply_json_def reply_read_def)
qed

section \<open>Finite readings\<close>

text \<open>
  What ISO C gives for the math library: sine, cosine and arc tangent of finite arguments are finite.
\<close>

definition libm_finite :: "env \<Rightarrow> bool" where
  "libm_finite e \<longleftrightarrow>
     (\<forall>x. fp_finite x \<longrightarrow> fp_finite (env_sin e x) \<and> fp_finite (env_cos e x)) \<and>
     (\<forall>y x. fp_finite y \<longrightarrow> fp_finite x \<longrightarrow> fp_finite (env_atan2f e y x))"

definition fin_le :: "rat \<Rightarrow> fp \<Rightarrow> bool" where
  "fin_le B x \<longleftrightarrow> (case x of Fin s m \<Rightarrow> 0 \<le> m \<and> m \<le> B | _ \<Rightarrow> False)"

lemma fin_le_finite: "fin_le B x \<Longrightarrow> fp_finite x"
  by (auto simp: fin_le_def fp_finite_def split: fp.splits)

lemma fin_le_bounded: "fin_le B x \<Longrightarrow> fp_bounded B x"
  by (auto simp: fin_le_def fp_bounded_def split: fp.splits)

lemma fin_leI: "fp_bounded B x \<Longrightarrow> fp_finite x \<Longrightarrow> fin_le B x"
  by (auto simp: fin_le_def fp_bounded_def fp_finite_def split: fp.splits)

lemma fp_round_cases: "(\<exists>r. fp_round f s m = Fin s r) \<or> fp_round f s m = Inf s"
  by (simp add: fp_round_def Let_def)

lemma fin_le_round: "fp_bounded B (fp_round f s m) \<Longrightarrow> fin_le B (fp_round f s m)"
  using fp_round_cases [of f s m] by (auto simp: fin_le_def fp_bounded_def)

lemma fin_le_of_rat: "fp_bounded B (fp_of_rat f s x) \<Longrightarrow> fin_le B (fp_of_rat f s x)"
  using fin_le_round by (auto simp: fp_of_rat_def fin_le_def fp_bounded_def)

lemma fin_le_fadd:
  assumes "f = f32 \<or> f = f64" and "fin_le a x" and "fin_le b y" and "a + b \<le> of_int k" and "k < 2 ^ fmt_prec f"
  shows "fin_le (of_int k) (fadd f x y)"
proof -
  obtain s m t n where "x = Fin s m" "y = Fin t n"
    using assms(2,3) by (cases x; cases y) (auto simp: fin_le_def)
  then show ?thesis using fp_bounded_fadd [OF assms(1) fin_le_bounded [OF assms(2)] fin_le_bounded [OF assms(3)] assms(4,5)]
    by (simp add: fin_le_of_rat)
qed

lemma fin_le_fneg: "fin_le a x \<Longrightarrow> fin_le a (fneg x)"
  by (cases x) (simp_all add: fin_le_def)

lemma fin_le_fmul:
  assumes "f = f32 \<or> f = f64" and "fin_le a x" and "fin_le b y" and "a * b \<le> of_int k" and "k < 2 ^ fmt_prec f"
  shows "fin_le (of_int k) (fmul f x y)"
proof -
  obtain s m t n where "x = Fin s m" "y = Fin t n"
    using assms(2,3) by (cases x; cases y) (auto simp: fin_le_def)
  then show ?thesis using fp_bounded_fmul [OF assms(1) fin_le_bounded [OF assms(2)] fin_le_bounded [OF assms(3)] assms(4,5)]
    by (simp add: fin_le_round)
qed

lemma fin_le_fdiv:
  assumes "f = f32 \<or> f = f64" and "fin_le a x" and "1 \<le> n" and "a \<le> of_int k" and "k < 2 ^ fmt_prec f"
  shows "fin_le (of_int k) (fdiv f x (Fin t n))"
proof -
  obtain s m where "x = Fin s m" using assms(2) by (cases x) (auto simp: fin_le_def)
  then show ?thesis using fp_bounded_fdiv [OF assms(1) fin_le_bounded [OF assms(2)] assms(3-5), of t] assms(3)
    by (simp add: fin_le_round)
qed

lemma fin_le_to_f32:
  assumes "fin_le (of_int k) x" and "k < 2 ^ 24"
  shows "fin_le (of_int k) (to_f32 x)"
proof -
  obtain s m where x: "x = Fin s m" "0 \<le> m" "m \<le> of_int k" using assms(1) by (cases x) (auto simp: fin_le_def)
  then show ?thesis using fp_bounded_round [of f32 m k s] assms(2) by (simp add: fin_le_round f32_def)
qed

lemma fin_le_lit:
  assumes "\<bar>x\<bar> \<le> of_int k" and "k < 2 ^ 24"
  shows "fin_le (of_int k) (lit32 x)" "fin_le (of_int k) (lit64 x)"
proof -
  have "k < 2 ^ 53" using assms(2) by simp
  then show "fin_le (of_int k) (lit32 x)" "fin_le (of_int k) (lit64 x)"
    using assms fp_bounded_of_rat [of f32 x k False] fp_bounded_of_rat [of f64 x k False]
    by (auto simp: lit32_def lit64_def f32_def f64_def intro!: fin_le_of_rat)
qed

text \<open>The hardware build: finite samples, with the quaternion of a rotation, give finite readings.\<close>

definition real_finite :: "real_state \<Rightarrow> bool" where
  "real_finite s \<longleftrightarrow>
     fin_le 4 (p_latitude (g_pos_fused s)) \<and> fin_le 4 (p_longitude (g_pos_fused s)) \<and>
     fp_finite (p_altitude (g_pos_fused s)) \<and>
     fp_finite (v_x (g_vel s)) \<and> fp_finite (v_y (g_vel s)) \<and> fp_finite (v_z (g_vel s)) \<and>
     (\<forall>q \<in> {q0 (g_quat s), q1 (g_quat s), q2 (g_quat s), q3 (g_quat s)}. fin_le 2 q) \<and>
     fp_finite (gs_x (g_gimbal s)) \<and> fp_finite (gs_y (g_gimbal s)) \<and> fp_finite (gs_z (g_gimbal s))"

definition zoom_finite :: "env \<Rightarrow> bool" where
  "zoom_finite e \<longleftrightarrow> (\<forall>tr. fp_finite (env_zoom e tr))"

lemma rad_to_deg_finite: "fin_le 4 x \<Longrightarrow> fp_finite (rad_to_deg x)"
proof -
  assume x: "fin_le 4 x"
  obtain n where n: "lit64 (314159265358979 / 100000000000000) = Fin False n" "1 \<le> n" using pi64_lit by blast
  have "fin_le (of_int 720) (fmul f64 x (lit64 180))"
    using fin_le_lit(2) [of 180 180] by (intro fin_le_fmul [OF _ x]) (auto simp: f64_def)
  from fin_le_fdiv [OF _ this n(2), of f64 720 False] show ?thesis
    unfolding rad_to_deg_def n(1) by (auto simp: f64_def intro: fin_le_finite)
qed

lemma products_finite:
  assumes "fin_le 2 a" "fin_le 2 b" "fin_le 2 c" "fin_le 2 d"
  shows "fin_le (of_int 16) (fmul f32 (lit32 2) (fadd f32 (fmul f32 a b) (fmul f32 c d)))"
proof -
  have "fin_le (of_int 4) (fmul f32 a b)" "fin_le (of_int 4) (fmul f32 c d)"
    using fin_le_fmul [OF _ assms(1,2), of f32 4] fin_le_fmul [OF _ assms(3,4), of f32 4] by (auto simp: f32_def)
  from fin_le_fadd [OF _ this, of f32 8] have "fin_le (of_int 8) (fadd f32 (fmul f32 a b) (fmul f32 c d))"
    by (simp add: f32_def)
  then show ?thesis using fin_le_lit(1) [of 2 2] by (intro fin_le_fmul) (auto simp: f32_def)
qed

text \<open>The heading from eight values of the quaternion's members, as the code uses them.\<close>

lemma yaw_args_finite:
  assumes "libm_ok e" and "libm_finite e" and "\<forall>x \<in> {a, b, c, d, p, q, r, s}. fin_le 2 x"
  shows "fp_finite (yaw_to_heading (env_atan2f e
           (fmul f32 (lit32 2) (fadd f32 (fmul f32 a b) (fmul f32 c d)))
           (fsub f32 (lit32 1) (fmul f32 (lit32 2) (fadd f32 (fmul f32 p q) (fmul f32 r s))))))"
proof -
  let ?y = "fmul f32 (lit32 2) (fadd f32 (fmul f32 a b) (fmul f32 c d))"
  let ?z = "fmul f32 (lit32 2) (fadd f32 (fmul f32 p q) (fmul f32 r s))"
  let ?x = "fsub f32 (lit32 1) ?z"
  have "fin_le (of_int 16) ?y" "fin_le (of_int 16) ?z" using assms(3) by (intro products_finite; simp)+
  moreover from this(2) have "fin_le (of_int 17) ?x"
    using fin_le_lit(1) [of 1 1] unfolding fsub_def
    by (intro fin_le_fadd [where a = 1 and b = 16]) (auto simp: f32_def intro: fin_le_fneg)
  ultimately have "fp_finite (env_atan2f e ?y ?x)"
    using assms(2) fin_le_finite unfolding libm_finite_def by blast
  moreover have "fp_bounded PI_F32 (env_atan2f e ?y ?x)" using assms(1) by (simp add: libm_ok_def)
  moreover have "PI_F32 \<le> 4" by (simp add: PI_F32_def)
  ultimately have "fin_le (of_int 4) (env_atan2f e ?y ?x)"
    using fp_bounded_weaken by (intro fin_leI) auto
  then have m: "fin_le (of_int 720) (fmul f32 (env_atan2f e ?y ?x) (lit32 180))"
    using fin_le_lit(1) [of 180 180] by (intro fin_le_fmul) (auto simp: f32_def)
  have "1 \<le> PI_F32" by (simp add: PI_F32_def)
  from fin_le_fdiv [OF _ m this, of f32 720 False]
  have d: "fin_le (of_int 720) (fdiv f32 (fmul f32 (env_atan2f e ?y ?x) (lit32 180)) (lit32 (314159265 / 100000000)))"
    unfolding PI_F32_lit by (simp add: f32_def)
  have "fin_le (of_int 1080) (fadd f32
      (fdiv f32 (fmul f32 (env_atan2f e ?y ?x) (lit32 180)) (lit32 (314159265 / 100000000))) (lit32 360))"
    using d fin_le_lit(1) [of 360 360] by (intro fin_le_fadd) (auto simp: f32_def)
  then show ?thesis using d fin_le_finite unfolding yaw_to_heading_def Let_def by auto
qed

lemma quat_to_heading_finite:
  assumes "libm_ok e" and "libm_finite e" and "\<forall>x \<in> {q0 q, q1 q, q2 q, q3 q}. fin_le 2 x"
  shows "fp_finite (quat_to_heading e q)"
  unfolding quat_to_heading_def Let_def by (rule yaw_args_finite [OF assms(1,2)]) (use assms(3) in auto)

lemma fp_finite_lits [simp]: "fp_finite fzero" "fp_finite (lit32 1)" "fp_finite (lit32 0)"
  by (simp_all add: fp_finite_def)

definition real_json_ok :: "env \<Rightarrow> real_state \<Rightarrow> bool" where
  "real_json_ok e s \<longleftrightarrow> real_finite s \<and> libm_ok e \<and> libm_finite e \<and> zoom_finite e"

interpretation real_json: json_readings "real_ops e" "real_json_ok e"
proof unfold_locales
  fix s tr t s' tr'
  assume ok: "real_json_ok e s" and run: "op_get_telemetry (real_ops e) s tr = (Inr t, s', tr')"
  have "fp_finite (quat_to_heading e (g_quat s))"
    using ok by (intro quat_to_heading_finite) (simp_all add: real_json_ok_def real_finite_def)
  then show "telemetry_finite t"
    using real_telemetry_fields [of e s tr t s' tr'] run ok rad_to_deg_finite
    by (simp add: telemetry_finite_def real_ops_def real_json_ok_def real_finite_def)
next
  fix s tr c s' tr'
  assume "real_json_ok e s" and "op_get_camera_state (real_ops e) s tr = (Inr c, s', tr')"
  then show "fp_finite (c_zoom_factor c)"
    by (auto simp: real_json_ok_def zoom_finite_def real_ops_def real_get_camera_state_def dji_def Let_def
        simp del: lit_small split: if_splits)
qed (auto simp: real_ops_def real_get_gimbal_angle_def real_get_rtk_status_def real_json_ok_def real_finite_def
      gimbal_finite_def rtk_finite_def zero_rtk_def)

text \<open>
  The development build: the mock position moves with the clock, which has to show less than
  \<open>2 ^ 40\<close> seconds; pitch and zoom are what clients have set.
\<close>

definition clock_below :: "env \<Rightarrow> bool" where
  "clock_below e \<longleftrightarrow> (\<forall>tr. valid_ts (env_clock e tr) \<and> tv_sec (env_clock e tr) \<le> 2 ^ 40)"

definition stub_env_ok :: "env \<Rightarrow> bool" where
  "stub_env_ok e \<longleftrightarrow> libm_ok e \<and> libm_finite e \<and> clock_below e"

lemma stub_time_finite:
  assumes "valid_ts ts" and "tv_sec ts \<le> 2 ^ 40"
  shows "fin_le (of_int (2 ^ 41)) (stub_time ts)"
proof -
  have "fin_le (of_int (2 ^ 40)) (fp_of_int f64 (tv_sec ts))"
  proof -
    have "\<bar>of_int (tv_sec ts) :: rat\<bar> \<le> of_int (2 ^ 40)"
      using assms by (simp only: of_int_abs [symmetric] of_int_le_iff) (simp add: valid_ts_def)
    then show ?thesis unfolding fp_of_int_def by (intro fin_le_of_rat fp_bounded_of_rat) (auto simp: f64_def)
  qed
  moreover have "fin_le (of_int (10 ^ 9)) (fp_of_int f64 (tv_nsec ts))"
  proof -
    have "\<bar>of_int (tv_nsec ts) :: rat\<bar> \<le> of_int (10 ^ 9)"
      using assms by (simp only: of_int_abs [symmetric] of_int_le_iff) (simp add: valid_ts_def)
    then show ?thesis unfolding fp_of_int_def by (intro fin_le_of_rat fp_bounded_of_rat) (auto simp: f64_def)
  qed
  then have "fin_le (of_int (10 ^ 9)) (fmul f64 (fp_of_int f64 (tv_nsec ts)) (lit64 (1 / 10 ^ 9)))"
    using fin_le_lit(2) [of "1 / 10 ^ 9" 1] by (intro fin_le_fmul) (auto simp: f64_def)
  ultimately show ?thesis unfolding stub_time_def by (intro fin_le_fadd) (auto simp: f64_def)
qed

lemma stub_phase_finite:
  assumes "clock_below e" and "\<bar>x\<bar> \<le> 5"
  shows "fp_finite (fmul f64 (stub_time (env_clock e tr)) (lit64 x))"
proof -
  have "fin_le (of_int (2 ^ 44)) (fmul f64 (stub_time (env_clock e tr)) (lit64 x))"
    using assms fin_le_lit(2) [of x 5] by (intro fin_le_fmul [OF _ stub_time_finite]) (auto simp: clock_below_def f64_def)
  then show ?thesis by (rule fin_le_finite)
qed

lemma fmod_finite: "fp_finite x \<Longrightarrow> fin_le (of_int 360) (fmod x (lit64 360))"
proof (cases x)
  case (Fin s m)
  assume "fp_finite x"
  then show ?thesis using floor_divide_lower [of 360 m] floor_divide_upper [of 360 m]
    by (simp add: Fin fin_le_def lit64_int algebra_simps)
qed (simp_all add: fp_finite_def)

lemma stub_telemetry_finite:
  assumes ok: "stub_env_ok e" and run: "stub_get_telemetry e s tr = (Inr t, s', tr')"
  shows "telemetry_finite t"
proof -
  let ?t = "stub_time (env_clock e (tr @ [Clock_Monotonic]))"
  have ph: "fp_finite (fmul f64 ?t (lit64 x))" if "\<bar>x\<bar> \<le> 5" for x
    using ok that by (intro stub_phase_finite) (simp_all add: stub_env_ok_def)
  have sc: "fin_le 1 (env_sin e (fmul f64 ?t (lit64 x)))" "fin_le 1 (env_cos e (fmul f64 ?t (lit64 x)))"
    if "\<bar>x\<bar> \<le> 5" for x
    using ok ph [OF that] by (auto simp: stub_env_ok_def libm_ok_def libm_finite_def intro!: fin_leI)
  have m: "fin_le (of_int 1) (fmul f64 (lit64 (1 / 10000)) y)" if "fin_le 1 y" for y
    using that fin_le_lit(2) [of "1 / 10000" 1] by (intro fin_le_fmul) (auto simp: f64_def)
  have pos: "fp_finite (fadd f64 (lit64 c) (fmul f64 (lit64 (1 / 10000)) y))" if "\<bar>c\<bar> \<le> 114" "fin_le 1 y" for c y
    using fin_le_fadd [OF _ fin_le_lit(2) [of c 114] m [OF that(2)], of f64 115] that(1)
    by (auto simp: f64_def intro: fin_le_finite)
  have alt: "fp_finite (fadd f32 (lit32 50) (fmul f32 (lit32 5) (to_f32 y)))" if "fin_le 1 y" for y
  proof -
    have "fin_le (of_int 5) (fmul f32 (lit32 5) (to_f32 y))"
      using that fin_le_to_f32 [of 1 y] fin_le_lit(1) [of 5 5] by (intro fin_le_fmul) (auto simp: f32_def)
    from fin_le_fadd [OF _ fin_le_lit(1) [of 50 50] this, of f32 55] show ?thesis
      by (auto simp: f32_def intro: fin_le_finite)
  qed
  have hd: "fp_finite (to_f32 (fmod (fmul f64 ?t (lit64 5)) (lit64 360)))"
    by (intro fin_le_finite [OF fin_le_to_f32 [OF fmod_finite]] ph) auto
  have lits: "fp_finite (lit32 30)" "fp_finite (lit32 (15 / 10))" "fp_finite (lit32 (3 / 10))" "fp_finite (lit32 0)"
    using fin_le_lit(1) [of 30 30] fin_le_lit(1) [of "15 / 10" 2] fin_le_lit(1) [of "3 / 10" 1] by (auto intro: fin_le_finite)
  show ?thesis using run sc pos alt hd lits
    by (auto simp: telemetry_finite_def stub_get_telemetry_def clock_gettime_def Let_def)
qed

text \<open>
  The readings a client of the development build can spoil: pitch and zoom are what clients have set, and
  neither setter refuses an infinity.
\<close>

definition stub_spoiled :: "stub_state \<Rightarrow> rpc_action \<Rightarrow> bool" where
  "stub_spoiled s a \<longleftrightarrow> a = Do_Get Get_Gimbal_Angle \<and> \<not> fp_finite (g_stub_gimbal_p s) \<or>
     a = Do_Get Get_Camera_State \<and> \<not> fp_finite (g_stub_zoom s)"

lemma stub_perform_json:
  assumes "stub_env_ok e" and "\<not> stub_spoiled (hs_bsp s) (action_of jl m p)"
    and "perform e (stub_ops e) (action_of jl m p) s tr = (rep, s', tr')" and "name_plain (action_of jl m p)"
  shows "reply_json rep"
proof (rule perform_json_of [OF _ _ _ _ assms(3,4)])
  show "telemetry_finite t" if "op_get_telemetry (stub_ops e) (hs_bsp s) tr = (Inr t, b, tr1)" for t b tr1
    using stub_telemetry_finite [OF assms(1)] that by (simp add: stub_ops_def)
qed (use assms(2) in \<open>auto simp: stub_ops_def stub_spoiled_def stub_get_gimbal_angle_def stub_get_camera_state_def
      stub_get_rtk_status_def gimbal_finite_def rtk_finite_def zero_rtk_def simp del: lit_small\<close>)

lemma stub_perform_spoiled:
  assumes "stub_inv (hs_bsp s)" and "stub_spoiled (hs_bsp s) a" and "perform e (stub_ops e) a s tr = (rep, s', tr')"
  shows "json_read (reply_text i rep) = None"
proof -
  let ?b = "hs_bsp s"
  let ?g = "\<lparr>pitch = g_stub_gimbal_p ?b, roll = lit32 0, yaw = lit32 0\<rparr>"
  let ?c = "\<lparr>c_mode = g_stub_cam_mode ?b, c_is_recording = g_stub_recording ?b, c_zoom_factor = g_stub_zoom ?b\<rparr>"
  have r: "in_range f32 (g_stub_gimbal_p ?b)" "in_range f32 (g_stub_zoom ?b)" "in_range f32 (lit32 0)"
    using assms(1) fzero_ok(2) by (simp_all add: stub_inv_def)
  consider "\<not> fp_finite (g_stub_gimbal_p ?b)" "rep = Result (gimbal_json ?g)"
    | "\<not> fp_finite (g_stub_zoom ?b)" "rep = Result (camera_json ?c)"
    using assms(2,3) by (auto simp: stub_spoiled_def act_def run_bsp_def value_reply_def stub_ops_def
        stub_get_gimbal_angle_def stub_get_camera_state_def)
  then show ?thesis
  proof cases
    case 1
    then show ?thesis using r fmt_f_no_number [OF r(1) 1(1)] no_number_not_num
      unfolding 1(2) printed_bodies gimbal_doc_def by (intro json_read_reject) (auto simp: almost_wf_num simp del: lit_small)
  next
    case 2
    then show ?thesis using r fmt_f_no_number [OF r(2) 2(1)] no_number_not_num
      unfolding 2(2) printed_bodies camera_doc_def by (intro json_read_reject) (auto simp: almost_wf_num almost_wf_def)
  qed
qed

section \<open>Properties\<close>

text \<open>
  C9. Which replies of the development build are JSON. In every state of the mock, on a machine whose clock
  shows less than \<open>2 ^ 40\<close> seconds, a request whose file name, if it has one, is at most 2000 bytes long and
  needs no escape is answered by one datagram. Unless it asks for
  the gimbal angle while the pitch, or for the camera state while the zoom, that clients have set is not
  finite, the client reads that datagram as an object with the id of its request and the result, as a
  document, or the error; in those two cases the datagram is no JSON.
\<close>

theorem stub_replies_json:
  assumes "json_lib_ok jl" and "stub_inv (hs_bsp s)" and "stub_env_ok e" and "g_srv s = Some fd"
    and "rpc_parse jl line = ((0, req), jops)"
    and "name_fits (action_of jl (req_method req) (req_params req))"
    and "name_plain (action_of jl (req_method req) (req_params req))"
  shows "\<exists>s' tr' rep. handle_rpc e (stub_ops e) jl peer line len s tr =
           (0, s', tr' @ [Net (Sendto fd peer (reply_text (req_id req) rep)), Json Root_Put]) \<and>
         (if stub_spoiled (hs_bsp s) (action_of jl (req_method req) (req_params req))
          then json_read (reply_text (req_id req) rep) = None else reply_read (req_id req) rep)"
proof -
  let ?a = "action_of jl (req_method req) (req_params req)"
  obtain rep s' tr' where P: "perform e (stub_ops e) ?a s (tr @ map Json jops) = (rep, s', tr')"
    by (cases "perform e (stub_ops e) ?a s (tr @ map Json jops)") auto
  have "g_srv s' = Some fd" using perform_g_srv [OF P] assms(4) by simp
  moreover have "stub_wire_inv e (hs_bsp s)" using assms(2,3) by (simp add: stub_wire_inv_def stub_env_ok_def)
  ultimately show ?thesis using stub_wire.handle_rpc_wire [OF assms(1) _ _ assms(5) P assms(6), of fd peer len]
      reply_json_read [OF stub_perform_json [OF assms(3) _ P assms(7)]] stub_perform_spoiled [OF assms(2) _ P]
    by auto
qed

text \<open>
  A client sets an infinite zoom, which the handler takes for a factor of at least 1, and the camera state
  it then asks for is no JSON.
\<close>

abbreviation zoom_request :: "(string \<times> jval) list" where
  "zoom_request \<equiv> [(''zoom_factor'', JNum (Inf False))]"

lemma infinite_zoom_set:
  "\<exists>tr. handle_rpc env0 (stub_ops env0) (one_request ''drone.set_camera_zoom'' zoom_request) peer0 ''L'' 1
       (served_by stub_initial) [] = (0, served_by (stub_initial\<lparr>g_stub_zoom := Inf False\<rparr>), tr)"
proof -
  let ?lib = "one_request ''drone.set_camera_zoom'' zoom_request"
  have z: "rpc_param_double ?lib (Some (JObj zoom_request)) ''zoom_factor'' (Fin True 1) = Inf False"
    by (simp add: rpc_param_double_def one_request_def in_range_def)
  have rp: "rpc_parse ?lib ''L'' = ((0, request_of ''drone.set_camera_zoom'' zoom_request), [Tok_New, Root_New, Tok_Free])"
    by (rule parse_one_request) simp_all
  show ?thesis
    by (simp add: handle_rpc_def rp dispatch_def h_drone_set_camera_zoom_def z reply_status_def run_bsp_def stub_ops_def
        stub_set_camera_zoom_def rpc_request_free_def Let_def served_by_def handler_initial_def split: option.split)
qed

theorem stub_replies_json_witness:
  "\<exists>tr1 s' tr' rep.
     handle_rpc env0 (stub_ops env0) (one_request ''drone.set_camera_zoom'' zoom_request) peer0 ''L'' 1
       (served_by stub_initial) [] = (0, served_by (stub_initial\<lparr>g_stub_zoom := Inf False\<rparr>), tr1) \<and>
     handle_rpc env0 (stub_ops env0) (one_request ''drone.get_camera_state'' []) peer0 ''L'' 1
       (served_by (stub_initial\<lparr>g_stub_zoom := Inf False\<rparr>)) tr1 =
       (0, s', tr' @ [Net (Sendto 3 peer0 (reply_text 7 rep)), Json Root_Put]) \<and>
     json_read (reply_text 7 rep) = None"
proof -
  let ?s = "served_by (stub_initial\<lparr>g_stub_zoom := Inf False\<rparr>)"
  obtain tr1 where set: "handle_rpc env0 (stub_ops env0) (one_request ''drone.set_camera_zoom'' zoom_request) peer0 ''L'' 1
       (served_by stub_initial) [] = (0, ?s, tr1)" using infinite_zoom_set by blast
  have "clock_below env0" by (auto simp: clock_below_def valid_ts_def clock0_def)
  then have ok: "stub_env_ok env0" using env0_libm by (simp add: stub_env_ok_def libm_finite_def fp_finite_def)
  have a: "action_of (one_request ''drone.get_camera_state'' []) ''drone.get_camera_state'' p = Do_Get Get_Camera_State" for p
    by (simp add: action_of_def method_table_def)
  have inv: "stub_inv (hs_bsp ?s)" using stub_inv_initial by (simp add: stub_inv_def in_range_def)
  have rp: "rpc_parse (one_request ''drone.get_camera_state'' []) ''L'' =
      ((0, request_of ''drone.get_camera_state'' []), [Tok_New, Root_New, Tok_Free])"
    by (rule parse_one_request) simp_all
  have "\<exists>s' tr' rep. handle_rpc env0 (stub_ops env0) (one_request ''drone.get_camera_state'' []) peer0 ''L'' 1 ?s tr1 =
       (0, s', tr' @ [Net (Sendto 3 peer0 (reply_text 7 rep)), Json Root_Put]) \<and> json_read (reply_text 7 rep) = None"
    using stub_replies_json [OF one_request_ok inv ok _ rp, of 3 peer0 1 tr1]
    by (simp add: a name_fits_def name_plain_def stub_spoiled_def fp_finite_def)
  then show ?thesis using set by blast
qed

text \<open>
  C10. A reading that is not finite spoils its reply: for a telemetry reading of either build the reply is
  JSON exactly when every floating-point field is finite, and then the client reads the fourteen members
  back; for a NaN or an infinity \<^verbatim>\<open>printf\<close> writes a word that is no JSON value.
\<close>

theorem telemetry_reply_json:
  assumes "telemetry_ok t"
  shows "json_read (reply_text i (Result (telemetry_json t))) =
           (if telemetry_finite t then Some (result_doc i (DObj (telemetry_members t))) else None)"
  using assms by (rule telemetry_reply_read)

theorem telemetry_reply_json_witness:
  "json_read (reply_text 7 (Result (telemetry_json (zero_telemetry\<lparr>t_vx_ms := NaN False\<rparr>)))) = None"
proof -
  have "telemetry_ok (zero_telemetry\<lparr>t_vx_ms := NaN False\<rparr>)"
    by (simp add: telemetry_ok_def zero_telemetry_def fp_bounded_def in_range_def f32_def pow2_def)
  moreover have "\<not> telemetry_finite (zero_telemetry\<lparr>t_vx_ms := NaN False\<rparr>)"
    by (simp add: telemetry_finite_def fp_finite_def)
  ultimately show ?thesis using telemetry_reply_json [of "zero_telemetry\<lparr>t_vx_ms := NaN False\<rparr>" 7] by simp
qed

text \<open>A quote at the end of a file name: the reply to its upload is no JSON.\<close>

lemma upload_name_quote:
  assumes "plain a"
  shows "json_read (reply_text i (Result (uploaded_json (a @ [DQ]) path))) = None"
proof -
  let ?file = "DQ # ''file'' @ DQ # CHR '':'' # DQ # (a @ DQ # DQ # CHR '','' # jkey ''path'' @ [DQ] @ path @ [DQ] @ ''}}'')"
  have rc: "read_chars (a @ DQ # r) = Some (a, r)" for r using assms by (rule read_chars_plain)
  have f: "read_members (Suc (Suc n)) ?file = None" for n by (simp add: rc)
  have v: "read_value (Suc (Suc (Suc (Suc n)))) (''{'' @ DQ # ''uploaded'' @ DQ # CHR '':'' # ''true,'' @ ?file) = None" for n
    using f [of n] by (simp add: read_word_def del: append_assoc)
  let ?res = "DQ # ''result'' @ DQ # CHR '':'' # ''{'' @ DQ # ''uploaded'' @ DQ # CHR '':'' # ''true,'' @ ?file"
  let ?t = "reply_text i (Result (uploaded_json (a @ [DQ]) path))"
  have t: "?t = CHR ''{'' # DQ # ''id'' @ DQ # CHR '':'' # fmt_d i @ CHR '','' # ?res"
    by (simp add: result_text_def uploaded_json_def jkey_def)
  obtain n where n: "length ?t = Suc (Suc (Suc (Suc (Suc (Suc (Suc n))))))"
  proof -
    have "7 \<le> length ?t" unfolding t by simp
    then obtain n where "length ?t = 7 + n" using le_Suc_ex by blast
    then show ?thesis by (intro that [of n]) linarith
  qed
  have i: "read_value (Suc m) (fmt_d i @ CHR '','' # ?res) = Some (DNum (fmt_d i), CHR '','' # ?res)" for m
    by (rule read_value_num) simp_all
  have m: "read_members (Suc (Suc (Suc (Suc (Suc n))))) ?res = None" by (rule read_members_None [OF _ v]) simp
  have "read_members (Suc (Suc (Suc (Suc (Suc (Suc n)))))) (DQ # ''id'' @ DQ # CHR '':'' # fmt_d i @ CHR '','' # ?res) = None"
    using read_members_more [OF _ i [of "Suc (Suc (Suc (Suc n)))"], of "''id''"] unfolding m by (simp only: plain_keys option.map)
  from read_object_None [OF this] have "read_value (length ?t) ?t = None" unfolding n by (subst t)
  then show ?thesis by (simp add: json_read_def)
qed

end
