(* ===== verification/Daemon_System.thy ===== *)
theory Daemon_System
  imports Daemon_Main Json_Replies
begin

text \<open>
  The hardware build while it serves: the turns of the poll loop of \<^verbatim>\<open>app/main.c\<close> interleaved with the
  samples the SDK delivers to the callbacks of \<^verbatim>\<open>bsp/drone_ctrl.c\<close>. A run is any sequence of these two
  actions, each of them atomic here; samples that arrive inside a reading are the matter of \<^verbatim>\<open>Thread_Replies\<close>.
\<close>

section \<open>Actions and runs\<close>

record daemon =
  d_srv :: UdpServer
  d_handler :: "real_state handler_state"
  d_trace :: trace

datatype action = Deliver sample nat | Turn

text \<open>One turn of the loop of \<^verbatim>\<open>main\<close>, over any provider of the drone operations.\<close>

definition poll_turn :: "env \<Rightarrow> real_state drone_ops \<Rightarrow> 'j json_lib \<Rightarrow> daemon \<Rightarrow> daemon" where
  [simp]: "poll_turn e ops jl d =
     (case udp_server_poll e (handle_rpc e ops jl) 500 (d_srv d) (d_handler d) (d_trace d) of
        (srv, h, tr) \<Rightarrow> \<lparr>d_srv = srv, d_handler = h, d_trace = tr\<rparr>)"

fun daemon_step :: "env \<Rightarrow> 'j json_lib \<Rightarrow> action \<Rightarrow> daemon \<Rightarrow> daemon" where
  "daemon_step e jl (Deliver x len) d =
     (case on_sample e x len (hs_bsp (d_handler d)) (d_trace d) of
        None \<Rightarrow> d
      | Some (b, tr) \<Rightarrow> d\<lparr>d_handler := (d_handler d)\<lparr>hs_bsp := b\<rparr>, d_trace := tr\<rparr>)"
| "daemon_step e jl Turn d = poll_turn e (real_ops e) jl d"

definition daemon_run :: "env \<Rightarrow> 'j json_lib \<Rightarrow> action list \<Rightarrow> daemon \<Rightarrow> daemon" where
  "daemon_run e jl acts d = fold (daemon_step e jl) acts d"

lemma daemon_run_simps [simp]:
  "daemon_run e jl [] d = d"
  "daemon_run e jl (a # acts) d = daemon_run e jl acts (daemon_step e jl a d)"
  "daemon_run e jl (acts @ acts') d = daemon_run e jl acts' (daemon_run e jl acts d)"
  by (simp_all add: daemon_run_def)

text \<open>The state in which \<^verbatim>\<open>main\<close> enters its loop.\<close>

definition daemon_ready :: "UdpServer \<Rightarrow> trace \<Rightarrow> daemon" where
  "daemon_ready srv tr =
     \<lparr>d_srv = srv, d_handler = handler_set_server srv (handler_initial real_initial), d_trace = tr\<rparr>"

text \<open>The samples of a run, in the order of their delivery.\<close>

fun deliveries :: "action list \<Rightarrow> (sample \<times> nat) list" where
  "deliveries [] = []"
| "deliveries (Deliver x len # acts) = (x, len) # deliveries acts"
| "deliveries (Turn # acts) = deliveries acts"

section \<open>What the poll loop does between deliveries\<close>

lemma main_loop_turns_fwd:
  assumes "main_loop running e cb srv h tr = Some res" and "cb = handle_rpc e (real_ops e) jl"
  shows "\<exists>n d'. d' = daemon_run e jl (replicate n Turn) \<lparr>d_srv = srv, d_handler = h, d_trace = tr\<rparr> \<and>
           res = (d_srv d', d_handler d', d_trace d') \<and> \<not> running (d_trace d') \<and>
           (\<forall>k < n. running (d_trace (daemon_run e jl (replicate k Turn) \<lparr>d_srv = srv, d_handler = h, d_trace = tr\<rparr>)))"
proof -
  let ?Q = "\<lambda>run e srv h tr res. \<exists>n d'. d' = daemon_run e jl (replicate n Turn) \<lparr>d_srv = srv, d_handler = h, d_trace = tr\<rparr> \<and>
           res = (d_srv d', d_handler d', d_trace d') \<and> \<not> run (d_trace d') \<and>
           (\<forall>k < n. run (d_trace (daemon_run e jl (replicate k Turn) \<lparr>d_srv = srv, d_handler = h, d_trace = tr\<rparr>)))"
  have "cb = handle_rpc e (real_ops e) jl \<longrightarrow> ?Q running e srv h tr res"
  proof (rule main_loop.raw_induct [OF _ assms(1),
        where P = "\<lambda>run e c srv h tr res. c = handle_rpc e (real_ops e) jl \<longrightarrow> ?Q run e srv h tr res"], intro impI)
    fix loop run e c srv h tr res
    assume IH: "\<And>run e c srv h tr res. loop run e c srv h tr = Some res \<Longrightarrow>
        c = handle_rpc e (real_ops e) jl \<longrightarrow> ?Q run e srv h tr res"
      and body: "(if \<not> run tr then Some (srv, h, tr)
        else case udp_server_poll e c 500 srv h tr of (srv, h, tr) \<Rightarrow> loop run e c srv h tr) = Some res"
      and c: "c = handle_rpc e (real_ops e) jl"
    let ?d = "\<lparr>d_srv = srv, d_handler = h, d_trace = tr\<rparr>"
    show "?Q run e srv h tr res"
    proof (cases "run tr")
      case False
      then show ?thesis using body by (intro exI [of _ 0]) auto
    next
      case True
      obtain srv1 h1 tr1 where p: "udp_server_poll e (handle_rpc e (real_ops e) jl) 500 srv h tr = (srv1, h1, tr1)"
        by (cases "udp_server_poll e (handle_rpc e (real_ops e) jl) 500 srv h tr") auto
      then have st: "daemon_step e jl Turn ?d = \<lparr>d_srv = srv1, d_handler = h1, d_trace = tr1\<rparr>" by simp
      have l: "loop run e c srv1 h1 tr1 = Some res" using body True p c by simp
      obtain n d' where q: "d' = daemon_run e jl (replicate n Turn) (daemon_step e jl Turn ?d)"
          "res = (d_srv d', d_handler d', d_trace d')" "\<not> run (d_trace d')"
          "\<forall>k < n. run (d_trace (daemon_run e jl (replicate k Turn) (daemon_step e jl Turn ?d)))"
        using IH [OF l, rule_format, OF c] unfolding st [symmetric] by blast
      have "\<forall>k < Suc n. run (d_trace (daemon_run e jl (replicate k Turn) ?d))"
      proof (intro allI impI)
        fix k assume "k < Suc n"
        then show "run (d_trace (daemon_run e jl (replicate k Turn) ?d))"
          using q(4) True by (cases k) (simp_all del: daemon_step.simps)
      qed
      then show ?thesis using q(1-3) by (intro exI [of _ "Suc n"]) (auto simp del: daemon_step.simps)
    qed
  qed
  then show ?thesis using assms(2) by simp
qed

lemma main_loop_turns_bwd:
  assumes "\<not> running (d_trace (daemon_run e jl (replicate n Turn) d))"
    and "\<forall>k < n. running (d_trace (daemon_run e jl (replicate k Turn) d))"
  shows "main_loop running e (handle_rpc e (real_ops e) jl) (d_srv d) (d_handler d) (d_trace d) =
           (let d' = daemon_run e jl (replicate n Turn) d in Some (d_srv d', d_handler d', d_trace d'))"
  using assms
proof (induction n arbitrary: d)
  case 0
  then show ?case by (simp add: main_loop.simps)
next
  case (Suc n)
  have "running (d_trace d)" using Suc.prems(2) by force
  moreover have "\<forall>k < n. running (d_trace (daemon_run e jl (replicate k Turn) (daemon_step e jl Turn d)))"
  proof (intro allI impI)
    fix k assume "k < n"
    then show "running (d_trace (daemon_run e jl (replicate k Turn) (daemon_step e jl Turn d)))"
      using Suc.prems(2) [rule_format, of "Suc k"] by (simp del: daemon_step.simps)
  qed
  moreover have "\<not> running (d_trace (daemon_run e jl (replicate n Turn) (daemon_step e jl Turn d)))"
    using Suc.prems(1) by (simp del: daemon_step.simps)
  ultimately show ?case using Suc.IH [of "daemon_step e jl Turn d"]
    by (subst main_loop.simps) (auto simp: Let_def split: prod.splits)
qed

section \<open>What a turn keeps\<close>

lemma handler_keeps:
  assumes "drone_bsp ops I" and "json_lib_ok jl" and "I (hs_bsp h)"
    and "handle_rpc e ops jl peer line len h tr = (r, h', tr')"
  shows "I (hs_bsp h') \<and> g_srv h' = g_srv h"
proof -
  obtain rc req jops where p: "rpc_parse jl line = ((rc, req), jops)" by (cases "rpc_parse jl line") auto
  show ?thesis
  proof (cases "rc = 0")
    case True
    then show ?thesis using drone_bsp.handle_rpc_parsed [OF assms(1-3) _ assms(4)] p by auto
  next
    case False
    then show ?thesis using handle_rpc_rejected [of jl line e ops peer len h tr] p assms(3,4) by auto
  qed
qed

text \<open>A turn seen from outside: nothing received, or one message handled.\<close>

lemma poll_turn_cases:
  obtains (idle) srv tr where "udp_receive e 500 (d_srv d) (d_trace d) = (srv, None, tr)"
      "poll_turn e ops jl d = d\<lparr>d_srv := srv, d_trace := tr\<rparr>"
  | (message) srv peer line len tr r h tr' where
      "udp_receive e 500 (d_srv d) (d_trace d) = (srv, Some (peer, line, len), tr)"
      "handle_rpc e ops jl peer line len (d_handler d) tr = (r, h, tr')"
      "poll_turn e ops jl d = \<lparr>d_srv = srv, d_handler = h, d_trace = tr'\<rparr>"
proof -
  obtain srv msg tr where r: "udp_receive e 500 (d_srv d) (d_trace d) = (srv, msg, tr)"
    by (cases "udp_receive e 500 (d_srv d) (d_trace d)") auto
  show ?thesis
  proof (cases msg)
    case None
    then show ?thesis using r idle [of srv tr] by (cases d) (simp add: udp_server_poll_def)
  next
    case (Some m)
    obtain peer line len where m: "m = (peer, line, len)" by (cases m) auto
    obtain rr h tr' where h: "handle_rpc e ops jl peer line len (d_handler d) tr = (rr, h, tr')"
      by (cases "handle_rpc e ops jl peer line len (d_handler d) tr") auto
    show ?thesis using r Some m h message [of srv peer line len tr rr h tr'] by (simp add: udp_server_poll_def)
  qed
qed

definition server_inv :: "daemon \<Rightarrow> bool" where
  "server_inv d \<longleftrightarrow> length (us_recv_buf (d_srv d)) = DRONE_MAX_MSG_LEN \<and> g_srv (d_handler d) = Some (us_fd (d_srv d))"

text \<open>A turn keeps the buffer, the socket and every invariant its provider keeps.\<close>

lemma poll_turn_keeps:
  assumes "drone_bsp ops I" and "json_lib_ok jl" and "I (hs_bsp (d_handler d))" and "server_inv d"
  shows "I (hs_bsp (d_handler (poll_turn e ops jl d))) \<and> server_inv (poll_turn e ops jl d) \<and>
         us_fd (d_srv (poll_turn e ops jl d)) = us_fd (d_srv d)"
proof (cases rule: poll_turn_cases [of e d ops jl])
  case (idle srv tr)
  then show ?thesis using udp_receive_None [OF idle(1)] assms(3,4) by (auto simp: server_inv_def)
next
  case (message srv peer line len tr r h tr')
  then show ?thesis using udp_receive_spec [OF message(1)] handler_keeps [OF assms(1-3) message(2)] assms(4)
    by (auto simp: server_inv_def)
qed

lemma turn_keeps:
  assumes "flag_free I" and "json_lib_ok jl" and "I (hs_bsp (d_handler d))"
  shows "I (hs_bsp (d_handler (daemon_step e jl Turn d)))"
proof (cases rule: poll_turn_cases [of e d "real_ops e" jl])
  case idle
  then show ?thesis using assms(3) by simp
next
  case (message srv peer line len tr r h tr')
  then show ?thesis using handler_keeps [OF real_bsp [OF assms(1)] assms(2,3) message(2)] by simp
qed

lemma step_server_inv:
  assumes "json_lib_ok jl" and "server_inv d"
  shows "server_inv (daemon_step e jl a d) \<and> us_fd (d_srv (daemon_step e jl a d)) = us_fd (d_srv d)"
proof (cases a)
  case (Deliver x len)
  then show ?thesis using assms(2) by (auto simp: server_inv_def split: option.split)
next
  case Turn
  have "flag_free (\<lambda>_. True)" by (simp add: flag_free_def)
  from poll_turn_keeps [OF real_bsp [OF this] assms(1) _ assms(2)] show ?thesis using Turn by (simp del: poll_turn_def)
qed

lemma run_server_inv:
  assumes "json_lib_ok jl" and "server_inv d"
  shows "server_inv (daemon_run e jl acts d) \<and> us_fd (d_srv (daemon_run e jl acts d)) = us_fd (d_srv d)"
  using assms(2)
proof (induction acts arbitrary: d)
  case (Cons a acts)
  then show ?case using step_server_inv [OF assms(1) Cons.prems, of e a]
    by (metis daemon_run_simps(2))
qed simp

section \<open>The caches along a run\<close>

text \<open>The deliveries of one topic that are long enough, and where its statistics are kept.\<close>

definition arrivals :: "env \<Rightarrow> topic \<Rightarrow> (sample \<times> nat) list \<Rightarrow> nat" where
  "arrivals e t xs = length (filter (\<lambda>(x, len). topic_of x = t \<and> env_sizeof e t \<le> len) xs)"

fun stats_of :: "topic \<Rightarrow> real_state \<Rightarrow> TopicStats" where
  "stats_of TOPIC_POSITION_FUSED s = g_pos_stats s"
| "stats_of TOPIC_VELOCITY s = g_vel_stats s"
| "stats_of TOPIC_QUATERNION s = g_quat_stats s"
| "stats_of TOPIC_GPS_DETAILS s = g_gps_stats s"
| "stats_of TOPIC_STATUS_FLIGHT s = g_flight_stats s"
| "stats_of TOPIC_BATTERY_INFO s = g_battery_stats s"
| "stats_of TOPIC_BATTERY_SINGLE_INFO_INDEX1 s = g_battery_single_1_stats s"
| "stats_of TOPIC_BATTERY_SINGLE_INFO_INDEX2 s = g_battery_single_2_stats s"
| "stats_of TOPIC_GIMBAL_ANGLES s = g_gimbal_stats s"

text \<open>
  A cache that does not depend on the flag of the waypoint manager is left alone by every turn, and so
  are the statistics of its topic.
\<close>

locale daemon_cache = topic_cache tp proj get stats
  for tp :: topic and proj :: "sample \<Rightarrow> 'd option" and get :: "real_state \<Rightarrow> 'd" and stats :: "real_state \<Rightarrow> TopicStats" +
  assumes no_flag: "get (s\<lparr>s_waypoint_v3_inited := b\<rparr>) = get s" "stats (s\<lparr>s_waypoint_v3_inited := b\<rparr>) = stats s"
    and proj_topic: "proj x \<noteq> None \<longleftrightarrow> topic_of x = tp"
begin

lemma run_latest:
  assumes "json_lib_ok jl"
  shows "get (hs_bsp (d_handler (daemon_run e jl acts d))) =
           last (get (hs_bsp (d_handler d)) # accepted e tp proj (deliveries acts))"
proof (induction acts arbitrary: d)
  case Nil
  then show ?case by (simp add: accepted_def map_filter_simps)
next
  case (Cons a acts)
  show ?case
  proof (cases a)
    case Turn
    have ff: "flag_free (\<lambda>s. get s = get (hs_bsp (d_handler d)))" by (simp add: flag_free_def no_flag)
    show ?thesis using Cons.IH [of "daemon_step e jl Turn d"] turn_keeps [OF ff assms refl, of e] Turn
      by (simp del: daemon_step.simps)
  next
    case (Deliver x len)
    obtain b tr where o: "on_samples e [(x, len)] (hs_bsp (d_handler d)) (d_trace d) = Some (b, tr)"
      using on_samples_total by blast
    then have o1: "on_sample e x len (hs_bsp (d_handler d)) (d_trace d) = Some (b, tr)"
      by (auto split: option.splits)
    have l: "get b = last (get (hs_bsp (d_handler d)) # accepted e tp proj [(x, len)])"
      using caches_latest [OF o] by simp
    have a: "accepted e tp proj ((x, len) # xs) = accepted e tp proj [(x, len)] @ accepted e tp proj xs" for xs
      by (auto simp: accepted_def map_filter_simps split: option.split)
    show ?thesis using Cons.IH [of "daemon_step e jl a d"] o1 l Deliver a [of "deliveries acts"]
      by (simp add: last_append)
  qed
qed

lemma accepted_arrivals: "length (accepted e tp proj xs) = arrivals e tp xs"
proof (induction xs)
  case (Cons y xs)
  obtain x len where y: "y = (x, len)" by (cases y)
  then show ?case using Cons proj_topic [of x]
    by (cases "proj x") (auto simp: accepted_def arrivals_def map_filter_simps)
qed (simp add: accepted_def arrivals_def map_filter_simps)

lemma run_tracks:
  assumes "json_lib_ok jl" and "\<forall>tr. fst (monotonic_ms e tr) \<noteq> 0" and "topic_tracked (stats (hs_bsp (d_handler d))) n"
  shows "topic_tracked (stats (hs_bsp (d_handler (daemon_run e jl acts d)))) (n + arrivals e tp (deliveries acts))"
  using assms(3)
proof (induction acts arbitrary: d n)
  case Nil
  then show ?case by (simp add: arrivals_def)
next
  case (Cons a acts)
  show ?case
  proof (cases a)
    case Turn
    have ff: "flag_free (\<lambda>s. topic_tracked (stats s) n)" by (simp add: flag_free_def no_flag)
    show ?thesis using Cons.IH [OF turn_keeps [OF ff assms(1) Cons.prems], of e] Turn by (simp del: daemon_step.simps)
  next
    case (Deliver x len)
    obtain b tr where o: "on_sample e x len (hs_bsp (d_handler d)) (d_trace d) = Some (b, tr)"
      using on_samples_total [of e "[(x, len)]" "hs_bsp (d_handler d)" "d_trace d"] by (auto split: option.splits)
    have "topic_tracked (stats (hs_bsp (d_handler (daemon_step e jl a d)))) (n + arrivals e tp [(x, len)])"
      using tracks [OF assms(2) Cons.prems o] o Deliver by (simp add: accepted_arrivals)
    moreover have "arrivals e tp (deliveries (a # acts)) = arrivals e tp [(x, len)] + arrivals e tp (deliveries acts)"
      by (simp add: arrivals_def Deliver)
    ultimately show ?thesis using Cons.IH [of "daemon_step e jl a d" "n + arrivals e tp [(x, len)]"]
      by (simp add: add.assoc del: daemon_step.simps)
  qed
qed

end

interpretation pos_run: daemon_cache TOPIC_POSITION_FUSED
    "\<lambda>x. case x of Pos_Sample d \<Rightarrow> Some d | _ \<Rightarrow> None" g_pos_fused g_pos_stats
  by unfold_locales (auto split: sample.split)

interpretation vel_run: daemon_cache TOPIC_VELOCITY
    "\<lambda>x. case x of Vel_Sample d \<Rightarrow> Some d | _ \<Rightarrow> None" g_vel g_vel_stats
  by unfold_locales (auto split: sample.split)

interpretation quat_run: daemon_cache TOPIC_QUATERNION
    "\<lambda>x. case x of Quat_Sample d \<Rightarrow> Some d | _ \<Rightarrow> None" g_quat g_quat_stats
  by unfold_locales (auto split: sample.split)

interpretation gps_run: daemon_cache TOPIC_GPS_DETAILS
    "\<lambda>x. case x of Gps_Sample d \<Rightarrow> Some d | _ \<Rightarrow> None" g_gps g_gps_stats
  by unfold_locales (auto split: sample.split)

interpretation flight_run: daemon_cache TOPIC_STATUS_FLIGHT
    "\<lambda>x. case x of Flight_Sample d \<Rightarrow> Some d | _ \<Rightarrow> None" g_flight_status g_flight_stats
  by unfold_locales (auto split: sample.split)

interpretation battery_run: daemon_cache TOPIC_BATTERY_INFO
    "\<lambda>x. case x of Battery_Sample d \<Rightarrow> Some d | _ \<Rightarrow> None" g_battery g_battery_stats
  by unfold_locales (auto split: sample.split)

interpretation single_1_run: daemon_cache TOPIC_BATTERY_SINGLE_INFO_INDEX1
    "\<lambda>x. case x of Single_1_Sample d \<Rightarrow> Some d | _ \<Rightarrow> None" g_battery_single_1 g_battery_single_1_stats
  by unfold_locales (auto split: sample.split)

interpretation single_2_run: daemon_cache TOPIC_BATTERY_SINGLE_INFO_INDEX2
    "\<lambda>x. case x of Single_2_Sample d \<Rightarrow> Some d | _ \<Rightarrow> None" g_battery_single_2 g_battery_single_2_stats
  by unfold_locales (auto split: sample.split)

interpretation gimbal_run: daemon_cache TOPIC_GIMBAL_ANGLES
    "\<lambda>x. case x of Gimbal_Sample d \<Rightarrow> Some d | _ \<Rightarrow> None" g_gimbal g_gimbal_stats
  by unfold_locales (auto split: sample.split)

section \<open>The invariant of a serving daemon\<close>

text \<open>
  What the SDK documents of its samples: values of their C types, positions in radians, a unit
  quaternion and gimbal angles in degrees, all finite.
\<close>

fun sample_ok :: "sample \<Rightarrow> bool" where
  "sample_ok (Pos_Sample p) \<longleftrightarrow> fin_le 4 (p_latitude p) \<and> fin_le 4 (p_longitude p) \<and>
     fp_finite (p_altitude p) \<and> in_range f32 (p_altitude p)"
| "sample_ok (Vel_Sample v) \<longleftrightarrow> (\<forall>x \<in> {v_x v, v_y v, v_z v}. fp_finite x \<and> in_range f32 x)"
| "sample_ok (Quat_Sample q) \<longleftrightarrow> (\<forall>x \<in> {q0 q, q1 q, q2 q, q3 q}. fin_le 2 x)"
| "sample_ok (Gimbal_Sample g) \<longleftrightarrow> (\<forall>x \<in> {gs_x g, gs_y g, gs_z g}. fin_le 1000 x)"
| "sample_ok _ \<longleftrightarrow> True"

fun action_ok :: "action \<Rightarrow> bool" where
  "action_ok (Deliver x len) = sample_ok x"
| "action_ok Turn = True"

definition daemon_env_ok :: "env \<Rightarrow> bool" where
  "daemon_env_ok e \<longleftrightarrow> libm_ok e \<and> libm_finite e \<and> zoom_ok e \<and> zoom_finite e"

text \<open>The caches hold only values the wire theorems accept.\<close>

definition caches_ok :: "real_state \<Rightarrow> bool" where
  "caches_ok s \<longleftrightarrow> sample_ok (Pos_Sample (g_pos_fused s)) \<and> sample_ok (Vel_Sample (g_vel s)) \<and>
     sample_ok (Quat_Sample (g_quat s)) \<and> sample_ok (Gimbal_Sample (g_gimbal s))"

definition daemon_inv :: "daemon \<Rightarrow> bool" where
  "daemon_inv d \<longleftrightarrow> server_inv d \<and> caches_ok (hs_bsp (d_handler d))"

lemma caches_ok_flag_free: "flag_free caches_ok"
  by (simp add: flag_free_def caches_ok_def)

lemma fin_le_range: "fin_le B x \<Longrightarrow> B \<le> 1000 \<Longrightarrow> in_range f32 x \<and> in_range f64 x"
  using bounded_in_range_f32 bounded_in_range_f64 fin_le_bounded by blast

lemma caches_ok_wire:
  assumes "caches_ok s" and "daemon_env_ok e"
  shows "real_wire_inv e s \<and> real_json_ok e s"
proof -
  have "real_inv s" using assms(1) fin_le_range [of 4] fin_le_range [of 2] fin_le_range [of 1000]
    by (auto simp: real_inv_def caches_ok_def)
  moreover have "real_samples_ok s" "real_finite s"
    using assms(1) fin_le_bounded fin_le_finite by (auto simp: real_samples_ok_def real_finite_def caches_ok_def)
  ultimately show ?thesis using assms(2) by (simp add: real_wire_inv_def real_json_ok_def daemon_env_ok_def)
qed

lemma deliver_caches_ok:
  assumes "sample_ok x" and "caches_ok s" and "on_sample e x len s tr = Some (s', tr')"
  shows "caches_ok s'"
  using assms(1,2) assms(3) [unfolded on_sample_def registered_cb_topic option.case run_cb_def cb_defs Let_def]
  by (cases x) (auto simp: caches_ok_def simp del: sample_ok.simps split: prod.splits if_splits)

lemma daemon_step_inv:
  assumes "json_lib_ok jl" and "daemon_inv d" and "action_ok a"
  shows "daemon_inv (daemon_step e jl a d)"
proof (cases a)
  case (Deliver x len)
  then have "caches_ok (hs_bsp (d_handler (daemon_step e jl a d)))"
    using assms deliver_caches_ok by (auto simp: daemon_inv_def split: option.split)
  then show ?thesis using step_server_inv [OF assms(1)] assms(2) unfolding daemon_inv_def by blast
next
  case Turn
  then show ?thesis using step_server_inv [OF assms(1), of d e Turn] assms(2)
      turn_keeps [OF caches_ok_flag_free assms(1), of d e] unfolding daemon_inv_def by blast
qed

lemma daemon_run_inv:
  assumes "json_lib_ok jl" and "daemon_inv d" and "\<forall>a \<in> set acts. action_ok a"
  shows "daemon_inv (daemon_run e jl acts d)"
  using assms(2,3) by (induction acts arbitrary: d) (auto simp: daemon_step_inv [OF assms(1)] simp del: daemon_step.simps)

lemma daemon_ready_inv: "length (us_recv_buf srv) = DRONE_MAX_MSG_LEN \<Longrightarrow> daemon_inv (daemon_ready srv tr)"
  by (simp add: daemon_inv_def server_inv_def daemon_ready_def handler_set_server_def handler_initial_def caches_ok_def
      real_initial_def fin_le_def fp_finite_def in_range_def f32_def pow2_def)

section \<open>Answers\<close>

lemma turn_reply:
  assumes "json_lib_ok jl" and "daemon_env_ok e" and "daemon_inv d"
    and "udp_receive e 500 (d_srv d) (d_trace d) = (srv, Some (peer, line, len), tr1)"
    and "rpc_parse jl line = ((0, req), jops)"
    and "perform e (real_ops e) (action_of jl (req_method req) (req_params req)) (d_handler d) (tr1 @ map Json jops) =
           (rep, h, tr2)"
    and "name_fits (action_of jl (req_method req) (req_params req))"
    and "name_plain (action_of jl (req_method req) (req_params req))"
  shows "daemon_step e jl Turn d = \<lparr>d_srv = srv, d_handler = h,
           d_trace = tr2 @ [Net (Sendto (us_fd (d_srv d)) peer (reply_text (req_id req) rep)), Json Root_Put]\<rparr> \<and>
         reply_read (req_id req) rep"
proof -
  have ok: "real_wire_inv e (hs_bsp (d_handler d))" "real_json_ok e (hs_bsp (d_handler d))"
    using caches_ok_wire [OF _ assms(2)] assms(3) by (auto simp: daemon_inv_def)
  have "g_srv h = Some (us_fd (d_srv d))"
    using perform_g_srv [OF assms(6)] assms(3) by (simp add: daemon_inv_def server_inv_def)
  from real_wire.handle_rpc_wire [OF assms(1) ok(1) this assms(5-7)] show ?thesis
    using assms(4) reply_json_read [OF real_json.perform_json [OF ok(2) assms(6,8)]]
    by (simp add: udp_server_poll_def)
qed

lemma run_ready:
  assumes "json_lib_ok jl" and "length (us_recv_buf srv0) = DRONE_MAX_MSG_LEN" and "\<forall>a \<in> set acts. action_ok a"
  shows "daemon_inv (daemon_run e jl acts (daemon_ready srv0 tr0))"
    and "us_fd (d_srv (daemon_run e jl acts (daemon_ready srv0 tr0))) = us_fd srv0"
  using daemon_run_inv [OF assms(1) daemon_ready_inv [OF assms(2)] assms(3)]
    run_server_inv [OF assms(1), of "daemon_ready srv0 tr0" e acts] daemon_ready_inv [OF assms(2), of tr0]
  by (simp_all add: daemon_inv_def daemon_ready_def)

text \<open>
  C1. The whole hardware daemon as its clients see it: after any interleaving of poll turns and sample
  deliveries, a datagram that holds a request is answered in its turn by one datagram to its sender,
  which carries the reply of the abstract service in the state reached; the client reads it as a JSON
  object with the id of its request and the result, as a document, or the error. A file name in the request
  is at most 2000 bytes long and needs no escape.
\<close>

theorem daemon_answers:
  assumes "json_lib_ok jl" and "daemon_env_ok e" and "length (us_recv_buf srv0) = DRONE_MAX_MSG_LEN"
    and "\<forall>a \<in> set acts. action_ok a" and "d = daemon_run e jl acts (daemon_ready srv0 tr0)"
    and "udp_receive e 500 (d_srv d) (d_trace d) = (srv, Some (peer, line, len), tr1)"
    and "rpc_parse jl line = ((0, req), jops)"
    and "perform e (real_ops e) (action_of jl (req_method req) (req_params req)) (d_handler d) (tr1 @ map Json jops) =
           (rep, h, tr2)"
    and "name_fits (action_of jl (req_method req) (req_params req))"
    and "name_plain (action_of jl (req_method req) (req_params req))"
  shows "daemon_step e jl Turn d = \<lparr>d_srv = srv, d_handler = h,
           d_trace = tr2 @ [Net (Sendto (us_fd srv0) peer (reply_text (req_id req) rep)), Json Root_Put]\<rparr> \<and>
         reply_read (req_id req) rep"
  using run_ready [OF assms(1,3,4), of e tr0] turn_reply [OF assms(1,2) _ assms(6-10)] assms(5) by simp

text \<open>
  C11. In every state a run of the daemon reaches, the statistics of each of the nine topics are exact: the
  counter is the number of deliveries of that topic whose buffer was long enough, modulo \<open>2 ^ 32\<close>, and the
  stamp is nonzero and the flag set exactly when there was one. This is what the fallback to the
  single-battery topics takes the stamps for. The clock must not read below one
  millisecond.
\<close>

theorem daemon_topic_stats:
  assumes "json_lib_ok jl" and "monotonic_clock e" and "clock_bounded e" and "\<forall>tr. 0 < ts_ms (env_clock e (tr @ [Clock_Monotonic]))"
    and "s = hs_bsp (d_handler (daemon_run e jl acts (daemon_ready srv0 tr0)))"
  shows "topic_tracked (stats_of t s) (arrivals e t (deliveries acts))"
proof -
  have c: "\<forall>tr. fst (monotonic_ms e tr) \<noteq> 0"
    using monotonic_ms_value [OF assms(2,3)] assms(4) by (metis less_irrefl prod.collapse unsigned_0)
  have i: "topic_tracked (st (hs_bsp (d_handler (daemon_ready srv0 tr0)))) 0"
    if "st real_initial = stats0" for st :: "real_state \<Rightarrow> TopicStats"
    using that by (simp add: daemon_ready_def handler_set_server_def handler_initial_def topic_tracked_def stats0_def)
  note i = i [of g_pos_stats] i [of g_vel_stats] i [of g_quat_stats] i [of g_gps_stats] i [of g_flight_stats]
    i [of g_battery_stats] i [of g_battery_single_1_stats] i [of g_battery_single_2_stats] i [of g_gimbal_stats]
  show ?thesis unfolding assms(5)
    using pos_run.run_tracks [OF assms(1) c i(1)] vel_run.run_tracks [OF assms(1) c i(2)]
      quat_run.run_tracks [OF assms(1) c i(3)] gps_run.run_tracks [OF assms(1) c i(4)]
      flight_run.run_tracks [OF assms(1) c i(5)] battery_run.run_tracks [OF assms(1) c i(6)]
      single_1_run.run_tracks [OF assms(1) c i(7)] single_2_run.run_tracks [OF assms(1) c i(8)]
      gimbal_run.run_tracks [OF assms(1) c i(9)]
    by (cases t) (simp_all add: real_initial_def)
qed

text \<open>
  C12. The poll loop of \<^verbatim>\<open>main\<close> is a sequence of turns: it returns a state exactly when that state is
  reached after some number of turns, and the flag is read as cleared there and as set before.
\<close>

theorem main_loop_turns:
  "main_loop running e (handle_rpc e (real_ops e) jl) (d_srv d) (d_handler d) (d_trace d) = Some (srv', h', tr') \<longleftrightarrow>
   (\<exists>n. daemon_run e jl (replicate n Turn) d = \<lparr>d_srv = srv', d_handler = h', d_trace = tr'\<rparr> \<and> \<not> running tr' \<and>
      (\<forall>k < n. running (d_trace (daemon_run e jl (replicate k Turn) d))))" (is "?L \<longleftrightarrow> ?R")
proof
  assume ?L
  have d: "\<lparr>d_srv = d_srv d, d_handler = d_handler d, d_trace = d_trace d\<rparr> = d" by simp
  obtain n d' where "d' = daemon_run e jl (replicate n Turn) d" "srv' = d_srv d'" "h' = d_handler d'" "tr' = d_trace d'"
      "\<not> running (d_trace d')" "\<forall>k < n. running (d_trace (daemon_run e jl (replicate k Turn) d))"
    using main_loop_turns_fwd [OF \<open>?L\<close> refl] unfolding d by auto
  then show ?R by (intro exI [of _ n]) simp
next
  assume ?R
  then obtain n where n: "daemon_run e jl (replicate n Turn) d = \<lparr>d_srv = srv', d_handler = h', d_trace = tr'\<rparr>"
      "\<not> running tr'" "\<forall>k < n. running (d_trace (daemon_run e jl (replicate k Turn) d))" by blast
  then show ?L using main_loop_turns_bwd [of running e jl n d] by (simp add: Let_def)
qed

section \<open>Telemetry from the sample to the client\<close>

text \<open>A member of a document that reports a value with \<open>p\<close> decimals.\<close>

definition reports :: "(string \<times> doc) list \<Rightarrow> string \<Rightarrow> rat \<Rightarrow> nat \<Rightarrow> bool" where
  "reports ms key v p \<longleftrightarrow> (\<exists>x. map_of ms key = Some (DNum x) \<and> \<bar>fixed_val x - v\<bar> \<le> 1 / (2 * 10 ^ p))"

lemma telemetry_reports:
  assumes "telemetry_finite t"
  shows "reports (telemetry_members t) ''lat'' (fp_val (t_lat t)) 8"
    and "reports (telemetry_members t) ''lon'' (fp_val (t_lon t)) 8"
    and "reports (telemetry_members t) ''alt_msl_m'' (fp_val (t_alt_msl_m t)) 2"
    and "reports (telemetry_members t) ''vx_ms'' (fp_val (t_vx_ms t)) 2"
    and "reports (telemetry_members t) ''vy_ms'' (fp_val (t_vy_ms t)) 2"
    and "reports (telemetry_members t) ''vz_ms'' (fp_val (t_vz_ms t)) 2"
    and "reports (telemetry_members t) ''heading_deg'' (fp_val (t_heading_deg t)) 1"
  using fixed_val_fmt_f [of 8 "t_lat t"] fixed_val_fmt_f [of 8 "t_lon t"] fixed_val_fmt_f [of 2 "t_alt_msl_m t"]
    fixed_val_fmt_f [of 2 "t_vx_ms t"] fixed_val_fmt_f [of 2 "t_vy_ms t"] fixed_val_fmt_f [of 2 "t_vz_ms t"]
    fixed_val_fmt_f [of 1 "t_heading_deg t"] assms
  unfolding reports_def telemetry_members_def telemetry_finite_def by simp_all

lemma perform_telemetry:
  assumes "perform e (real_ops e) (action_of jl ''drone.get_telemetry'' p) h tr = (rep, h', tr')"
  obtains t evs where "rep = Result (telemetry_json t)" "h' = h" "tr' = tr @ evs"
    "real_get_telemetry e (hs_bsp h) tr = (Inr t, hs_bsp h, tr')"
proof -
  obtain r s1 tr1 where g: "real_get_telemetry e (hs_bsp h) tr = (r, s1, tr1)"
    by (cases "real_get_telemetry e (hs_bsp h) tr") auto
  then obtain t where t: "r = Inr t" "s1 = hs_bsp h" using real_get_telemetry_frame by blast
  have "action_of jl ''drone.get_telemetry'' p = Do_Get Get_Telemetry" by (simp add: action_of_def method_table_def)
  then have "rep = Result (telemetry_json t)" "h' = h" "tr' = tr1"
    using assms g t by (auto simp: act_def run_bsp_def value_reply_def real_ops_def)
  moreover obtain evs where "tr1 = tr @ evs" using real_get_telemetry_frame [OF g] by (auto simp: reading_trace_def)
  ultimately show ?thesis using that [of t evs] g t by simp
qed

lemma telemetry_turn:
  assumes "json_lib_ok jl" and "daemon_env_ok e" and "daemon_inv d"
    and "udp_receive e 500 (d_srv d) (d_trace d) = (srv, Some (peer, line, len), tr1)"
    and "rpc_parse jl line = ((0, req), jops)" and "req_method req = ''drone.get_telemetry''"
  obtains t evs msg where
    "d_trace (daemon_step e jl Turn d) =
       tr1 @ map Json jops @ evs @ [Net (Sendto (us_fd (d_srv d)) peer msg), Json Root_Put]"
    "json_read msg = Some (result_doc (req_id req) (DObj (telemetry_members t)))"
    "telemetry_finite t"
    "real_get_telemetry e (hs_bsp (d_handler d)) (tr1 @ map Json jops) = (Inr t, hs_bsp (d_handler d), tr1 @ map Json jops @ evs)"
proof -
  let ?s = "hs_bsp (d_handler d)" and ?tr = "tr1 @ map Json jops"
  let ?a = "action_of jl (req_method req) (req_params req)"
  obtain rep h tr2 where P: "perform e (real_ops e) ?a (d_handler d) ?tr = (rep, h, tr2)"
    by (cases "perform e (real_ops e) ?a (d_handler d) ?tr") auto
  obtain t evs where t: "rep = Result (telemetry_json t)" "tr2 = ?tr @ evs"
      "real_get_telemetry e ?s ?tr = (Inr t, ?s, tr2)"
    using perform_telemetry [OF P [unfolded assms(6)]] by metis
  have a: "name_fits ?a" "name_plain ?a"
    by (simp_all add: assms(6) action_of_def method_table_def name_fits_def name_plain_def)
  have w: "real_wire_inv e ?s" "real_json_ok e ?s"
    using caches_ok_wire [OF _ assms(2)] assms(3) by (auto simp: daemon_inv_def)
  have g: "op_get_telemetry (real_ops e) ?s ?tr = (Inr t, ?s, tr2)" using t(3) by (simp add: real_ops_def)
  have tf: "telemetry_finite t" by (rule real_json.telemetry_fin [OF w(2) g])
  have r: "json_read (reply_text (req_id req) rep) = Some (result_doc (req_id req) (DObj (telemetry_members t)))"
    unfolding t(1) telemetry_reply_read [OF real_wire.telemetry_bounded [OF w(1) g]] by (simp add: tf)
  show ?thesis using turn_reply [OF assms(1-5) P a] r t tf
    by (intro that [of evs "reply_text (req_id req) rep" t]) (simp_all del: daemon_step.simps)
qed

text \<open>
  C5. Telemetry from the sample to the client: after any run, the answer to \<^verbatim>\<open>drone.get_telemetry\<close> is a
  JSON object whose members report the latest samples delivered, position in degrees to half a unit of
  the eighth decimal, altitude and velocities of the second, heading of the first; the poll turns in
  between change none of this.
\<close>

theorem telemetry_end_to_end:
  fixes acts :: "action list" and e :: env
  defines "pos \<equiv> last (g_pos_fused real_initial #
             accepted e TOPIC_POSITION_FUSED (\<lambda>x. case x of Pos_Sample p \<Rightarrow> Some p | _ \<Rightarrow> None) (deliveries acts))"
    and "vel \<equiv> last (g_vel real_initial #
             accepted e TOPIC_VELOCITY (\<lambda>x. case x of Vel_Sample v \<Rightarrow> Some v | _ \<Rightarrow> None) (deliveries acts))"
    and "quat \<equiv> last (g_quat real_initial #
             accepted e TOPIC_QUATERNION (\<lambda>x. case x of Quat_Sample q \<Rightarrow> Some q | _ \<Rightarrow> None) (deliveries acts))"
  assumes "json_lib_ok jl" and "daemon_env_ok e" and "length (us_recv_buf srv0) = DRONE_MAX_MSG_LEN"
    and "\<forall>a \<in> set acts. action_ok a" and "d = daemon_run e jl acts (daemon_ready srv0 tr0)"
    and "udp_receive e 500 (d_srv d) (d_trace d) = (srv, Some (peer, line, len), tr1)"
    and "rpc_parse jl line = ((0, req), jops)" and "req_method req = ''drone.get_telemetry''"
  shows "\<exists>evs msg ms.
     d_trace (daemon_step e jl Turn d) =
       tr1 @ map Json jops @ evs @ [Net (Sendto (us_fd srv0) peer msg), Json Root_Put] \<and>
     json_read msg = Some (result_doc (req_id req) (DObj ms)) \<and>
     reports ms ''lat'' (fp_val (rad_to_deg (p_latitude pos))) 8 \<and>
     reports ms ''lon'' (fp_val (rad_to_deg (p_longitude pos))) 8 \<and>
     reports ms ''alt_msl_m'' (fp_val (p_altitude pos)) 2 \<and>
     reports ms ''vx_ms'' (fp_val (v_x vel)) 2 \<and> reports ms ''vy_ms'' (fp_val (v_y vel)) 2 \<and>
     reports ms ''vz_ms'' (fp_val (v_z vel)) 2 \<and>
     reports ms ''heading_deg'' (fp_val (quat_to_heading e quat)) 1"
proof -
  note inv = run_ready [OF assms(4,6,7), of e tr0, folded assms(8)]
  have c: "g_pos_fused (hs_bsp (d_handler d)) = pos" "g_vel (hs_bsp (d_handler d)) = vel"
      "g_quat (hs_bsp (d_handler d)) = quat"
    unfolding assms(8) pos_def vel_def quat_def pos_run.run_latest [OF assms(4)] vel_run.run_latest [OF assms(4)]
      quat_run.run_latest [OF assms(4)]
    by (simp_all add: daemon_ready_def handler_set_server_def handler_initial_def)
  obtain t evs msg where t: "d_trace (daemon_step e jl Turn d) =
       tr1 @ map Json jops @ evs @ [Net (Sendto (us_fd (d_srv d)) peer msg), Json Root_Put]"
      "json_read msg = Some (result_doc (req_id req) (DObj (telemetry_members t)))" "telemetry_finite t"
      "real_get_telemetry e (hs_bsp (d_handler d)) (tr1 @ map Json jops) =
         (Inr t, hs_bsp (d_handler d), tr1 @ map Json jops @ evs)"
    by (rule telemetry_turn [OF assms(4,5) inv(1) assms(9-11)])
  show ?thesis
    by (rule exI [of _ evs], rule exI [of _ msg], rule exI [of _ "telemetry_members t"])
      (use t(1,2) telemetry_reports [OF t(3)] real_telemetry_fields [OF t(4)] in \<open>simp add: c inv(2) del: daemon_step.simps\<close>)
qed

section \<open>A run of the sample daemon\<close>

definition pos0 :: pos_sample where
  "pos0 = \<lparr>p_longitude = Fin False (1 / 2), p_latitude = Fin False (1 / 4), p_altitude = Fin False 100,
           p_visibleSatelliteNumber = 12\<rparr>"

text \<open>The sample library knows the datagram of the sample environment as one request.\<close>

definition ping_lib :: "string \<Rightarrow> jval json_lib" where
  "ping_lib m = table_lib [(''ping'', req_doc 7 m [])]"

abbreviation one_delivery :: "action list" where
  "one_delivery \<equiv> [Deliver (Pos_Sample pos0) 8]"

lemma env0_daemon: "daemon_env_ok env0"
  using env0_libm by (simp add: daemon_env_ok_def libm_finite_def zoom_ok_def zoom_finite_def fp_finite_def in_range_def f32_def
      pow2_def)

lemma pos0_ok: "\<forall>a \<in> set one_delivery. action_ok a"
  by (simp add: pos0_def fin_le_def fp_finite_def in_range_def f32_def pow2_def)

lemma sample_run_srv: "d_srv (daemon_run env0 jl one_delivery (daemon_ready fresh_server [])) = fresh_server"
  by (simp add: daemon_ready_def split: option.split)

lemma sample_turn:
  assumes "NUL \<notin> set m" and "length m < 64"
  obtains srv line len tr1 req jops where
    "udp_receive env0 500 (d_srv (daemon_run env0 (ping_lib m) one_delivery (daemon_ready fresh_server [])))
       (d_trace (daemon_run env0 (ping_lib m) one_delivery (daemon_ready fresh_server []))) =
       (srv, Some (peer0, line, len), tr1)"
    "rpc_parse (ping_lib m) line = ((0, req), jops)" "req_id req = 7" "req_method req = m"
proof -
  let ?tr = "d_trace (daemon_run env0 (ping_lib m) one_delivery (daemon_ready fresh_server []))"
  obtain srv line len tr1 where r: "udp_receive env0 500 fresh_server ?tr = (srv, Some (peer0, line, len), tr1)"
      "\<forall>docs. rpc_parse (table_lib docs) line = rpc_parse (table_lib docs) ''ping''"
    using sample_receive [of ?tr] by blast
  have p: "rpc_parse (ping_lib m) line = ((0, \<lparr>req_id = 7, req_method = m, req_params = Some (JObj []),
      req_root = Some (req_doc 7 m [])\<rparr>), [Tok_New, Root_New, Tok_Free])"
    using r(2) parse_req_doc [of "''ping''" m 7 "[]"] assms by (simp add: ping_lib_def)
  show ?thesis by (rule that [OF _ p]) (simp_all only: sample_run_srv r(1) RpcRequest.simps)
qed

theorem daemon_answers_witness:
  "\<exists>srv h tr rep. daemon_step env0 (ping_lib ''system.ping'') Turn
       (daemon_run env0 (ping_lib ''system.ping'') one_delivery (daemon_ready fresh_server [])) =
     \<lparr>d_srv = srv, d_handler = h, d_trace = tr @ [Net (Sendto 3 peer0 (reply_text 7 rep)), Json Root_Put]\<rparr> \<and>
     reply_read 7 rep"
proof -
  let ?jl = "ping_lib ''system.ping''"
  let ?d = "daemon_run env0 ?jl one_delivery (daemon_ready fresh_server [])"
  obtain srv line len tr1 req jops where r: "udp_receive env0 500 (d_srv ?d) (d_trace ?d) = (srv, Some (peer0, line, len), tr1)"
      "rpc_parse ?jl line = ((0, req), jops)" "req_id req = 7" "req_method req = ''system.ping''"
    by (rule sample_turn [of "''system.ping''"]) simp_all
  let ?a = "action_of ?jl (req_method req) (req_params req)"
  have a: "?a = Do_Ping" by (simp add: r(4) action_of_def method_table_def)
  obtain rep h tr2 where P: "perform env0 (real_ops env0) ?a (d_handler ?d) (tr1 @ map Json jops) = (rep, h, tr2)"
    by (cases "perform env0 (real_ops env0) ?a (d_handler ?d) (tr1 @ map Json jops)") auto
  have ok: "json_lib_ok ?jl" by (simp add: ping_lib_def table_lib_ok)
  have n: "name_fits ?a" "name_plain ?a" by (simp_all add: a name_fits_def name_plain_def)
  from daemon_answers [OF ok env0_daemon fresh_server_sel(1) pos0_ok refl r(1,2) P n] show ?thesis
    unfolding r(3) fresh_server_sel(2) by blast
qed

theorem daemon_topic_stats_witness:
  "ts_count (g_pos_stats (hs_bsp (d_handler (daemon_run env0 (table_lib [])
     [Deliver (Pos_Sample pos0) 8, Turn, Deliver (Pos_Sample pos0) 7, Turn] (daemon_ready fresh_server []))))) = 1"
proof -
  let ?acts = "[Deliver (Pos_Sample pos0) 8, Turn, Deliver (Pos_Sample pos0) 7, Turn]"
  have "\<forall>tr. 0 < ts_ms (env_clock env0 (tr @ [Clock_Monotonic]))" by (auto simp: clock0_def ts_ms_split)
  from daemon_topic_stats [OF table_lib_ok env0_monotonic env0_clock_bounded this refl, where t = TOPIC_POSITION_FUSED
      and acts = ?acts and ?srv0.0 = fresh_server and ?tr0.0 = "[]"]
  show ?thesis by (simp add: topic_tracked_def arrivals_def del: daemon_step.simps daemon_run_simps)
qed

theorem main_loop_turns_witness:
  "\<exists>srv' h' tr'. main_loop (\<lambda>tr. tr = []) env0 (handle_rpc env0 (real_ops env0) (table_lib [])) fresh_server
       (served_by real_initial) [] = Some (srv', h', tr') \<and> tr' \<noteq> []"
proof -
  let ?jl = "table_lib []" and ?d = "\<lparr>d_srv = fresh_server, d_handler = served_by real_initial, d_trace = []\<rparr>"
  obtain srv' h' tr' where p: "udp_server_poll env0 (handle_rpc env0 (real_ops env0) ?jl) 500 fresh_server
      (served_by real_initial) [] = (srv', h', tr')"
    by (cases "udp_server_poll env0 (handle_rpc env0 (real_ops env0) ?jl) 500 fresh_server (served_by real_initial) []") auto
  have n: "tr' \<noteq> []" using real_rpc.poll_step [OF _ p] real_inv_initial table_lib_ok by auto
  have "daemon_run env0 ?jl (replicate 1 Turn) ?d = \<lparr>d_srv = srv', d_handler = h', d_trace = tr'\<rparr>" using p by simp
  moreover have "\<forall>k < 1. d_trace (daemon_run env0 ?jl (replicate k Turn) ?d) = []" by simp
  ultimately have "\<exists>n. daemon_run env0 ?jl (replicate n Turn) ?d = \<lparr>d_srv = srv', d_handler = h', d_trace = tr'\<rparr> \<and>
      \<not> tr' = [] \<and> (\<forall>k < n. d_trace (daemon_run env0 ?jl (replicate k Turn) ?d) = [])" using n by blast
  from main_loop_turns [THEN iffD2, OF this] show ?thesis using n by auto
qed

theorem telemetry_end_to_end_witness:
  "\<exists>tr msg ms. d_trace (daemon_step env0 (ping_lib ''drone.get_telemetry'') Turn
       (daemon_run env0 (ping_lib ''drone.get_telemetry'') one_delivery (daemon_ready fresh_server []))) =
       tr @ [Net (Sendto 3 peer0 msg), Json Root_Put] \<and>
     json_read msg = Some (result_doc 7 (DObj ms)) \<and>
     reports ms ''lat'' (fp_val (rad_to_deg (Fin False (1 / 4)))) 8 \<and> reports ms ''alt_msl_m'' 100 2"
proof -
  let ?jl = "ping_lib ''drone.get_telemetry''"
  let ?d = "daemon_run env0 ?jl one_delivery (daemon_ready fresh_server [])"
  obtain srv line len tr1 req jops where r: "udp_receive env0 500 (d_srv ?d) (d_trace ?d) = (srv, Some (peer0, line, len), tr1)"
      "rpc_parse ?jl line = ((0, req), jops)" "req_id req = 7" "req_method req = ''drone.get_telemetry''"
    by (rule sample_turn [of "''drone.get_telemetry''"]) simp_all
  have ok: "json_lib_ok ?jl" by (simp add: ping_lib_def table_lib_ok)
  have p: "last (g_pos_fused real_initial # accepted env0 TOPIC_POSITION_FUSED
      (\<lambda>x. case x of Pos_Sample p \<Rightarrow> Some p | _ \<Rightarrow> None) (deliveries one_delivery)) = pos0"
    by (simp add: accepted_def map_filter_simps)
  from telemetry_end_to_end [OF ok env0_daemon fresh_server_sel(1) pos0_ok refl r(1,2,4)]
  show ?thesis unfolding p r(3) fresh_server_sel(2) by (fastforce simp: pos0_def simp del: daemon_step.simps)
qed

end
