(* ===== verification/Thread_Replies.thy ===== *)
theory Thread_Replies
  imports Sdk_Threads Daemon_System
begin

text \<open>
  What the clients see while the SDK's thread stores samples in the middle of a reading: which values a
  reading can report, that every reply is still one JSON object in its buffer (the readings disturbed by
  the callbacks keep the contracts of a provider, so the theorems of the handlers apply to them), what the
  freshness check still guarantees, and the races: a position mixed from two samples, a fresh battery
  topic taken for stale.
\<close>

section \<open>Where the values of a reading come from\<close>

lemma sat_parts:
  "(\<And>b. sat C P Q (k b)) \<Longrightarrow> sat C P Q (fresh_prog st age k)"
  by (simp add: fresh_prog_def thread_simps)

lemma sat_pack:
  assumes "\<And>i. sat C P Q (k ps pc v0 i)"
    and "\<And>s v i. P s \<Longrightarrow> v \<in> insert v0 {word_of_int (s_currentVoltage (b s)) |s. P s} \<Longrightarrow>
           sat C P Q (k (ps + word_of_int (s_batteryCapacityPercent (b s))) (pc + 1) v i)"
  shows "sat C P Q (pack_prog b st ps pc v0 i k)"
proof -
  have "P s \<Longrightarrow> sat C P Q (k (ps + word_of_int (s_batteryCapacityPercent (b s))) (pc + 1) v0 i)" for s i
    by (rule assms(2)) simp_all
  moreover have "P s \<Longrightarrow> P t \<Longrightarrow> sat C P Q (k (ps + word_of_int (s_batteryCapacityPercent (b s))) (pc + 1)
      (word_of_int (s_currentVoltage (b t))) i)" for s t i
    by (rule assms(2)) auto
  ultimately show ?thesis using assms(1) by (simp add: pack_prog_def thread_simps)
qed

text \<open>
  The battery fields of telemetry: the values read first, or those of the fallback. Its percentage is that
  of one pack or the mean of both, each in a memory of its own.
\<close>

definition pack_volts :: "(real_state \<Rightarrow> bool) \<Rightarrow> u32 set" where
  "pack_volts P = {0} \<union> {word_of_int (s_currentVoltage (g_battery_single_1 s)) |s. P s} \<union>
     {word_of_int (s_currentVoltage (g_battery_single_2 s)) |s. P s}"

abbreviation pct_1 :: "real_state \<Rightarrow> u32" where
  "pct_1 s \<equiv> word_of_int (s_batteryCapacityPercent (g_battery_single_1 s))"

abbreviation pct_2 :: "real_state \<Rightarrow> u32" where
  "pct_2 s \<equiv> word_of_int (s_batteryCapacityPercent (g_battery_single_2 s))"

definition pack_pcts :: "(real_state \<Rightarrow> bool) \<Rightarrow> u8 set" where
  "pack_pcts P = {ucast (pct_1 s) |s. P s} \<union> {ucast (pct_2 s) |s. P s} \<union>
     {ucast ((pct_1 s + pct_2 t) div 2) |s t. P s \<and> P t}"

lemma sat_fallback:
  assumes "Q out"
    and "\<And>p v. p \<in> insert (t_battery_pct out) (pack_pcts P) \<Longrightarrow> v \<in> pack_volts P \<Longrightarrow>
           Q (out\<lparr>t_battery_pct := p, t_battery_mv := v\<rparr>)"
  shows "sat C P Q (fallback_prog out)"
proof -
  have q: "Q (out\<lparr>t_battery_mv := v\<rparr>)" if "v \<in> pack_volts P" for v
    using assms(2) [OF insertI1 that] by simp
  have "sat C P Q (packs_prog out)"
    unfolding packs_prog_def
    by (intro sat_pack) (auto simp: pack_volts_def pack_pcts_def intro!: assms(2) q)
  then show ?thesis unfolding fallback_prog_def by (intro sat_parts) (simp add: thread_simps assms(1))
qed

text \<open>
  What can be said of telemetry read while the caches change: each of its fields is computed from values
  the caches held in memories of \<open>S\<close>. The heading takes eight accesses to the quaternion, the satellites
  two, the percentage of the fallback one or two.
\<close>

definition heading_from :: "env \<Rightarrow> real_state set \<Rightarrow> fp \<Rightarrow> bool" where
  "heading_from e S h \<longleftrightarrow>
     (\<exists>a0 \<in> S. \<exists>a3 \<in> S. \<exists>a1 \<in> S. \<exists>a2 \<in> S. \<exists>b2 \<in> S. \<exists>c2 \<in> S. \<exists>b3 \<in> S. \<exists>c3 \<in> S.
        h = yaw_to_heading (env_atan2f e
          (fmul f32 (lit32 2) (fadd f32 (fmul f32 (q0 (g_quat a0)) (q3 (g_quat a3)))
             (fmul f32 (q1 (g_quat a1)) (q2 (g_quat a2)))))
          (fsub f32 (lit32 1) (fmul f32 (lit32 2) (fadd f32 (fmul f32 (q2 (g_quat b2)) (q2 (g_quat c2)))
             (fmul f32 (q3 (g_quat b3)) (q3 (g_quat c3))))))))"

definition sats_from :: "real_state set \<Rightarrow> u8 \<Rightarrow> bool" where
  "sats_from S n \<longleftrightarrow>
     (\<exists>s \<in> S. n = ucast (word_of_int (p_visibleSatelliteNumber (g_pos_fused s)) :: u32) \<or>
        n = ucast (word_of_int (g_gpsSatelliteNumberUsed (g_gps s)) :: u32))"

definition telemetry_from :: "env \<Rightarrow> real_state set \<Rightarrow> DroneTelemetry \<Rightarrow> bool" where
  "telemetry_from e S t \<longleftrightarrow>
     t_lat t \<in> (\<lambda>s. rad_to_deg (p_latitude (g_pos_fused s))) ` S \<and>
     t_lon t \<in> (\<lambda>s. rad_to_deg (p_longitude (g_pos_fused s))) ` S \<and>
     t_alt_msl_m t \<in> (\<lambda>s. p_altitude (g_pos_fused s)) ` S \<and> t_alt_rel_m t \<in> (\<lambda>s. p_altitude (g_pos_fused s)) ` S \<and>
     t_vx_ms t \<in> (\<lambda>s. v_x (g_vel s)) ` S \<and> t_vy_ms t \<in> (\<lambda>s. v_y (g_vel s)) ` S \<and> t_vz_ms t \<in> (\<lambda>s. v_z (g_vel s)) ` S \<and>
     heading_from e S (t_heading_deg t) \<and> sats_from S (t_gps_sats t) \<and>
     t_gps_fix t \<in> (\<lambda>s. word_of_int (fst (cast_uint e 8 (g_fixState (g_gps s)) []))) ` S \<and>
     t_flight_status t \<in> (\<lambda>s. word_of_int (g_flight_status s)) ` S \<and> t_motors_on t \<in> (\<lambda>s. 0 < g_flight_status s) ` S \<and>
     t_battery_pct t \<in> (\<lambda>s. word_of_int (w_percentage (g_battery s))) ` S \<union> pack_pcts (\<lambda>s. s \<in> S) \<and>
     t_battery_mv t \<in> (\<lambda>s. word_of_int (w_voltage (g_battery s))) ` S \<union> pack_volts (\<lambda>s. s \<in> S)"

lemma heading_fromI:
  "a0 \<in> S \<Longrightarrow> a3 \<in> S \<Longrightarrow> a1 \<in> S \<Longrightarrow> a2 \<in> S \<Longrightarrow> b2 \<in> S \<Longrightarrow> c2 \<in> S \<Longrightarrow> b3 \<in> S \<Longrightarrow> c3 \<in> S \<Longrightarrow>
   heading_from e S (yaw_to_heading (env_atan2f e
     (fmul f32 (lit32 2) (fadd f32 (fmul f32 (q0 (g_quat a0)) (q3 (g_quat a3)))
        (fmul f32 (q1 (g_quat a1)) (q2 (g_quat a2)))))
     (fsub f32 (lit32 1) (fmul f32 (lit32 2) (fadd f32 (fmul f32 (q2 (g_quat b2)) (q2 (g_quat c2)))
        (fmul f32 (q3 (g_quat b3)) (q3 (g_quat c3))))))))"
  unfolding heading_from_def by blast

lemma sats_fromI:
  "a \<in> S \<Longrightarrow> b \<in> S \<Longrightarrow> sats_from S (ucast (if c then (word_of_int (g_gpsSatelliteNumberUsed (g_gps b)) :: u32)
     else word_of_int (p_visibleSatelliteNumber (g_pos_fused a))))"
  unfolding sats_from_def by (cases c) auto

lemma sat_telemetry_from: "sat C (\<lambda>s. s \<in> S) (telemetry_from e S) (telemetry_prog e)"
  unfolding telemetry_prog_def heading_prog_def Let_def thread_simps
  by (intro allI impI sat_fallback)
    (simp_all add: telemetry_from_def heading_fromI sats_fromI del: lit_small split del: if_split, blast)

section \<open>Replies while the caches change\<close>

lemma cache_values:
  assumes "caches_ok s"
  shows "fp_finite (rad_to_deg (p_latitude (g_pos_fused s)))" "fp_finite (rad_to_deg (p_longitude (g_pos_fused s)))"
    "fp_bounded (10 ^ 20) (rad_to_deg (p_latitude (g_pos_fused s)))"
    "fp_bounded (10 ^ 20) (rad_to_deg (p_longitude (g_pos_fused s)))"
    "fp_finite (p_altitude (g_pos_fused s))" "in_range f32 (p_altitude (g_pos_fused s))"
    "fp_finite (v_x (g_vel s))" "in_range f32 (v_x (g_vel s))" "fp_finite (v_y (g_vel s))" "in_range f32 (v_y (g_vel s))"
    "fp_finite (v_z (g_vel s))" "in_range f32 (v_z (g_vel s))"
    "fin_le 2 (q0 (g_quat s))" "fin_le 2 (q1 (g_quat s))" "fin_le 2 (q2 (g_quat s))" "fin_le 2 (q3 (g_quat s))"
    "fin_le 1000 (gs_x (g_gimbal s))" "fin_le 1000 (gs_y (g_gimbal s))" "fin_le 1000 (gs_z (g_gimbal s))"
  using assms rad_to_deg_finite bounded_big [OF rad_to_deg_bounded [OF fin_le_bounded]]
  by (simp_all add: caches_ok_def)

lemma heading_in_range_f32: "libm_ok e \<Longrightarrow> in_range f32 (yaw_to_heading (env_atan2f e y x))"
  using yaw_to_heading_range [of "env_atan2f e y x"]
  by (intro bounded_in_range_f32 [of 360]) (auto simp: libm_ok_def fp_bounded_def)

lemma sat_telemetry_ok:
  assumes "daemon_env_ok e"
  shows "sat C caches_ok (\<lambda>t. telemetry_ok t \<and> telemetry_finite t) (telemetry_prog e)"
proof -
  have e: "libm_ok e" "libm_finite e" using assms by (simp_all add: daemon_env_ok_def)
  show ?thesis
    unfolding telemetry_prog_def heading_prog_def Let_def thread_simps
    by (intro allI impI sat_fallback)
      (simp_all add: telemetry_ok_def telemetry_finite_def cache_values [simplified] heading_in_range_f32 [OF e(1)]
        yaw_args_finite [OF e] del: lit_small)
qed

lemma sat_gimbal_ok: "sat C caches_ok (\<lambda>g. gimbal_reading_ok g \<and> gimbal_finite g) gimbal_prog"
  using cache_values(17-19) fin_le_finite [of 1000] fin_le_range [of 1000] bounded_big [OF fin_le_bounded, of 1000]
  by (simp add: gimbal_prog_def thread_simps gimbal_reading_ok_def gimbal_finite_def)

lemma member_keeps_ok:
  "sample_ok x \<Longrightarrow> f \<in> set (copy_members x) \<Longrightarrow> caches_ok s \<Longrightarrow> caches_ok (f s)"
  by (cases x) (auto simp: caches_ok_def)

lemma mark_keeps:
  assumes "\<And>f s. P s \<Longrightarrow> P (upd f s)" and "keeps C P k" shows "keeps C P (mark_prog st upd k)"
  using assms by (simp add: mark_prog_def thread_simps)

lemma sdk_keeps_ok:
  assumes "copies copy" and "\<forall>(x, len) \<in> set xs. sample_ok x"
  shows "keeps C caches_ok (sdk_prog e copy xs)"
  using assms(2)
proof (induction xs)
  case (Cons y xs)
  obtain x len where y: "y = (x, len)" by (cases y)
  have k: "keeps C caches_ok (sdk_prog e copy xs)" using Cons by simp
  have "keeps C caches_ok (mark_sample x (sdk_prog e copy xs))"
    by (cases x) (simp_all, (rule mark_keeps [OF _ k], simp add: caches_ok_def)+)
  then show ?case using k y Cons.prems set_copy [OF assms(1)] member_keeps_ok by (auto simp: thread_simps)
qed simp

section \<open>The daemon with samples arriving inside its readings\<close>

text \<open>
  A reading during which the SDK delivers samples: the two threads run under a schedule, then the
  reading runs to its end and the callbacks to theirs. Schedule and samples may differ from call to call.
\<close>

definition threaded ::
    "env \<Rightarrow> (sample \<Rightarrow> (real_state \<Rightarrow> real_state) list) \<Rightarrow> (trace \<Rightarrow> turn list) \<Rightarrow> (trace \<Rightarrow> (sample \<times> nat) list) \<Rightarrow>
      'a reading \<Rightarrow> (real_state, DroneError + 'a) bsp_op" where
  "threaded e copy sch xs p s tr =
     (let c = sched_run e (sch tr) \<lparr>th_main = p, th_sdk = sdk_prog e copy (xs tr), th_mem = s, th_trace = tr\<rparr>;
          (t, s, tr) = run_alone e (th_main c) (th_mem c) (th_trace c);
          (_, s, tr) = run_alone e (th_sdk c) s tr
      in (Inr t, s, tr))"

definition threaded_ops ::
    "env \<Rightarrow> (sample \<Rightarrow> (real_state \<Rightarrow> real_state) list) \<Rightarrow> (trace \<Rightarrow> turn list) \<Rightarrow> (trace \<Rightarrow> (sample \<times> nat) list) \<Rightarrow>
      real_state drone_ops" where
  "threaded_ops e copy sch xs = (real_ops e)
     \<lparr>op_get_telemetry := threaded e copy sch xs (telemetry_prog e),
      op_get_battery_info := threaded e copy sch xs battery_prog,
      op_get_gimbal_angle := threaded e copy sch xs gimbal_prog\<rparr>"

text \<open>The samples that arrive are as the SDK documents them.\<close>

definition arrivals_ok :: "(trace \<Rightarrow> (sample \<times> nat) list) \<Rightarrow> bool" where
  "arrivals_ok xs \<longleftrightarrow> (\<forall>tr. \<forall>(x, len) \<in> set (xs tr). sample_ok x)"

lemma threaded_reading:
  assumes "copies copy" and "arrivals_ok xs" and "reads_only p" and "sat (\<lambda>_. True) caches_ok Q p"
    and "caches_ok s" and "threaded e copy sch xs p s tr = (r, s', tr')"
  shows "caches_ok s' \<and> access_trace tr tr' \<and> (\<exists>t. r = Inr t \<and> Q t)"
proof -
  let ?c0 = "\<lparr>th_main = p, th_sdk = sdk_prog e copy (xs tr), th_mem = s, th_trace = tr\<rparr>"
  define c where "c = sched_run e (sch tr) ?c0"
  obtain t s1 tr1 where m: "run_alone e (th_main c) (th_mem c) (th_trace c) = (t, s1, tr1)" by (metis prod_cases3)
  obtain u s2 tr2 where k: "run_alone e (th_sdk c) s1 tr1 = (u, s2, tr2)" by (metis prod_cases3)
  have r: "r = Inr t" "s' = s2" "tr' = tr2" using assms(6) m k by (simp_all add: threaded_def c_def Let_def)
  have cl: "clock_shows e (\<lambda>_. True) tr" for tr by (simp add: clock_shows_def)
  have "both_keep e (\<lambda>_. True) caches_ok ?c0"
    using assms(1,2,5) reads_only_keeps [OF assms(3)] sdk_keeps_ok [of copy "xs tr" "\<lambda>_. True" e] cl
    by (simp add: both_keep_def arrivals_ok_def)
  note b0 = this and b = both_keep_run [OF this, of "sch tr", folded c_def]
  have q: "sat (\<lambda>_. True) caches_ok Q (th_main c)"
    unfolding c_def by (rule sat_run [OF _ memories_keep [OF b0]]) (simp_all add: assms(4) cl)
  have s1: "caches_ok s1" using keeps_alone [OF m, of "\<lambda>_. True" caches_ok] cl b unfolding both_keep_def by blast
  moreover have "caches_ok s2" using keeps_alone [OF k, of "\<lambda>_. True" caches_ok] s1 cl b unfolding both_keep_def by blast
  moreover have "Q t" using sat_alone [OF m q] cl b unfolding both_keep_def by blast
  moreover have "access_trace tr tr2"
    using sched_run_trace [of ?c0 e "sch tr"] run_alone_trace [OF m] run_alone_trace [OF k]
    by (auto simp: c_def intro: access_trace_trans)
  ultimately show ?thesis using r by blast
qed

lemma access_trace_bsp: "access_trace tr tr' \<Longrightarrow> \<exists>evs. tr' = tr @ evs \<and> (\<forall>ev \<in> set evs. bsp_ev ev)"
  by (fastforce simp: access_trace_def)

text \<open>The contracts of a provider hold for the readings disturbed in this way.\<close>

definition threaded_inv ::
    "env \<Rightarrow> (sample \<Rightarrow> (real_state \<Rightarrow> real_state) list) \<Rightarrow> (trace \<Rightarrow> (sample \<times> nat) list) \<Rightarrow> real_state \<Rightarrow> bool" where
  "threaded_inv e copy xs s \<longleftrightarrow> caches_ok s \<and> daemon_env_ok e \<and> copies copy \<and> arrivals_ok xs"

lemma sat_any: "sat C P (\<lambda>_. True) p"
proof (induction p)
  case (Load k)
  then show ?case by (simp add: Load.IH [OF rangeI])
next
  case (Now k)
  then show ?case by (simp add: Now.IH [OF rangeI])
qed simp_all

lemma threaded_step:
  assumes "reads_only p" shows "bsp_step (threaded_inv e copy xs) (threaded e copy sch xs p)"
proof (rule bsp_stepI)
  fix s tr r s' tr'
  assume i: "threaded_inv e copy xs s" and run: "threaded e copy sch xs p s tr = (r, s', tr')"
  from threaded_reading [OF _ _ assms sat_any _ run] i have "caches_ok s'" "access_trace tr tr'"
    by (simp_all add: threaded_inv_def)
  then show "threaded_inv e copy xs s' \<and> (\<exists>evs. tr' = tr @ evs \<and> (\<forall>ev \<in> set evs. bsp_ev ev))"
    using i access_trace_bsp by (simp add: threaded_inv_def)
qed

lemma threaded_ops_sel [simp]:
  "op_get_telemetry (threaded_ops e copy sch xs) = threaded e copy sch xs (telemetry_prog e)"
  "op_get_battery_info (threaded_ops e copy sch xs) = threaded e copy sch xs battery_prog"
  "op_get_gimbal_angle (threaded_ops e copy sch xs) = threaded e copy sch xs gimbal_prog"
  "op_get_camera_state (threaded_ops e copy sch xs) = real_get_camera_state e"
  "op_get_rtk_status (threaded_ops e copy sch xs) = real_get_rtk_status"
  by (simp_all add: threaded_ops_def real_ops_def)

lemma threaded_bsp: "drone_bsp (threaded_ops e copy sch xs) (threaded_inv e copy xs)"
proof -
  have "drone_bsp (real_ops e) (threaded_inv e copy xs)"
    by (rule real_bsp) (simp add: flag_free_def threaded_inv_def caches_ok_def)
  then show ?thesis unfolding drone_bsp_def by (simp add: threaded_ops_def threaded_step readings_read)
qed

interpretation threaded_wire: bounded_bsp "threaded_ops e copy sch xs" "threaded_inv e copy xs"
proof (intro bounded_bsp.intro bounded_bsp_axioms.intro threaded_bsp)
  fix s tr t s' tr'
  assume i: "threaded_inv e copy xs s" and "op_get_telemetry (threaded_ops e copy sch xs) s tr = (Inr t, s', tr')"
  then show "telemetry_ok t"
    using threaded_reading [OF _ _ readings_read(1) sat_telemetry_ok, of copy xs e s e sch tr]
    by (auto simp: threaded_inv_def)
next
  fix s tr g s' tr'
  assume i: "threaded_inv e copy xs s" and "op_get_gimbal_angle (threaded_ops e copy sch xs) s tr = (Inr g, s', tr')"
  then show "gimbal_reading_ok g"
    using threaded_reading [OF _ _ readings_read(3) sat_gimbal_ok, of copy xs s e sch tr]
    by (auto simp: threaded_inv_def)
next
  fix s tr c s' tr'
  assume i: "threaded_inv e copy xs s" and "op_get_camera_state (threaded_ops e copy sch xs) s tr = (Inr c, s', tr')"
  then show "camera_ok c"
    using real_wire.camera_bounded [of e s tr c s' tr'] caches_ok_wire [of s e] by (simp add: threaded_inv_def real_ops_def)
next
  fix s tr r s' tr'
  assume i: "threaded_inv e copy xs s" and "op_get_rtk_status (threaded_ops e copy sch xs) s tr = (Inr r, s', tr')"
  then show "rtk_ok r"
    using real_wire.rtk_bounded [of e s tr r s' tr'] caches_ok_wire [of s e] by (simp add: threaded_inv_def real_ops_def)
qed

interpretation threaded_json: json_readings "threaded_ops e copy sch xs" "threaded_inv e copy xs"
proof unfold_locales
  fix s tr t s' tr'
  assume i: "threaded_inv e copy xs s" and "op_get_telemetry (threaded_ops e copy sch xs) s tr = (Inr t, s', tr')"
  then show "telemetry_finite t"
    using threaded_reading [OF _ _ readings_read(1) sat_telemetry_ok, of copy xs e s e sch tr]
    by (auto simp: threaded_inv_def)
next
  fix s tr g s' tr'
  assume i: "threaded_inv e copy xs s" and "op_get_gimbal_angle (threaded_ops e copy sch xs) s tr = (Inr g, s', tr')"
  then show "gimbal_finite g"
    using threaded_reading [OF _ _ readings_read(3) sat_gimbal_ok, of copy xs s e sch tr]
    by (auto simp: threaded_inv_def)
next
  fix s tr c s' tr'
  assume i: "threaded_inv e copy xs s" and "op_get_camera_state (threaded_ops e copy sch xs) s tr = (Inr c, s', tr')"
  then show "fp_finite (c_zoom_factor c)"
    using real_json.camera_fin [of e s tr c s' tr'] caches_ok_wire [of s e] by (simp add: threaded_inv_def real_ops_def)
next
  fix s tr r s' tr'
  assume i: "threaded_inv e copy xs s" and "op_get_rtk_status (threaded_ops e copy sch xs) s tr = (Inr r, s', tr')"
  then show "rtk_finite r"
    using real_json.rtk_fin [of e s tr r s' tr'] caches_ok_wire [of s e] by (simp add: threaded_inv_def real_ops_def)
qed

lemma threaded_answers:
  assumes "json_lib_ok jl" and "threaded_inv e copy xs (hs_bsp h)" and "g_srv h = Some fd"
    and "rpc_parse jl line = ((0, req), jops)"
    and "perform e (threaded_ops e copy sch xs) (action_of jl (req_method req) (req_params req)) h (tr @ map Json jops) =
           (rep, h', tr')"
    and "name_fits (action_of jl (req_method req) (req_params req))"
    and "name_plain (action_of jl (req_method req) (req_params req))"
  shows "handle_rpc e (threaded_ops e copy sch xs) jl peer line len h tr =
           (0, h', tr' @ [Net (Sendto fd peer (reply_text (req_id req) rep)), Json Root_Put]) \<and>
         reply_read (req_id req) rep \<and> threaded_inv e copy xs (hs_bsp h')"
proof -
  have srv: "g_srv h' = Some fd" using perform_g_srv [OF assms(5)] assms(3) by simp
  note run = threaded_wire.handle_rpc_wire [OF assms(1,2) srv assms(4-6), of peer len]
  moreover have "reply_read (req_id req) rep"
    by (rule reply_json_read [OF threaded_json.perform_json [OF assms(2,5,7)]])
  moreover have "threaded_inv e copy xs (hs_bsp h')"
    using drone_bsp.handle_rpc_parsed [OF threaded_bsp assms(1,2,4) run] by blast
  ultimately show ?thesis by blast
qed

text \<open>
  Runs of the daemon in which samples arrive between turns and inside the readings of a turn.
\<close>

fun threaded_act ::
    "env \<Rightarrow> (sample \<Rightarrow> (real_state \<Rightarrow> real_state) list) \<Rightarrow> (trace \<Rightarrow> turn list) \<Rightarrow> (trace \<Rightarrow> (sample \<times> nat) list) \<Rightarrow>
      'j json_lib \<Rightarrow> action \<Rightarrow> daemon \<Rightarrow> daemon" where
  "threaded_act e copy sch xs jl (Deliver x len) d = daemon_step e jl (Deliver x len) d"
| "threaded_act e copy sch xs jl Turn d = poll_turn e (threaded_ops e copy sch xs) jl d"

definition threaded_run ::
    "env \<Rightarrow> (sample \<Rightarrow> (real_state \<Rightarrow> real_state) list) \<Rightarrow> (trace \<Rightarrow> turn list) \<Rightarrow> (trace \<Rightarrow> (sample \<times> nat) list) \<Rightarrow>
      'j json_lib \<Rightarrow> action list \<Rightarrow> daemon \<Rightarrow> daemon" where
  "threaded_run e copy sch xs jl acts d = fold (threaded_act e copy sch xs jl) acts d"

lemma threaded_act_inv:
  assumes "json_lib_ok jl" and "daemon_env_ok e" and "copies copy" and "arrivals_ok xs" and "daemon_inv d" and "action_ok a"
  shows "daemon_inv (threaded_act e copy sch xs jl a d) \<and> us_fd (d_srv (threaded_act e copy sch xs jl a d)) = us_fd (d_srv d)"
proof (cases a)
  case (Deliver x len)
  then show ?thesis using daemon_step_inv [OF assms(1,5,6)] step_server_inv [OF assms(1), of d e a] assms(5)
    by (simp add: daemon_inv_def del: daemon_step.simps)
next
  case Turn
  then show ?thesis using poll_turn_keeps [OF threaded_bsp assms(1), of e copy xs d e sch] assms
    by (simp add: daemon_inv_def threaded_inv_def del: poll_turn_def)
qed

lemma threaded_run_inv:
  assumes "json_lib_ok jl" and "daemon_env_ok e" and "copies copy" and "arrivals_ok xs" and "daemon_inv d"
    and "\<forall>a \<in> set acts. action_ok a"
  shows "daemon_inv (threaded_run e copy sch xs jl acts d) \<and> us_fd (d_srv (threaded_run e copy sch xs jl acts d)) = us_fd (d_srv d)"
  using assms(5,6)
proof (induction acts arbitrary: d)
  case (Cons a acts)
  then show ?case using threaded_act_inv [OF assms(1-4) Cons.prems(1), of a sch] by (simp add: threaded_run_def)
qed (simp add: threaded_run_def)

text \<open>
  C2. Samples that arrive in the middle of a reading break no reply: after any run in which the SDK's
  thread stores samples between turns and, access by access, inside the readings of a turn, a request is
  answered in its turn by one datagram to its sender that the client reads as a JSON object with its id,
  and the caches hold only values in range. A file name in the request is at most 2000 bytes long and needs
  no escape.
\<close>

theorem threaded_daemon_answers:
  assumes "json_lib_ok jl" and "daemon_env_ok e" and "copies copy" and "arrivals_ok xs"
    and "length (us_recv_buf srv0) = DRONE_MAX_MSG_LEN" and "\<forall>a \<in> set acts. action_ok a"
    and "d = threaded_run e copy sch xs jl acts (daemon_ready srv0 tr0)"
    and "udp_receive e 500 (d_srv d) (d_trace d) = (srv, Some (peer, line, len), tr1)"
    and "rpc_parse jl line = ((0, req), jops)"
    and "name_fits (action_of jl (req_method req) (req_params req))"
    and "name_plain (action_of jl (req_method req) (req_params req))"
  shows "\<exists>rep h tr2. threaded_act e copy sch xs jl Turn d = \<lparr>d_srv = srv, d_handler = h,
           d_trace = tr2 @ [Net (Sendto (us_fd srv0) peer (reply_text (req_id req) rep)), Json Root_Put]\<rparr> \<and>
         perform e (threaded_ops e copy sch xs) (action_of jl (req_method req) (req_params req)) (d_handler d)
           (tr1 @ map Json jops) = (rep, h, tr2) \<and>
         reply_read (req_id req) rep \<and> caches_ok (hs_bsp h)"
proof -
  note inv = threaded_run_inv [OF assms(1-4) daemon_ready_inv [OF assms(5)] assms(6), of sch tr0, folded assms(7)]
  let ?ops = "threaded_ops e copy sch xs" and ?a = "action_of jl (req_method req) (req_params req)"
  obtain rep h tr2 where P: "perform e ?ops ?a (d_handler d) (tr1 @ map Json jops) = (rep, h, tr2)"
    by (cases "perform e ?ops ?a (d_handler d) (tr1 @ map Json jops)") auto
  have i: "threaded_inv e copy xs (hs_bsp (d_handler d))" "g_srv (d_handler d) = Some (us_fd srv0)"
    using inv assms(2-4) by (simp_all add: daemon_inv_def server_inv_def threaded_inv_def daemon_ready_def)
  from threaded_answers [OF assms(1) i assms(9) P assms(10,11), of peer len] P assms(8) show ?thesis
    by (simp add: udp_server_poll_def threaded_inv_def)
qed

section \<open>Schedules\<close>

text \<open>
  C13. The atomic model is the serial case of the threads: when the callbacks for any samples run to
  their end before a reading starts, in whatever order \<^verbatim>\<open>memcpy\<close> stores the members, the two threads end
  with the memory, the trace and the reading of the atomic callbacks followed by the atomic operation.
\<close>

theorem serial_schedule_atomic:
  assumes "copies copy" and "on_samples e xs s tr = Some (s1, tr1)"
  shows "(\<exists>t tr2. real_get_telemetry e s1 tr1 = (Inr t, s1, tr2) \<and>
            sched_run e (replicate (10 * length xs) Sdk_Thread @ replicate 41 Main_Thread)
              \<lparr>th_main = telemetry_prog e, th_sdk = sdk_prog e copy xs, th_mem = s, th_trace = tr\<rparr> =
            \<lparr>th_main = Ret t, th_sdk = Ret (), th_mem = s1, th_trace = tr2\<rparr>) \<and>
         (\<exists>b tr2. real_get_battery_info e s1 tr1 = (Inr b, s1, tr2) \<and>
            sched_run e (replicate (10 * length xs) Sdk_Thread @ replicate 20 Main_Thread)
              \<lparr>th_main = battery_prog, th_sdk = sdk_prog e copy xs, th_mem = s, th_trace = tr\<rparr> =
            \<lparr>th_main = Ret b, th_sdk = Ret (), th_mem = s1, th_trace = tr2\<rparr>) \<and>
         (\<exists>g. real_get_gimbal_angle s1 tr1 = (Inr g, s1, tr1) \<and>
            sched_run e (replicate (10 * length xs) Sdk_Thread @ replicate 3 Main_Thread)
              \<lparr>th_main = gimbal_prog, th_sdk = sdk_prog e copy xs, th_mem = s, th_trace = tr\<rparr> =
            \<lparr>th_main = Ret g, th_sdk = Ret (), th_mem = s1, th_trace = tr1\<rparr>)"
proof (intro conjI)
  obtain r s2 tr2 where g: "real_get_telemetry e s1 tr1 = (r, s2, tr2)" by (metis prod_cases3)
  then obtain t where "r = Inr t" "s2 = s1" using real_get_telemetry_frame by blast
  then show "\<exists>t tr2. real_get_telemetry e s1 tr1 = (Inr t, s1, tr2) \<and>
      sched_run e (replicate (10 * length xs) Sdk_Thread @ replicate 41 Main_Thread)
        \<lparr>th_main = telemetry_prog e, th_sdk = sdk_prog e copy xs, th_mem = s, th_trace = tr\<rparr> =
      \<lparr>th_main = Ret t, th_sdk = Ret (), th_mem = s1, th_trace = tr2\<rparr>"
    using g tele.serial [OF assms] by blast
next
  obtain r s2 tr2 where g: "real_get_battery_info e s1 tr1 = (r, s2, tr2)" by (metis prod_cases3)
  then obtain t where "r = Inr t" "s2 = s1" using real_get_battery_info_frame by blast
  then show "\<exists>b tr2. real_get_battery_info e s1 tr1 = (Inr b, s1, tr2) \<and>
      sched_run e (replicate (10 * length xs) Sdk_Thread @ replicate 20 Main_Thread)
        \<lparr>th_main = battery_prog, th_sdk = sdk_prog e copy xs, th_mem = s, th_trace = tr\<rparr> =
      \<lparr>th_main = Ret b, th_sdk = Ret (), th_mem = s1, th_trace = tr2\<rparr>"
    using g batt.serial [OF assms] by blast
next
  show "\<exists>g. real_get_gimbal_angle s1 tr1 = (Inr g, s1, tr1) \<and>
      sched_run e (replicate (10 * length xs) Sdk_Thread @ replicate 3 Main_Thread)
        \<lparr>th_main = gimbal_prog, th_sdk = sdk_prog e copy xs, th_mem = s, th_trace = tr\<rparr> =
      \<lparr>th_main = Ret g, th_sdk = Ret (), th_mem = s1, th_trace = tr1\<rparr>"
    using gimb.serial [OF assms] by (simp add: real_get_gimbal_angle_def)
qed

text \<open>
  C14. Whatever another thread does to the caches during a telemetry reading, each of its fourteen fields
  comes from values the caches held during the reading: position, velocity, GPS and flight fields report a
  value their cache held at some moment, the heading mixes members of quaternions held during it, the
  percentage is that of the whole battery, of one pack, or the mean of the two packs, and the voltage that
  of the whole battery or of a pack, or 0.
\<close>

theorem telemetry_fields_held:
  assumes "c = \<lparr>th_main = telemetry_prog e, th_sdk = q, th_mem = s, th_trace = tr\<rparr>"
    and "th_main (sched_run e sch c) = Ret t"
  shows "telemetry_from e (set (memories e sch c)) t"
  by (rule sat_result [OF _ _ _ assms(2), of "\<lambda>_. True" "\<lambda>s. s \<in> set (memories e sch c)"])
    (use assms(1) sat_telemetry_from in \<open>simp_all add: clock_shows_def\<close>)

section \<open>Races\<close>

lemma sat_alone_run:
  assumes "sat (\<lambda>_. True) (\<lambda>m. m = th_mem c) Q (th_main c)" and "reads_only (th_main c)" and "th_sdk c = Ret ()"
    and "th_main (sched_run e sch c) = Ret x"
  shows "Q x"
proof (rule sat_result [OF assms(1) memories_keep _ assms(4)])
  show "both_keep e (\<lambda>_. True) (\<lambda>m. m = th_mem c) c"
    using reads_only_keeps [OF assms(2)] assms(3) by (simp add: both_keep_def clock_shows_def)
qed (simp add: clock_shows_def)

text \<open>
  C15. A telemetry reading can be torn: for every state of the caches and every position sample that
  arrives there is a schedule of the two threads under which the reply has the latitude of the old sample
  and the longitude of the new one, a position the drone never reported.
\<close>

theorem torn_position:
  assumes "copies copy" and "env_sizeof e TOPIC_POSITION_FUSED \<le> len"
  shows "\<exists>sch t. th_main (sched_run e sch
       \<lparr>th_main = telemetry_prog e, th_sdk = sdk_prog e copy [(Pos_Sample d, len)], th_mem = s, th_trace = tr\<rparr>) = Ret t \<and>
     t_lat t = rad_to_deg (p_latitude (g_pos_fused s)) \<and> t_lon t = rad_to_deg (p_longitude d)"
proof -
  let ?c0 = "\<lparr>th_main = telemetry_prog e, th_sdk = sdk_prog e copy [(Pos_Sample d, len)], th_mem = s, th_trace = tr\<rparr>"
  let ?M = "[Main_Thread, Main_Thread, Main_Thread]" and ?S = "replicate 10 Sdk_Thread" and ?R = "replicate 41 Main_Thread"
  define c3 where "c3 = sched_run e ?M ?c0"
  have c3: "th_sdk c3 = sdk_prog e copy [(Pos_Sample d, len)]" "th_mem c3 = s" "th_trace c3 = tr"
    by (simp_all add: c3_def telemetry_prog_def thread_simps)
  obtain s1 tr1 where o: "on_samples e [(Pos_Sample d, len)] s tr = Some (s1, tr1)"
    using on_samples_total by blast
  then have s1: "g_pos_fused s1 = d"
    using pos_cache.caches_latest [OF o] assms(2) by (simp add: accepted_def map_filter_simps)
  define c4 where "c4 = sched_run e ?S c3"
  have c4: "c4 = c3\<lparr>th_sdk := Ret (), th_mem := s1, th_trace := tr1\<rparr>"
    unfolding c4_def
    using sdk_alone [of c3 10 e "()" s1 tr1] sdk_ends [OF assms(1), of e "[(Pos_Sample d, len)]"] sdk_alone_samples [OF assms(1) o] c3
    by simp
  have r: "reads_only (th_main c4)"
    using readings_read(1) [of e] by (simp add: c4 c3_def telemetry_prog_def thread_simps)
  have q: "sat (\<lambda>_. True) (\<lambda>m. m = th_mem c4)
      (\<lambda>t. t_lat t = rad_to_deg (p_latitude (g_pos_fused s)) \<and> t_lon t = rad_to_deg (p_longitude d)) (th_main c4)"
    by (simp add: c4 c3_def telemetry_prog_def heading_prog_def Let_def thread_simps sat_fallback s1)
  have "sched_run e (?M @ ?S @ ?R) ?c0 = sched_run e ?R c4" by (simp only: sched_run_simps c3_def c4_def)
  moreover obtain t where t: "th_main (sched_run e (?M @ ?S @ ?R) ?c0) = Ret t"
    using tele.completes [of "?M @ ?S @ ?R" e copy "[(Pos_Sample d, len)]" s tr] by auto
  ultimately show ?thesis using sat_alone_run [OF q r, of e ?R t] c4
    by (intro exI [of _ "?M @ ?S @ ?R"] exI [of _ t]) simp
qed

lemma clock_from:
  assumes "monotonic_clock e" and "clock_bounded e"
  shows "clock_shows e (\<lambda>t. ts_ms (env_clock e tr) \<le> uint t \<and> uint t < 2 ^ 63) tr"
  unfolding clock_shows_def
proof
  fix evs
  let ?c = "env_clock e (tr @ evs @ [Clock_Monotonic])"
  have v: "uint (fst (monotonic_ms e (tr @ evs))) = ts_ms ?c"
    using monotonic_ms_value [OF assms, of "tr @ evs"] by (metis append_assoc prod.collapse)
  have "0 \<le> tv_sec ?c" "tv_sec ?c < 2 ^ 53" "tv_nsec ?c < 1000000000"
    using assms by (auto simp: monotonic_clock_def clock_bounded_def valid_ts_def)
  then have "ts_ms ?c < 2 ^ 63" by (simp add: ts_ms_split)
  then show "ts_ms (env_clock e tr) \<le> uint (fst (monotonic_ms e (tr @ evs))) \<and> uint (fst (monotonic_ms e (tr @ evs))) < 2 ^ 63"
    using ts_ms_mono [OF assms(1), of tr "evs @ [Clock_Monotonic]"] v by simp
qed

lemma member_keeps_stats: "f \<in> set (copy_members x) \<Longrightarrow> g_battery_stats (f s) = g_battery_stats s"
  by (cases x) auto

lemma sdk_keeps_stamp:
  assumes "copies copy" and "\<And>t. C t \<Longrightarrow> uint t < 2 ^ 63"
  shows "keeps C (\<lambda>s. uint (last_ms g_battery_stats s) < 2 ^ 63) (sdk_prog e copy xs)"
proof (induction xs)
  case (Cons y xs)
  obtain x len where y: "y = (x, len)" by (cases y)
  have "keeps C (\<lambda>s. uint (last_ms g_battery_stats s) < 2 ^ 63) (mark_sample x (sdk_prog e copy xs))"
    using Cons.IH assms(2) by (cases x) (simp_all add: mark_prog_def thread_simps)
  then show ?case using Cons.IH y set_copy [OF assms(1)] member_keeps_stats by (auto simp: thread_simps)
qed simp

text \<open>Unsigned subtraction that would wrap gives an age beyond the limit.\<close>

lemma wrapped_age:
  fixes now stamp :: u64
  assumes "uint now < 2 ^ 63" and "uint stamp < 2 ^ 63" and "now - stamp \<le> 5000"
  shows "uint now - uint stamp \<le> 5000"
proof (cases "uint stamp \<le> uint now")
  case True
  then have "uint (now - stamp) = uint now - uint stamp" by (simp add: uint_sub_lem [THEN iffD1])
  then show ?thesis using assms(3) by (simp add: word_le_def)
qed simp

text \<open>
  C16. A topic is never taken for fresh by mistake: when the check of the whole-battery topic, under any
  schedule of the SDK's stores in between its three reads of the stamp, says fresh, then the topic had been
  heard at some moment of the check, and a stamp held during it was at most 5000 ms old when it began.
\<close>

theorem fresh_never_wrong:
  assumes "monotonic_clock e" and "clock_bounded e" and "copies copy" and "uint (last_ms g_battery_stats s) < 2 ^ 63"
    and "c = \<lparr>th_main = fresh_prog g_battery_stats 5000 Ret, th_sdk = sdk_prog e copy xs, th_mem = s, th_trace = tr\<rparr>"
    and "th_main (sched_run e sch c) = Ret True"
  shows "(\<exists>m \<in> set (memories e sch c). last_ms g_battery_stats m \<noteq> 0) \<and>
         (\<exists>m \<in> set (memories e sch c). ts_ms (env_clock e tr) - uint (last_ms g_battery_stats m) \<le> 5000)"
proof -
  let ?C = "\<lambda>t. ts_ms (env_clock e tr) \<le> uint t \<and> uint t < 2 ^ 63" and ?S = "set (memories e sch c)"
  let ?Q = "\<lambda>b. b \<longrightarrow> (\<exists>m \<in> ?S. last_ms g_battery_stats m \<noteq> 0) \<and>
      (\<exists>m \<in> ?S. ts_ms (env_clock e tr) - uint (last_ms g_battery_stats m) \<le> 5000)"
  have k: "both_keep e ?C (\<lambda>s. uint (last_ms g_battery_stats s) < 2 ^ 63) c"
    using sdk_keeps_stamp [OF assms(3), of ?C e xs] clock_from [OF assms(1,2), of tr] assms(4,5)
    by (simp add: both_keep_def fresh_prog_def thread_simps)
  have key: "\<exists>m \<in> ?S. ts_ms (env_clock e tr) - uint (last_ms g_battery_stats m) \<le> 5000"
    if "m \<in> ?S" "uint (last_ms g_battery_stats m) < 2 ^ 63" "?C t" "t - last_ms g_battery_stats m \<le> 5000" for m t
    using wrapped_age [of t "last_ms g_battery_stats m"] that by (intro bexI [of _ m]) simp_all
  have "sat ?C (\<lambda>m. m \<in> ?S \<and> uint (last_ms g_battery_stats m) < 2 ^ 63) ?Q (fresh_prog g_battery_stats 5000 Ret)"
    using key by (auto simp: fresh_prog_def thread_simps)
  from sat_result [OF this [folded arg_cong [OF assms(5), of th_main, simplified]] _ _ assms(6)] memories_keep [OF k, of sch]
  show ?thesis using clock_from [OF assms(1,2), of tr] assms(5) by simp
qed

text \<open>
  C17. A fresh topic can be taken for stale: when a whole-battery sample is stored between the clock
  reading and the comparison of the check, and the clock has moved on by a millisecond, the check says
  stale although the topic had a sample before and has just received another one.
\<close>

theorem fresh_sample_missed:
  assumes "copies copy" and "env_sizeof e TOPIC_BATTERY_INFO \<le> len" and "last_ms g_battery_stats s \<noteq> 0"
    and "fst (monotonic_ms e tr) < fst (monotonic_ms e (tr @ [Clock_Monotonic]))"
  shows "\<exists>sch. let c = sched_run e sch \<lparr>th_main = fresh_prog g_battery_stats 5000 Ret,
            th_sdk = sdk_prog e copy [(Battery_Sample d, len)], th_mem = s, th_trace = tr\<rparr>
          in th_main c = Ret False \<and> g_battery (th_mem c) = d \<and>
             last_ms g_battery_stats (th_mem c) = fst (monotonic_ms e (tr @ [Clock_Monotonic]))"
proof -
  let ?xs = "[(Battery_Sample d, len)]" and ?tr = "tr @ [Clock_Monotonic]"
  let ?c0 = "\<lparr>th_main = fresh_prog g_battery_stats 5000 Ret, th_sdk = sdk_prog e copy ?xs, th_mem = s, th_trace = tr\<rparr>"
  let ?M = "[Main_Thread, Main_Thread]" and ?S = "replicate 10 Sdk_Thread"
  define c2 where "c2 = sched_run e ?M ?c0"
  have now: "monotonic_ms e tr = (fst (monotonic_ms e tr), ?tr)" by (simp add: monotonic_ms_def clock_gettime_def)
  have c2: "c2 = \<lparr>th_main = load (last_ms g_battery_stats) (\<lambda>last1.
             if last1 \<le> fst (monotonic_ms e tr)
             then load (last_ms g_battery_stats) (\<lambda>last2. Ret (fst (monotonic_ms e tr) - last2 \<le> 5000)) else Ret False),
           th_sdk = sdk_prog e copy ?xs, th_mem = s, th_trace = ?tr\<rparr>"
    unfolding c2_def fresh_prog_def
    by (simp add: thread_simps assms(3) del: sdk_prog.simps) (subst now, simp)
  obtain s1 tr1 where o: "on_sample e (Battery_Sample d) len s ?tr = Some (s1, tr1)" "on_samples e ?xs s ?tr = Some (s1, tr1)"
    using on_samples_total [of e ?xs s ?tr] by (auto split: option.splits)
  have s1: "g_battery s1 = d" "last_ms g_battery_stats s1 = fst (monotonic_ms e ?tr)"
    using battery_cache.stored [OF _ assms(2) o(1)] by (auto simp: mark_topic_rx_def Let_def split: prod.splits if_splits)
  have c3: "sched_run e (?M @ ?S) ?c0 = c2\<lparr>th_sdk := Ret (), th_mem := s1, th_trace := tr1\<rparr>"
  proof -
    have "sched_run e (?M @ ?S) ?c0 = sched_run e ?S c2" unfolding c2_def by (rule sched_run_simps(3))
    then show ?thesis
      using sdk_alone [of c2 10 e "()" s1 tr1] sdk_ends [OF assms(1), of e ?xs] sdk_alone_samples [OF assms(1) o(2)]
      by (simp add: c2 del: sdk_prog.simps sched_run_simps)
  qed
  have "sched_run e (?M @ ?S @ [Main_Thread]) ?c0 = c2\<lparr>th_main := Ret False, th_sdk := Ret (), th_mem := s1, th_trace := tr1\<rparr>"
  proof -
    have "sched_run e (?M @ ?S @ [Main_Thread]) ?c0 = sched_run e [Main_Thread] (sched_run e (?M @ ?S) ?c0)"
      by (simp only: append_assoc [symmetric] sched_run_simps(3))
    also have "\<dots> = sched_run e [Main_Thread] (c2\<lparr>th_sdk := Ret (), th_mem := s1, th_trace := tr1\<rparr>)" by (simp only: c3)
    finally show ?thesis using assms(4) [folded not_le] by (simp add: c2 s1 thread_simps)
  qed
  then show ?thesis using s1 by (intro exI [of _ "?M @ ?S @ [Main_Thread]"]) (simp add: Let_def)
qed

section \<open>The sample daemon with two threads\<close>

lemma copies_members: "copies copy_members"
  by (simp add: copies_def)

text \<open>A position arrives at every call, and the two threads take turns.\<close>

definition every_call :: "trace \<Rightarrow> (sample \<times> nat) list" where
  "every_call tr = [(Pos_Sample pos0, 8)]"

definition alternate :: "trace \<Rightarrow> turn list" where
  "alternate tr = concat (replicate 8 [Main_Thread, Sdk_Thread])"

lemma every_call_ok: "arrivals_ok every_call"
  using pos0_ok by (simp add: arrivals_ok_def every_call_def)

theorem threaded_daemon_answers_witness:
  "\<exists>srv h tr rep. threaded_act env0 copy_members alternate every_call (ping_lib ''drone.get_telemetry'') Turn
       (threaded_run env0 copy_members alternate every_call (ping_lib ''drone.get_telemetry'') one_delivery
         (daemon_ready fresh_server [])) =
       \<lparr>d_srv = srv, d_handler = h, d_trace = tr @ [Net (Sendto 3 peer0 (reply_text 7 rep)), Json Root_Put]\<rparr> \<and>
     reply_read 7 rep \<and> caches_ok (hs_bsp h)"
proof -
  let ?jl = "ping_lib ''drone.get_telemetry''"
  let ?d = "threaded_run env0 copy_members alternate every_call ?jl one_delivery (daemon_ready fresh_server [])"
  have d: "?d = daemon_run env0 ?jl one_delivery (daemon_ready fresh_server [])" by (simp add: threaded_run_def)
  obtain srv line len tr1 req jops where r: "udp_receive env0 500 (d_srv ?d) (d_trace ?d) = (srv, Some (peer0, line, len), tr1)"
      "rpc_parse ?jl line = ((0, req), jops)" "req_id req = 7" "req_method req = ''drone.get_telemetry''"
    unfolding d by (rule sample_turn [of "''drone.get_telemetry''"]) simp_all
  have ok: "json_lib_ok ?jl" by (simp add: ping_lib_def table_lib_ok)
  have a: "name_fits (action_of ?jl (req_method req) (req_params req))" "name_plain (action_of ?jl (req_method req) (req_params req))"
    by (simp_all add: r(4) action_of_def method_table_def name_fits_def name_plain_def)
  from threaded_daemon_answers [OF ok env0_daemon copies_members every_call_ok fresh_server_sel(1) pos0_ok refl r(1,2) a]
  show ?thesis unfolding r(3) fresh_server_sel(2) by blast
qed

theorem serial_schedule_atomic_witness:
  "\<exists>t tr2. sched_run env0 (replicate 10 Sdk_Thread @ replicate 41 Main_Thread)
     \<lparr>th_main = telemetry_prog env0, th_sdk = sdk_prog env0 copy_members [(Pos_Sample pos0, 8)], th_mem = real_initial,
      th_trace = []\<rparr> = \<lparr>th_main = Ret t, th_sdk = Ret (), th_mem = fst (cb_pos env0 pos0 8 real_initial []), th_trace = tr2\<rparr>"
proof -
  let ?r = "cb_pos env0 pos0 8 real_initial []"
  have o: "on_samples env0 [(Pos_Sample pos0, 8)] real_initial [] = Some (fst ?r, snd ?r)"
    using registered_cb_topic [of "Pos_Sample pos0"] by (auto simp: on_sample_def run_cb_def split: prod.split)
  from serial_schedule_atomic [OF copies_members o] show ?thesis by auto
qed

theorem telemetry_fields_held_witness:
  "\<exists>t. telemetry_from env0 (set (memories env0 (replicate 41 Main_Thread)
     \<lparr>th_main = telemetry_prog env0, th_sdk = sdk_prog env0 copy_members (every_call []), th_mem = real_initial,
      th_trace = []\<rparr>)) t"
proof -
  obtain t where t: "th_main (sched_run env0 (replicate 41 Main_Thread)
      \<lparr>th_main = telemetry_prog env0, th_sdk = sdk_prog env0 copy_members (every_call []), th_mem = real_initial,
       th_trace = []\<rparr>) = Ret t"
    using tele.completes [of "replicate 41 Main_Thread" env0 copy_members "every_call []" real_initial "[]"] by auto
  show ?thesis using telemetry_fields_held [OF refl t] by blast
qed

theorem torn_position_witness:
  "\<exists>sch t. th_main (sched_run env0 sch
       \<lparr>th_main = telemetry_prog env0, th_sdk = sdk_prog env0 copy_members [(Pos_Sample pos0, 8)], th_mem = real_initial,
        th_trace = []\<rparr>) = Ret t \<and>
     t_lat t = rad_to_deg fzero \<and> t_lon t = rad_to_deg (Fin False (1 / 2))"
proof -
  have "p_latitude (g_pos_fused real_initial) = fzero" "p_longitude pos0 = Fin False (1 / 2)"
    by (simp_all add: real_initial_def pos0_def)
  then show ?thesis using torn_position [OF copies_members, of env0 8 pos0 real_initial "[]"] by simp
qed

definition bat0 :: battery_sample where
  "bat0 = \<lparr>w_voltage = 24000, w_current = 500, w_percentage = 60\<rparr>"

abbreviation heard0 :: real_state where
  "heard0 \<equiv> real_initial\<lparr>g_battery_stats := stats0\<lparr>ts_last_update_ms := 1\<rparr>\<rparr>"

theorem fresh_never_wrong_witness:
  "last_ms g_battery_stats heard0 \<noteq> 0 \<and> ts_ms (env_clock env0 []) - uint (last_ms g_battery_stats heard0) \<le> 5000"
proof -
  let ?c = "\<lparr>th_main = fresh_prog g_battery_stats 5000 Ret, th_sdk = sdk_prog env0 copy_members [], th_mem = heard0, th_trace = []\<rparr>"
  let ?sch = "[Main_Thread, Main_Thread, Main_Thread, Main_Thread]"
  have now: "monotonic_ms env0 [] = (1000, [Clock_Monotonic])"
    by (simp add: monotonic_ms_def clock_gettime_def clock0_def)
  have t: "th_main (sched_run env0 ?sch ?c) = Ret True"
    by (simp add: fresh_prog_def thread_simps now)
  have m: "set (memories env0 ?sch ?c) = {heard0}"
    by (simp add: fresh_prog_def thread_simps now)
  have "uint (last_ms g_battery_stats heard0) < 2 ^ 63" by simp
  from fresh_never_wrong [OF env0_monotonic env0_clock_bounded copies_members this refl t] show ?thesis unfolding m by simp
qed

theorem fresh_sample_missed_witness:
  "\<exists>sch. th_main (sched_run env0 sch \<lparr>th_main = fresh_prog g_battery_stats 5000 Ret,
     th_sdk = sdk_prog env0 copy_members [(Battery_Sample bat0, 8)], th_mem = heard0, th_trace = []\<rparr>) = Ret False"
proof -
  have "fst (monotonic_ms env0 []) < fst (monotonic_ms env0 ([] @ [Clock_Monotonic]))"
    by (simp add: monotonic_ms_def clock_gettime_def clock0_def)
  from fresh_sample_missed [OF copies_members _ _ this, of 8 heard0 bat0] show ?thesis by (auto simp: Let_def)
qed

end
