(* ===== verification/Waypoint_Log.thy ===== *)
theory Waypoint_Log
  imports Log_Facility
begin

text \<open>
  The two callbacks the hardware build of \<^verbatim>\<open>bsp/drone_ctrl.c\<close> registers with the waypoint manager: they
  log the state they are given and report success. The fields of the SDK's structures are their values
  as integers; the time text and nanoseconds are those of the log call.
\<close>

record WaypointV3MissionState =
  ms_state :: int
  ms_wayLineId :: int
  ms_currentWaypointIndex :: int

record WaypointV3ActionState =
  as_state :: int
  as_currentWaypointIndex :: int
  as_wayLineId :: int
  as_actionGroupId :: int
  as_actionId :: int

definition waypoint_mission_state_cb ::
    "WaypointV3MissionState \<Rightarrow> string \<Rightarrow> int \<Rightarrow> log_state \<Rightarrow> bool \<times> log_state" where
  "waypoint_mission_state_cb m timebuf nsec st =
     (True, log_info ''bsp.ctrl''
        (''waypoint mission state='' @ fmt_d (ms_state m) @ '' wayline='' @ fmt_u (ms_wayLineId m) @
         '' wp='' @ fmt_u (ms_currentWaypointIndex m)) timebuf nsec st)"

definition waypoint_action_state_cb ::
    "WaypointV3ActionState \<Rightarrow> string \<Rightarrow> int \<Rightarrow> log_state \<Rightarrow> bool \<times> log_state" where
  "waypoint_action_state_cb a timebuf nsec st =
     (True, log_info ''bsp.ctrl''
        (''waypoint action state='' @ fmt_d (as_state a) @ '' wayline='' @ fmt_u (as_wayLineId a) @
         '' wp='' @ fmt_u (as_currentWaypointIndex a) @ '' group='' @ fmt_u (as_actionGroupId a) @
         '' action='' @ fmt_u (as_actionId a)) timebuf nsec st)"

lemma log_info_stdout:
  "\<exists>line. log_info tag msg tb ns st =
     (if LOG_INFO < g_level st then st else st\<lparr>stdout_lines := stdout_lines st @ [line]\<rparr>)"
proof -
  have "\<not> LOG_WARN \<le> LOG_INFO" by (simp add: less_eq_LogLevel_def)
  then show ?thesis by (auto simp: log_info_def log_write_def)
qed

text \<open>
  Both succeed whatever they are told; they write one line to standard output, and none at a level above
  information.
\<close>

lemma waypoint_callbacks_log:
  "fst (waypoint_mission_state_cb m tb ns st) \<and> fst (waypoint_action_state_cb a tb ns st)"
  "\<exists>line. snd (waypoint_mission_state_cb m tb ns st) =
     (if LOG_INFO < g_level st then st else st\<lparr>stdout_lines := stdout_lines st @ [line]\<rparr>)"
  "\<exists>line. snd (waypoint_action_state_cb a tb ns st) =
     (if LOG_INFO < g_level st then st else st\<lparr>stdout_lines := stdout_lines st @ [line]\<rparr>)"
  by (simp_all add: waypoint_mission_state_cb_def waypoint_action_state_cb_def log_info_stdout)

end
