(* ===== verification/Tcp_Server.thy ===== *)
theory Tcp_Server
  imports Udp_Server
begin

text \<open>
  \<^verbatim>\<open>core/server/tcp_server.c\<close>: the line-oriented server kept beside the UDP one. The table of eight
  clients is a list of records with their receive arrays; a pointer to a client is its index. The
  message callback may call back into the server, so it takes and returns the server; lengths it is
  subtracted from are 64-bit, as \<^verbatim>\<open>size_t\<close> is.
\<close>

section \<open>State\<close>

record Client =
  cl_fd :: int
  cl_buf :: string
  cl_buf_len :: nat

record TcpServer =
  ts_listen_fd :: int
  ts_epoll_fd :: int
  ts_clients :: "Client list"
  ts_client_count :: int

type_synonym 's tcp_cb =
  "int \<Rightarrow> string \<Rightarrow> nat \<Rightarrow> TcpServer \<Rightarrow> 's \<Rightarrow> trace \<Rightarrow> int \<times> TcpServer \<times> 's \<times> trace"

definition client0 :: Client where
  "client0 = \<lparr>cl_fd = -1, cl_buf = replicate DRONE_RECV_BUF_LEN NUL, cl_buf_len = 0\<rparr>"

definition set_client :: "TcpServer \<Rightarrow> nat \<Rightarrow> Client \<Rightarrow> TcpServer" where
  "set_client srv i c = srv\<lparr>ts_clients := (ts_clients srv)[i := c]\<rparr>"

section \<open>Helpers\<close>

definition O_NONBLOCK :: int where "O_NONBLOCK = 2048"

definition set_nonblock :: "env \<Rightarrow> int \<Rightarrow> trace \<Rightarrow> int \<times> trace" where
  "set_nonblock e fd tr =
     (let (flags, tr) = libc e (Net (Fcntl_Getfl fd)) tr in
      if flags < 0 then (-1, tr)
      else libc e (Net (Fcntl_Setfl fd (Bit_Operations.or flags O_NONBLOCK))) tr)"

definition find_client :: "TcpServer \<Rightarrow> int \<Rightarrow> nat option" where
  "find_client srv fd = find (\<lambda>i. cl_fd (ts_clients srv ! i) = fd) [0..<DRONE_MAX_CLIENTS]"

definition alloc_client :: "TcpServer \<Rightarrow> int \<Rightarrow> nat option \<times> TcpServer" where
  "alloc_client srv fd =
     (case find (\<lambda>i. cl_fd (ts_clients srv ! i) < 0) [0..<DRONE_MAX_CLIENTS] of
        None \<Rightarrow> (None, srv)
      | Some i \<Rightarrow>
          (Some i,
           (set_client srv i ((ts_clients srv ! i)\<lparr>cl_fd := fd, cl_buf_len := 0\<rparr>))
             \<lparr>ts_client_count := ts_client_count srv + 1\<rparr>))"

definition free_client :: "TcpServer \<Rightarrow> nat \<Rightarrow> trace \<Rightarrow> TcpServer \<times> trace" where
  "free_client srv i tr =
     (let c = ts_clients srv ! i;
          tr = tr @ [Net (Epoll_Del (ts_epoll_fd srv) (cl_fd c)), Net (Close_Fd (cl_fd c))]
      in ((set_client srv i (c\<lparr>cl_fd := -1, cl_buf_len := 0\<rparr>))
            \<lparr>ts_client_count := ts_client_count srv - 1\<rparr>, tr))"

section \<open>Accept\<close>

definition accept_client :: "env \<Rightarrow> TcpServer \<Rightarrow> trace \<Rightarrow> TcpServer \<times> trace" where
  "accept_client e srv tr =
     (let (cfd, tr) = libc e (Net (Accept (ts_listen_fd srv))) tr in
      if cfd < 0 then (srv, tr) else
      if int DRONE_MAX_CLIENTS \<le> ts_client_count srv then (srv, tr @ [Net (Close_Fd cfd)]) else
      let (_, tr) = set_nonblock e cfd tr;
          (_, tr) = libc e (Net (Setsockopt_Nodelay cfd)) tr
      in
      case alloc_client srv cfd of
        (None, srv) \<Rightarrow> (srv, tr @ [Net (Close_Fd cfd)])
      | (Some i, srv) \<Rightarrow>
          let (r, tr) = libc e (Net (Epoll_Add (ts_epoll_fd srv) cfd)) tr in
          if r < 0 then free_client srv i tr else (srv, tr))"

section \<open>Receive\<close>

text \<open>A read of at most \<open>n\<close> bytes: data (empty at end of stream), nothing yet, or an error.\<close>

datatype read_result = Data string | Would_Block | Read_Error

definition tcp_read :: "env \<Rightarrow> int \<Rightarrow> nat \<Rightarrow> trace \<Rightarrow> read_result \<times> trace" where
  "tcp_read e fd n tr =
     (let (r, tr) = libc e (Net (Read fd n)) tr in
      if r < 0 then (if env_would_block e tr then Would_Block else Read_Error, tr)
      else (Data (take n (env_read_data e tr)), tr))"

text \<open>The reading loop: \<^term>\<open>True\<close> when it ends because no more data is ready.\<close>

function drain :: "env \<Rightarrow> Client \<Rightarrow> trace \<Rightarrow> bool \<times> Client \<times> trace" where
  "drain e c tr =
     (let space = DRONE_RECV_BUF_LEN - cl_buf_len c - 1 in
      if space = 0 then (False, c, tr) else
      case tcp_read e (cl_fd c) space tr of
        (Would_Block, tr) \<Rightarrow> (True, c, tr)
      | (Read_Error, tr) \<Rightarrow> (False, c, tr)
      | (Data d, tr) \<Rightarrow>
          if d = [] then (False, c, tr)
          else drain e (c\<lparr>cl_buf := take (cl_buf_len c) (cl_buf c) @ d @
                                    drop (cl_buf_len c + length d) (cl_buf c),
                          cl_buf_len := cl_buf_len c + length d\<rparr>) tr)"
  by pat_completeness auto
termination
proof (relation "measure (\<lambda>(e, c, tr). DRONE_RECV_BUF_LEN - cl_buf_len c)")
  fix e c tr space x d tr' and dd :: string
  assume "space = DRONE_RECV_BUF_LEN - cl_buf_len c - 1" and "space \<noteq> 0" and "dd \<noteq> []"
  then show "((e, c\<lparr>cl_buf := take (cl_buf_len c) (cl_buf c) @ dd @ drop (cl_buf_len c + length dd) (cl_buf c),
      cl_buf_len := cl_buf_len c + length dd\<rparr>, tr'), e, c, tr)
      \<in> measure (\<lambda>(e, c, tr). DRONE_RECV_BUF_LEN - cl_buf_len c)"
    by (simp flip: length_greater_0_conv)
qed simp

declare drain.simps [simp del]

text \<open>
  \<^verbatim>\<open>memchr(start, LF, n)\<close> inside the receive array: the index of the first match, none among the \<open>n\<close>
  bytes, or no match before the search leaves the array.
\<close>

datatype search = Found nat | Absent | Leaves_Array

definition memchr_lf :: "string \<Rightarrow> nat \<Rightarrow> nat \<Rightarrow> search" where
  "memchr_lf buf start n =
     (case find (\<lambda>k. buf ! k = LF) [start..<min (start + n) DRONE_RECV_BUF_LEN] of
        Some k \<Rightarrow> Found k
      | None \<Rightarrow> if DRONE_RECV_BUF_LEN < start + n then Leaves_Array else Absent)"

text \<open>The number of bytes from \<open>start\<close> to the end of the data, subtracted in 64 bits.\<close>

definition bytes_left :: "Client \<Rightarrow> nat \<Rightarrow> nat" where
  "bytes_left c start = unat (of_nat (cl_buf_len c) - of_nat start :: u64)"

lemma memchr_lf_bounds: "memchr_lf buf start n = Found k \<Longrightarrow> start \<le> k \<and> k < DRONE_RECV_BUF_LEN"
proof -
  assume "memchr_lf buf start n = Found k"
  then have "find (\<lambda>k. buf ! k = LF) [start..<min (start + n) DRONE_RECV_BUF_LEN] = Some k"
    by (auto simp: memchr_lf_def split: option.splits if_splits)
  then have "k \<in> set [start..<min (start + n) DRONE_RECV_BUF_LEN]" by (metis find_Some_iff nth_mem)
  then show ?thesis by simp
qed

text \<open>
  The loop over complete lines of the client \<open>i\<close>. It ends with \<^term>\<open>Some start\<close>, or with \<^term>\<open>None\<close>
  when the client was freed or the search left the array.
\<close>

function line_loop ::
    "'s tcp_cb \<Rightarrow> nat \<Rightarrow> nat \<Rightarrow> TcpServer \<Rightarrow> 's \<Rightarrow> trace \<Rightarrow> nat option \<times> TcpServer \<times> 's \<times> trace" where
  "line_loop cb i start srv s tr =
     (let c = ts_clients srv ! i in
      case memchr_lf (cl_buf c) start (bytes_left c start) of
        Absent \<Rightarrow> (Some start, srv, s, tr)
      | Leaves_Array \<Rightarrow> (None, srv, s, tr @ [UB (Over_Read (start + bytes_left c start) DRONE_RECV_BUF_LEN)])
      | Found nl \<Rightarrow>
          let buf = (cl_buf c)[nl := NUL];
              line_len = nl - start;
              (buf, line_len) =
                (if 0 < line_len \<and> buf ! (start + line_len - 1) = CR
                 then (buf[start + line_len - 1 := NUL], line_len - 1) else (buf, line_len));
              srv = set_client srv i (c\<lparr>cl_buf := buf\<rparr>);
              (close_after, srv, s, tr) =
                (if 0 < line_len then cb (cl_fd c) (drop start buf) line_len srv s tr
                 else (0, srv, s, tr))
          in
          if close_after \<noteq> 0
          then (case free_client srv i tr of (srv, tr) \<Rightarrow> (None, srv, s, tr))
          else line_loop cb i (nl + 1) srv s tr)"
  by pat_completeness auto
termination
  by (relation "measure (\<lambda>(cb, i, start, srv, s, tr). DRONE_RECV_BUF_LEN - start)")
     (auto dest: memchr_lf_bounds)

declare line_loop.simps [simp del]

text \<open>Moving the partial line to the front of the array.\<close>

definition shift_rest :: "Client \<Rightarrow> nat \<Rightarrow> Client" where
  "shift_rest c start =
     (let remaining = bytes_left c start;
          buf = (if 0 < remaining \<and> start \<noteq> 0
                 then take remaining (drop start (cl_buf c)) @ drop remaining (cl_buf c) else cl_buf c)
      in c\<lparr>cl_buf := buf, cl_buf_len := remaining\<rparr>)"

definition recv_client :: "env \<Rightarrow> 's tcp_cb \<Rightarrow> nat \<Rightarrow> TcpServer \<Rightarrow> 's \<Rightarrow> trace \<Rightarrow> TcpServer \<times> 's \<times> trace" where
  "recv_client e cb i srv s tr =
     (case drain e (ts_clients srv ! i) tr of
        (False, c, tr) \<Rightarrow>
          (case free_client (set_client srv i c) i tr of (srv, tr) \<Rightarrow> (srv, s, tr))
      | (True, c, tr) \<Rightarrow>
          let c = c\<lparr>cl_buf := (cl_buf c)[cl_buf_len c := NUL]\<rparr> in
          (case line_loop cb i 0 (set_client srv i c) s tr of
             (None, srv, s, tr) \<Rightarrow> (srv, s, tr)
           | (Some start, srv, s, tr) \<Rightarrow>
               (set_client srv i (shift_rest (ts_clients srv ! i) start), s, tr)))"

section \<open>Public operations\<close>

definition tcp_server_create ::
    "env \<Rightarrow> (string \<Rightarrow> u32) \<Rightarrow> string option \<Rightarrow> u16 \<Rightarrow> trace \<Rightarrow> TcpServer option \<times> trace" where
  "tcp_server_create e addr_of bind_ip port tr =
     (let (p, tr) = libc e (Net Calloc_Server) tr in
      if p = 0 then (None, tr) else
      let (lfd, tr) = libc e (Net Socket_Stream) tr in
      if lfd < 0 then (None, tr @ [Net Free_Server]) else
      let (_, tr) = libc e (Net (Setsockopt_Reuse lfd)) tr;
          any = (case bind_ip of None \<Rightarrow> True | Some ip \<Rightarrow> ip = ''0.0.0.0'' \<or> ip = []);
          ip = (case bind_ip of None \<Rightarrow> [] | Some ip \<Rightarrow> ip);
          (pton, tr) = (if any then (1, tr) else libc e (Net (Inet_pton ip)) tr)
      in
      if pton \<noteq> 1 then (None, tr @ [Net (Close_Fd lfd), Net Free_Server]) else
      let (b, tr) = libc e (Net (Bind lfd (if any then INADDR_ANY else addr_of ip) port)) tr in
      if b < 0 then (None, tr @ [Net (Close_Fd lfd), Net Free_Server]) else
      let (l, tr) = libc e (Net (Listen lfd DRONE_RPC_BACKLOG)) tr in
      if l < 0 then (None, tr @ [Net (Close_Fd lfd), Net Free_Server]) else
      let (efd, tr) = libc e (Net Epoll_Create) tr in
      if efd < 0 then (None, tr @ [Net (Close_Fd lfd), Net Free_Server]) else
      let (_, tr) = libc e (Net (Epoll_Add efd lfd)) tr
      in (Some \<lparr>ts_listen_fd = lfd, ts_epoll_fd = efd,
                ts_clients = replicate DRONE_MAX_CLIENTS client0, ts_client_count = 0\<rparr>, tr))"

text \<open>One ready descriptor, and the loop over the events of one wait.\<close>

definition tcp_event :: "env \<Rightarrow> 's tcp_cb \<Rightarrow> int \<Rightarrow> TcpServer \<Rightarrow> 's \<Rightarrow> trace \<Rightarrow> TcpServer \<times> 's \<times> trace" where
  "tcp_event e cb fd srv s tr =
     (if fd = ts_listen_fd srv
      then (case accept_client e srv tr of (srv, tr) \<Rightarrow> (srv, s, tr))
      else (case find_client srv fd of
              None \<Rightarrow> (srv, s, tr)
            | Some i \<Rightarrow> recv_client e cb i srv s tr))"

fun tcp_events ::
    "env \<Rightarrow> 's tcp_cb \<Rightarrow> int list \<Rightarrow> TcpServer \<Rightarrow> 's \<Rightarrow> trace \<Rightarrow> TcpServer \<times> 's \<times> trace" where
  "tcp_events e cb [] srv s tr = (srv, s, tr)"
| "tcp_events e cb (fd # fds) srv s tr =
     (case tcp_event e cb fd srv s tr of (srv, s, tr) \<Rightarrow> tcp_events e cb fds srv s tr)"

definition tcp_server_poll ::
    "env \<Rightarrow> 's tcp_cb \<Rightarrow> int \<Rightarrow> TcpServer \<Rightarrow> 's \<Rightarrow> trace \<Rightarrow> TcpServer \<times> 's \<times> trace" where
  "tcp_server_poll e cb timeout_ms srv s tr =
     (let (n, tr) = libc e (Net (Epoll_Wait (ts_epoll_fd srv) (DRONE_MAX_CLIENTS + 1) timeout_ms)) tr
      in tcp_events e cb (take (nat n) (take (DRONE_MAX_CLIENTS + 1) (env_epoll e tr))) srv s tr)"

definition tcp_server_send :: "env \<Rightarrow> int \<Rightarrow> string \<Rightarrow> trace \<Rightarrow> int \<times> trace" where
  "tcp_server_send e client_fd msg tr =
     (let (r, tr) = libc e (Net (Write client_fd (cstr msg))) tr in
      if r < 0 then (-1, tr) else
      let (r, tr) = libc e (Net (Write client_fd [LF])) tr in
      if r < 0 then (-1, tr) else (0, tr))"

definition tcp_server_close_client :: "TcpServer \<Rightarrow> int \<Rightarrow> trace \<Rightarrow> TcpServer \<times> trace" where
  "tcp_server_close_client srv client_fd tr =
     (case find_client srv client_fd of None \<Rightarrow> (srv, tr) | Some i \<Rightarrow> free_client srv i tr)"

definition tcp_server_destroy :: "TcpServer option \<Rightarrow> trace \<Rightarrow> trace" where
  "tcp_server_destroy srv tr =
     (case srv of
        None \<Rightarrow> tr
      | Some s \<Rightarrow>
          tr @ map (\<lambda>c. Net (Close_Fd (cl_fd c))) (filter (\<lambda>c. 0 \<le> cl_fd c) (ts_clients s)) @
          [Net (Close_Fd (ts_epoll_fd s)), Net (Close_Fd (ts_listen_fd s)), Net Free_Server])"

end
