(* ===== verification/Tcp_Server_Props.thy ===== *)
theory Tcp_Server_Props
  imports Tcp_Server
begin

text \<open>
  The TCP server: the table of clients keeps its invariant, and the bytes of a connection are cut into
  the same lines whatever pieces they arrive in.
\<close>

section \<open>Definitions used in the statements\<close>

definition pending :: "Client \<Rightarrow> string" where
  "pending c = take (cl_buf_len c) (cl_buf c)"

definition client_ok :: "Client \<Rightarrow> bool" where
  "client_ok c \<longleftrightarrow> length (cl_buf c) = DRONE_RECV_BUF_LEN \<and> cl_buf_len c < DRONE_RECV_BUF_LEN \<and>
     (cl_fd c < 0 \<longrightarrow> cl_fd c = -1 \<and> cl_buf_len c = 0)"

definition tcp_inv :: "TcpServer \<Rightarrow> bool" where
  "tcp_inv srv \<longleftrightarrow>
     length (ts_clients srv) = DRONE_MAX_CLIENTS \<and> (\<forall>c \<in> set (ts_clients srv). client_ok c) \<and>
     ts_client_count srv = int (length (filter (\<lambda>c. 0 \<le> cl_fd c) (ts_clients srv)))"

text \<open>Cutting a stream at line feeds: the complete lines and the partial last one.\<close>

fun split_lf :: "string \<Rightarrow> string list \<times> string" where
  "split_lf [] = ([], [])"
| "split_lf (c # cs) =
     (case split_lf cs of (ls, r) \<Rightarrow>
        if c = LF then ([] # ls, r)
        else (case ls of [] \<Rightarrow> ([], c # r) | l # ls' \<Rightarrow> ((c # l) # ls', r)))"

definition strip_cr :: "string \<Rightarrow> string" where
  "strip_cr l = (if l \<noteq> [] \<and> last l = CR then butlast l else l)"

text \<open>
  A callback that only handles the message, and the handling of a list of lines: empty ones are
  skipped, a nonzero result stops.
\<close>

definition plain_cb :: "(int \<Rightarrow> string \<Rightarrow> 's \<Rightarrow> trace \<Rightarrow> int \<times> 's \<times> trace) \<Rightarrow> 's tcp_cb" where
  "plain_cb msg fd line len srv s tr =
     (case msg fd (take len line) s tr of (r, s, tr) \<Rightarrow> (r, srv, s, tr))"

fun deliver ::
    "(int \<Rightarrow> string \<Rightarrow> 's \<Rightarrow> trace \<Rightarrow> int \<times> 's \<times> trace) \<Rightarrow> int \<Rightarrow> string list \<Rightarrow> 's \<Rightarrow> trace \<Rightarrow>
      bool \<times> 's \<times> trace" where
  "deliver msg fd [] s tr = (True, s, tr)"
| "deliver msg fd (l # ls) s tr =
     (if l = [] then deliver msg fd ls s tr
      else case msg fd l s tr of (r, s, tr) \<Rightarrow>
             if r \<noteq> 0 then (False, s, tr) else deliver msg fd ls s tr)"

text \<open>The bytes read along a trace.\<close>

fun received :: "env \<Rightarrow> trace \<Rightarrow> trace \<Rightarrow> string" where
  "received e pre [] = []"
| "received e pre (ev # evs) =
     (case ev of
        Net (Read fd n) \<Rightarrow>
          if env_ret e (pre @ [ev]) < 0 then [] else take n (env_read_data e (pre @ [ev]))
      | _ \<Rightarrow> []) @ received e (pre @ [ev]) evs"

section \<open>The table of clients\<close>

lemma filter_update:
  assumes "i < length xs"
  shows "int (length (filter P (xs[i := x]))) =
         int (length (filter P xs)) - (if P (xs ! i) then 1 else 0) + (if P x then 1 else 0)"
  using assms
proof (induction xs arbitrary: i)
  case (Cons y ys)
  show ?case
  proof (cases i)
    case (Suc k)
    then show ?thesis using Cons.IH [of k] Cons.prems by (cases "P x"; cases "P (ys ! k)") auto
  qed simp
qed simp

lemma find_client_Some:
  "find_client srv fd = Some i \<Longrightarrow> i < DRONE_MAX_CLIENTS \<and> cl_fd (ts_clients srv ! i) = fd"
  by (auto simp: find_client_def find_Some_iff)

lemma set_client_inv:
  assumes "tcp_inv srv" and "i < DRONE_MAX_CLIENTS" and "client_ok c"
    and "0 \<le> cl_fd c \<longleftrightarrow> 0 \<le> cl_fd (ts_clients srv ! i)"
  shows "tcp_inv (set_client srv i c)"
  using assms filter_update [of i "ts_clients srv" "\<lambda>c. 0 \<le> cl_fd c" c]
  by (auto simp: tcp_inv_def set_client_def dest!: set_update_subset_insert [THEN subsetD])

lemma alloc_client_inv:
  assumes "tcp_inv srv" and "0 \<le> fd" and "alloc_client srv fd = (Some i, srv')"
  shows "tcp_inv srv' \<and> i < DRONE_MAX_CLIENTS \<and> cl_fd (ts_clients srv' ! i) = fd \<and>
         pending (ts_clients srv' ! i) = [] \<and> (\<forall>j. j \<noteq> i \<longrightarrow> ts_clients srv' ! j = ts_clients srv ! j)"
proof -
  let ?c = "(ts_clients srv ! i)\<lparr>cl_fd := fd, cl_buf_len := 0\<rparr>"
  have i: "i < DRONE_MAX_CLIENTS" "cl_fd (ts_clients srv ! i) < 0"
    and srv': "srv' = (set_client srv i ?c)\<lparr>ts_client_count := ts_client_count srv + 1\<rparr>"
    using assms(3) by (auto simp: alloc_client_def find_Some_iff split: option.splits)
  have li: "i < length (ts_clients srv)" using i assms(1) by (simp add: tcp_inv_def)
  then have "client_ok (ts_clients srv ! i)" using assms(1) by (simp add: tcp_inv_def)
  then have "client_ok ?c" using assms(2) by (simp add: client_ok_def)
  then have "tcp_inv srv'"
    using assms(1,2) i filter_update [OF li, of "\<lambda>c. 0 \<le> cl_fd c" ?c]
    by (auto simp: tcp_inv_def srv' set_client_def dest!: set_update_subset_insert [THEN subsetD])
  then show ?thesis using i li by (simp add: srv' set_client_def pending_def)
qed

text \<open>A table with a free slot always has room: the count and the slots agree.\<close>

lemma alloc_client_room:
  assumes "tcp_inv srv" and "ts_client_count srv < int DRONE_MAX_CLIENTS"
  shows "\<exists>i srv'. alloc_client srv fd = (Some i, srv')"
proof -
  have "\<not> (\<forall>c \<in> set (ts_clients srv). 0 \<le> cl_fd c)"
  proof
    assume "\<forall>c \<in> set (ts_clients srv). 0 \<le> cl_fd c"
    then have "filter (\<lambda>c. 0 \<le> cl_fd c) (ts_clients srv) = ts_clients srv" by simp
    then show False using assms by (simp add: tcp_inv_def)
  qed
  then obtain j where "j < DRONE_MAX_CLIENTS" "cl_fd (ts_clients srv ! j) < 0"
    using assms(1) by (fastforce simp: tcp_inv_def in_set_conv_nth)
  then have "find (\<lambda>i. cl_fd (ts_clients srv ! i) < 0) [0..<DRONE_MAX_CLIENTS] \<noteq> None"
    by (auto simp: find_None_iff)
  then show ?thesis by (auto simp: alloc_client_def)
qed

lemma free_client_inv:
  assumes "tcp_inv srv" and "i < DRONE_MAX_CLIENTS" and "0 \<le> cl_fd (ts_clients srv ! i)"
    and "free_client srv i tr = (srv', tr')"
  shows "tcp_inv srv' \<and> cl_fd (ts_clients srv' ! i) = -1 \<and>
         (\<forall>j. j \<noteq> i \<longrightarrow> ts_clients srv' ! j = ts_clients srv ! j) \<and>
         tr' = tr @ [Net (Epoll_Del (ts_epoll_fd srv) (cl_fd (ts_clients srv ! i))),
                     Net (Close_Fd (cl_fd (ts_clients srv ! i)))]"
proof -
  let ?c = "(ts_clients srv ! i)\<lparr>cl_fd := -1, cl_buf_len := 0\<rparr>"
  have li: "i < length (ts_clients srv)" using assms(1,2) by (simp add: tcp_inv_def)
  then have "client_ok (ts_clients srv ! i)" using assms(1) by (simp add: tcp_inv_def)
  then have "client_ok ?c" by (simp add: client_ok_def)
  then show ?thesis
    using assms li filter_update [OF li, of "\<lambda>c. 0 \<le> cl_fd c" ?c]
    by (auto simp: tcp_inv_def free_client_def Let_def set_client_def
        dest!: set_update_subset_insert [THEN subsetD])
qed

lemma accept_client_inv:
  assumes "tcp_inv srv" and "accept_client e srv tr = (srv', tr')"
  shows "tcp_inv srv'"
proof -
  let ?tr1 = "tr @ [Net (Accept (ts_listen_fd srv))]"
  let ?fd = "env_ret e ?tr1"
  show ?thesis
  proof (cases "?fd < 0 \<or> int DRONE_MAX_CLIENTS \<le> ts_client_count srv")
    case True
    then show ?thesis using assms by (auto simp: accept_client_def libc_def Let_def split: if_splits)
  next
    case False
    then obtain i srv1 where a: "alloc_client srv ?fd = (Some i, srv1)"
      using alloc_client_room [OF assms(1)] by fastforce
    note al = alloc_client_inv [OF assms(1) _ a]
    have fr: "tcp_inv srv2" if "free_client srv1 i trx = (srv2, tr2)" for srv2 tr2 trx
      using free_client_inv [OF _ _ _ that] al False by auto
    show ?thesis using assms(2) False a al fr
      by (auto simp: accept_client_def libc_def Let_def split: if_splits prod.splits)
  qed
qed

section \<open>Reading\<close>

lemma received_append: "received e pre (a @ b) = received e pre a @ received e (pre @ a) b"
  by (induction a arbitrary: pre) auto

lemma tcp_read_Data:
  "tcp_read e fd n tr = (Data d, tr') \<Longrightarrow>
     length d \<le> n \<and> tr' = tr @ [Net (Read fd n)] \<and> received e tr [Net (Read fd n)] = d"
  by (auto simp: tcp_read_def libc_def Let_def split: if_splits)

lemma tcp_read_error:
  "tcp_read e fd n tr = (r, tr') \<Longrightarrow> r = Would_Block \<or> r = Read_Error \<Longrightarrow>
     tr' = tr @ [Net (Read fd n)] \<and> received e tr [Net (Read fd n)] = []"
  by (auto simp: tcp_read_def libc_def Let_def split: if_splits)

lemma pending_grow:
  assumes "length buf = DRONE_RECV_BUF_LEN" and "n + length d < DRONE_RECV_BUF_LEN"
  shows "take (n + length d) (take n buf @ d @ drop (n + length d) buf) = take n buf @ d"
  using assms by (simp add: min_def)

text \<open>
  The reading loop appends exactly the bytes it read to the pending ones and stays inside the array.
\<close>

lemma drain_spec:
  assumes "client_ok c" and "drain e c tr = (b, c', tr')" and "0 \<le> cl_fd c"
  shows "client_ok c' \<and> cl_fd c' = cl_fd c \<and>
         (\<exists>evs. tr' = tr @ evs \<and> pending c' = pending c @ received e tr evs \<and>
            (\<forall>ev \<in> set evs. \<exists>n. ev = Net (Read (cl_fd c) n)))"
  using assms
proof (induction e c tr rule: drain.induct)
  case (1 e c tr)
  let ?space = "DRONE_RECV_BUF_LEN - cl_buf_len c - 1"
  obtain r tr1 where rd: "tcp_read e (cl_fd c) ?space tr = (r, tr1)" by fastforce
  consider "?space = 0" | "?space \<noteq> 0" "r = Would_Block \<or> r = Read_Error \<or> r = Data []"
    | d where "?space \<noteq> 0" "r = Data d" "d \<noteq> []" by (cases r) auto
  then show ?case
  proof cases
    case 1
    then show ?thesis using "1.prems" by (auto simp: drain.simps [of e c tr])
  next
    case 2
    have "tr1 = tr @ [Net (Read (cl_fd c) ?space)] \<and> received e tr [Net (Read (cl_fd c) ?space)] = []"
      using 2(2) rd tcp_read_Data [of e "cl_fd c" ?space tr "[]"] tcp_read_error [OF rd] by auto
    moreover have "c' = c \<and> tr' = tr1"
      using 2 "1.prems"(2) rd by (auto simp: drain.simps [of e c tr] Let_def)
    ultimately show ?thesis using "1.prems"(1) by fastforce
  next
    case 3
    let ?n = "cl_buf_len c"
    let ?c1 = "c\<lparr>cl_buf := take ?n (cl_buf c) @ d @ drop (?n + length d) (cl_buf c),
                 cl_buf_len := ?n + length d\<rparr>"
    have rd': "tcp_read e (cl_fd c) ?space tr = (Data d, tr1)" using rd 3 by simp
    note dd = tcp_read_Data [OF rd']
    have n: "?n + length d < DRONE_RECV_BUF_LEN" using dd 3(1) by linarith
    have ok1: "client_ok ?c1" using "1.prems"(1,3) n by (simp add: client_ok_def)
    have p1: "pending ?c1 = pending c @ d"
      using pending_grow [of "cl_buf c" ?n d] n "1.prems"(1) by (simp add: pending_def client_ok_def)
    have "drain e ?c1 tr1 = (b, c', tr')"
      using "1.prems"(2) 3 rd' by (simp add: drain.simps [of e c tr] Let_def)
    from "1.IH" [OF refl 3(1) rd' [symmetric] refl 3(3) ok1 this]
    obtain evs where "client_ok c' \<and> cl_fd c' = cl_fd c"
        "tr' = tr1 @ evs" "pending c' = pending ?c1 @ received e tr1 evs"
        "\<forall>ev \<in> set evs. \<exists>n. ev = Net (Read (cl_fd c) n)"
      using "1.prems"(3) by auto
    then show ?thesis using dd p1 received_append [of e tr "[Net (Read (cl_fd c) ?space)]" evs]
      by (intro conjI exI [of _ "Net (Read (cl_fd c) ?space) # evs"]) auto
  qed
qed

section \<open>Cutting the stream into lines\<close>

lemma split_lf_no_lf: "LF \<notin> set a \<Longrightarrow> split_lf a = ([], a)"
  by (induction a) auto

lemma split_lf_line:
  "LF \<notin> set a \<Longrightarrow> split_lf (a @ LF # b) = (a # fst (split_lf b), snd (split_lf b))"
  by (induction a) (auto split: prod.splits)

lemma split_lf_append:
  "split_lf (a @ b) =
     (fst (split_lf a) @ fst (split_lf (snd (split_lf a) @ b)), snd (split_lf (snd (split_lf a) @ b)))"
proof (induction "length a" arbitrary: a rule: less_induct)
  case less
  show ?case
  proof (cases "LF \<in> set a")
    case False
    then show ?thesis by (simp add: split_lf_no_lf)
  next
    case True
    then obtain u v where a: "a = u @ LF # v" "LF \<notin> set u" by (meson split_list_first)
    have "length v < length a" by (simp add: a)
    from less [OF this] show ?thesis using split_lf_line [OF a(2)] by (simp add: a)
  qed
qed

lemma split_lf_rest: "LF \<notin> set (snd (split_lf s))"
  by (induction s) (auto split: prod.splits list.splits)

lemma deliver_append:
  "deliver msg fd (a @ b) s tr =
     (case deliver msg fd a s tr of
        (False, s, tr) \<Rightarrow> (False, s, tr)
      | (True, s, tr) \<Rightarrow> deliver msg fd b s tr)"
  by (induction msg fd a s tr rule: deliver.induct) (auto split: prod.splits bool.splits)

section \<open>The loop over lines\<close>

lemma bytes_left_diff:
  assumes "start \<le> cl_buf_len c" and "cl_buf_len c < DRONE_RECV_BUF_LEN"
  shows "bytes_left c start = cl_buf_len c - start"
proof -
  have s: "of_nat (cl_buf_len c) - of_nat start = (of_nat (cl_buf_len c - start) :: u64)"
    using assms(1) by (simp add: of_nat_diff)
  have "cl_buf_len c - start < 2 ^ LENGTH(64)" using assms(2) by (simp add: drone_limits)
  then show ?thesis unfolding bytes_left_def s by (simp add: unsigned_of_nat take_bit_nat_eq_self)
qed

lemma find_upt_None: "find P [a..<b] = None \<longleftrightarrow> (\<forall>k. a \<le> k \<and> k < b \<longrightarrow> \<not> P k)"
  by (auto simp: find_None_iff)

lemma find_upt_Some:
  assumes "find P [a..<b] = Some k"
  shows "a \<le> k \<and> k < b \<and> P k \<and> (\<forall>j. a \<le> j \<and> j < k \<longrightarrow> \<not> P j)"
proof -
  obtain m where m: "m < length [a..<b]" "P ([a..<b] ! m)" "k = [a..<b] ! m"
      "\<forall>j < m. \<not> P ([a..<b] ! j)"
    using assms by (auto simp: find_Some_iff)
  have "\<not> P j" if "a \<le> j" "j < k" for j
  proof -
    have "j - a < m" "[a..<b] ! (j - a) = j" using that m(1,3) by auto
    then show ?thesis using m(4) by metis
  qed
  then show ?thesis using m by auto
qed

text \<open>The search finds the end of the first complete line of the pending bytes, or there is none.\<close>

lemma memchr_pending:
  assumes "client_ok c" and "start \<le> cl_buf_len c"
  shows "case memchr_lf (cl_buf c) start (bytes_left c start) of
      Absent \<Rightarrow> LF \<notin> set (drop start (pending c))
    | Leaves_Array \<Rightarrow> False
    | Found k \<Rightarrow> start \<le> k \<and> k < cl_buf_len c \<and> LF \<notin> set (take (k - start) (drop start (pending c))) \<and>
        drop start (pending c) = take (k - start) (drop start (pending c)) @ LF # drop (k + 1) (pending c)"
proof -
  let ?n = "cl_buf_len c" and ?p = "pending c"
  have len: "length ?p = ?n" and lt: "?n < DRONE_RECV_BUF_LEN"
    using assms(1) by (simp_all add: pending_def client_ok_def)
  have nth: "k < ?n \<Longrightarrow> ?p ! k = cl_buf c ! k" for k by (simp add: pending_def)
  have range: "start + bytes_left c start = ?n" using bytes_left_diff [OF assms(2) lt] assms(2) by simp
  have m: "min (start + bytes_left c start) DRONE_RECV_BUF_LEN = ?n" using lt by (simp add: range)
  show ?thesis
  proof (cases "find (\<lambda>k. cl_buf c ! k = LF) [start..<?n]")
    case None
    then have "\<forall>k. start \<le> k \<and> k < ?n \<longrightarrow> ?p ! k \<noteq> LF" using nth by (auto simp: find_upt_None)
    then have "LF \<notin> set (drop start ?p)" by (auto simp: in_set_conv_nth len)
    then show ?thesis using None lt by (simp add: memchr_lf_def m range)
  next
    case (Some k)
    note f = find_upt_Some [OF Some]
    have "LF \<notin> set (take (k - start) (drop start ?p))"
      using f nth len by (auto simp: in_set_conv_nth)
    moreover have "drop start ?p = take (k - start) (drop start ?p) @ drop k ?p"
      using f append_take_drop_id [of "k - start" "drop start ?p"] by simp
    moreover have "drop k ?p = LF # drop (k + 1) ?p"
      using f nth [of k] len by (simp add: Cons_nth_drop_Suc [symmetric])
    ultimately show ?thesis using Some f by (simp add: memchr_lf_def m)
  qed
qed

text \<open>The array after a line was terminated, and the line the callback is given.\<close>

definition cut_line :: "string \<Rightarrow> nat \<Rightarrow> nat \<Rightarrow> string \<times> nat" where
  "cut_line buf start nl =
     (let buf = buf[nl := NUL]; line_len = nl - start
      in if 0 < line_len \<and> buf ! (start + line_len - 1) = CR
         then (buf[start + line_len - 1 := NUL], line_len - 1) else (buf, line_len))"

lemma cut_line_spec:
  assumes "start \<le> k" and "k < length buf" and "cut_line buf start k = (buf', len)"
  shows "take len (drop start buf') = strip_cr (take (k - start) (drop start buf)) \<and>
         length buf' = length buf \<and> drop (k + 1) buf' = drop (k + 1) buf \<and>
         length (take len (drop start buf')) = len"
proof (cases "start < k \<and> buf ! (k - 1) = CR")
  case True
  let ?a = "take (k - start) (drop start buf)"
  have r: "buf' = buf[k := NUL, k - 1 := NUL]" "len = k - start - 1"
    using assms(1,3) True by (auto simp: cut_line_def Let_def split: if_splits)
  have l: "last ?a = CR" "?a \<noteq> []" using True assms(2) by (auto simp: last_conv_nth)
  have "butlast ?a = take (k - start - 1) (drop start buf)" using assms(2) by (simp add: butlast_take)
  then have "strip_cr ?a = take (k - start - 1) (drop start buf)" using l by (simp add: strip_cr_def)
  moreover have "take (k - start - 1) (drop start buf') = take (k - start - 1) (drop start buf)"
    using assms(2) True by (intro nth_equalityI) (auto simp: r)
  moreover have "length (take len (drop start buf')) = len" using r assms(1,2) by simp
  ultimately show ?thesis using r by simp
next
  case False
  let ?a = "take (k - start) (drop start buf)"
  have r: "buf' = buf[k := NUL]" "len = k - start"
    using assms(1,3) False by (auto simp: cut_line_def Let_def split: if_splits)
  have "strip_cr ?a = ?a"
    using False assms(1,2) by (auto simp: strip_cr_def last_conv_nth)
  moreover have "take (k - start) (drop start buf') = ?a"
    using assms(2) by (intro nth_equalityI) (auto simp: r)
  moreover have "length (take len (drop start buf')) = len" using r assms(1,2) by simp
  ultimately show ?thesis using r by simp
qed

text \<open>What handling one client leaves of the rest of the server.\<close>

definition same_but :: "nat \<Rightarrow> TcpServer \<Rightarrow> TcpServer \<Rightarrow> bool" where
  "same_but i srv srv' \<longleftrightarrow>
     tcp_inv srv' \<and> ts_epoll_fd srv' = ts_epoll_fd srv \<and> ts_listen_fd srv' = ts_listen_fd srv \<and>
     (\<forall>j. j \<noteq> i \<longrightarrow> ts_clients srv' ! j = ts_clients srv ! j)"

lemma same_but_trans: "same_but i a b \<Longrightarrow> same_but i b c \<Longrightarrow> same_but i a c"
  by (auto simp: same_but_def)

lemma set_client_same:
  assumes "tcp_inv srv" and "i < DRONE_MAX_CLIENTS" and "client_ok c"
    and "cl_fd c = cl_fd (ts_clients srv ! i)"
  shows "same_but i srv (set_client srv i c) \<and> ts_clients (set_client srv i c) ! i = c"
  using assms set_client_inv [OF assms(1-3)] by (auto simp: same_but_def set_client_def tcp_inv_def)

lemma free_client_same:
  assumes "tcp_inv srv" and "i < DRONE_MAX_CLIENTS" and "0 \<le> cl_fd (ts_clients srv ! i)"
  shows "\<exists>srv'. free_client srv i tr = (srv', tr @
           [Net (Epoll_Del (ts_epoll_fd srv) (cl_fd (ts_clients srv ! i))),
            Net (Close_Fd (cl_fd (ts_clients srv ! i)))]) \<and>
         same_but i srv srv' \<and> cl_fd (ts_clients srv' ! i) = -1"
proof -
  obtain srv' tr' where f: "free_client srv i tr = (srv', tr')" by fastforce
  have "ts_epoll_fd srv' = ts_epoll_fd srv \<and> ts_listen_fd srv' = ts_listen_fd srv"
    using f by (auto simp: free_client_def set_client_def Let_def)
  then show ?thesis using f free_client_inv [OF assms f] by (auto simp: same_but_def)
qed

lemma line_loop_step:
  assumes "memchr_lf (cl_buf c) start (bytes_left c start) = Found k"
    and "c = ts_clients srv ! i" and "cut_line (cl_buf c) start k = (buf, len)"
  shows "line_loop (plain_cb msg) i start srv s tr =
     (let srv = set_client srv i (c\<lparr>cl_buf := buf\<rparr>) in
      case (if 0 < len then msg (cl_fd c) (take len (drop start buf)) s tr else (0, s, tr)) of
        (r, s, tr) \<Rightarrow>
          if r \<noteq> 0 then (case free_client srv i tr of (srv, tr) \<Rightarrow> (None, srv, s, tr))
          else line_loop (plain_cb msg) i (k + 1) srv s tr)"
  using assms
  by (subst line_loop.simps)
     (auto simp: Let_def cut_line_def plain_cb_def split: prod.splits if_splits)

text \<open>One turn of the loop, on the abstract line.\<close>

lemma line_loop_found:
  assumes "tcp_inv srv" and "i < DRONE_MAX_CLIENTS" and c: "c = ts_clients srv ! i"
    and "start \<le> cl_buf_len c" and F: "memchr_lf (cl_buf c) start (bytes_left c start) = Found k"
  obtains a srv1 c1 where "LF \<notin> set a" and "drop start (pending c) = a @ LF # drop (k + 1) (pending c)"
    and "start \<le> k" and "k < cl_buf_len c" and "same_but i srv srv1" and "ts_clients srv1 ! i = c1"
    and "cl_fd c1 = cl_fd c" and "cl_buf_len c1 = cl_buf_len c"
    and "drop (k + 1) (pending c1) = drop (k + 1) (pending c)"
    and "line_loop (plain_cb msg) i start srv s tr =
          (case (if strip_cr a \<noteq> [] then msg (cl_fd c) (strip_cr a) s tr else (0, s, tr)) of
             (r, s, tr) \<Rightarrow>
               if r \<noteq> 0 then (case free_client srv1 i tr of (srv, tr) \<Rightarrow> (None, srv, s, tr))
               else line_loop (plain_cb msg) i (k + 1) srv1 s tr)"
proof -
  have ok: "client_ok c" using assms(1,2) by (simp add: c tcp_inv_def)
  let ?a = "take (k - start) (drop start (pending c))"
  have k: "start \<le> k" "k < cl_buf_len c" "LF \<notin> set ?a"
      "drop start (pending c) = ?a @ LF # drop (k + 1) (pending c)"
    using memchr_pending [OF ok assms(4)] F by simp_all
  have klen: "k < length (cl_buf c)" using ok k by (auto simp: client_ok_def)
  obtain buf len where cut: "cut_line (cl_buf c) start k = (buf, len)" by fastforce
  note cs = cut_line_spec [OF k(1) klen cut]
  have "?a = take (k - start) (drop start (cl_buf c))"
    using k(2) by (simp add: pending_def drop_take min_def)
  then have line: "take len (drop start buf) = strip_cr ?a" using cs by simp
  have len: "0 < len \<longleftrightarrow> strip_cr ?a \<noteq> []" using line cs by (metis length_greater_0_conv)
  define c1 where "c1 = c\<lparr>cl_buf := buf\<rparr>"
  have ok1: "client_ok c1" using ok cs by (simp add: c1_def client_ok_def)
  have sc: "same_but i srv (set_client srv i c1)" "ts_clients (set_client srv i c1) ! i = c1"
    using set_client_same [OF assms(1,2) ok1] by (simp_all add: c1_def c)
  have p1: "drop (k + 1) (pending c1) = drop (k + 1) (pending c)"
    using cs by (simp add: c1_def pending_def drop_take)
  have step: "line_loop (plain_cb msg) i start srv s tr =
      (case (if strip_cr ?a \<noteq> [] then msg (cl_fd c) (strip_cr ?a) s tr else (0, s, tr)) of
         (r, s, tr) \<Rightarrow>
           if r \<noteq> 0
           then (case free_client (set_client srv i c1) i tr of (srv, tr) \<Rightarrow> (None, srv, s, tr))
           else line_loop (plain_cb msg) i (k + 1) (set_client srv i c1) s tr)"
    using line_loop_step [OF F c cut, of msg s tr] unfolding Let_def line len c1_def .
  show ?thesis by (rule that [OF k(3,4,1,2) sc _ _ p1 step]) (simp_all add: c1_def)
qed

definition loop_result ::
    "nat \<Rightarrow> TcpServer \<Rightarrow> Client \<Rightarrow> string \<Rightarrow> bool \<times> 's \<times> trace \<Rightarrow>
      nat option \<times> TcpServer \<times> 's \<times> trace \<Rightarrow> bool" where
  "loop_result i srv c rest = (\<lambda>(ok, s2, tr2) (res, srv', s', tr').
     same_but i srv srv' \<and> s' = s2 \<and>
     (if ok
      then \<exists>start'. res = Some start' \<and> tr' = tr2 \<and> cl_fd (ts_clients srv' ! i) = cl_fd c \<and>
             cl_buf_len (ts_clients srv' ! i) = cl_buf_len c \<and> start' \<le> cl_buf_len c \<and>
             drop start' (pending (ts_clients srv' ! i)) = rest
      else res = None \<and> cl_fd (ts_clients srv' ! i) = -1 \<and>
           tr' = tr2 @ [Net (Epoll_Del (ts_epoll_fd srv) (cl_fd c)), Net (Close_Fd (cl_fd c))]))"

lemma loop_result_same:
  assumes "same_but i srv srv1" and "cl_fd c1 = cl_fd c" and "cl_buf_len c1 = cl_buf_len c"
    and "loop_result i srv1 c1 rest d r"
  shows "loop_result i srv c rest d r"
proof -
  have "ts_epoll_fd srv1 = ts_epoll_fd srv" using assms(1) by (simp add: same_but_def)
  then show ?thesis using assms same_but_trans [OF assms(1)]
    by (auto simp: loop_result_def split: prod.splits if_splits)
qed

text \<open>One line found: the state after its callback, and what delivering the remaining lines means.\<close>

lemma line_loop_deliver:
  assumes "tcp_inv srv" and "i < DRONE_MAX_CLIENTS" and "c = ts_clients srv ! i"
    and "start \<le> cl_buf_len c" and "memchr_lf (cl_buf c) start (bytes_left c start) = Found k"
    and "split_lf (drop start (pending c)) = (ls, rest)"
  obtains ls' srv1 c1 s' tr' and r :: int where
    "split_lf (drop (k + 1) (pending c1)) = (ls', rest)" "start \<le> k" "k < cl_buf_len c"
    "same_but i srv srv1" "ts_clients srv1 ! i = c1" "cl_fd c1 = cl_fd c" "cl_buf_len c1 = cl_buf_len c"
    "deliver msg (cl_fd c) (map strip_cr ls) s tr =
       (if r \<noteq> 0 then (False, s', tr') else deliver msg (cl_fd c1) (map strip_cr ls') s' tr')"
    "line_loop (plain_cb msg) i start srv s tr =
       (if r \<noteq> 0 then (case free_client srv1 i tr' of (srv, tr) \<Rightarrow> (None, srv, s', tr))
        else line_loop (plain_cb msg) i (k + 1) srv1 s' tr')"
proof -
  obtain a srv1 c1 where a: "LF \<notin> set a" "drop start (pending c) = a @ LF # drop (k + 1) (pending c)"
    and k: "start \<le> k" "k < cl_buf_len c"
    and s1: "same_but i srv srv1" "ts_clients srv1 ! i = c1" "cl_fd c1 = cl_fd c" "cl_buf_len c1 = cl_buf_len c"
      "drop (k + 1) (pending c1) = drop (k + 1) (pending c)"
    and step: "line_loop (plain_cb msg) i start srv s tr =
        (case (if strip_cr a \<noteq> [] then msg (cl_fd c) (strip_cr a) s tr else (0, s, tr)) of
           (r, s, tr) \<Rightarrow>
             if r \<noteq> 0 then (case free_client srv1 i tr of (srv, tr) \<Rightarrow> (None, srv, s, tr))
             else line_loop (plain_cb msg) i (k + 1) srv1 s tr)"
    using line_loop_found [OF assms(1-5), of msg s tr] by blast
  obtain ls' where ls: "ls = a # ls'" "split_lf (drop (k + 1) (pending c1)) = (ls', rest)"
    using assms(6) split_lf_line [OF a(1), of "drop (k + 1) (pending c)"] a(2) s1(5)
    by (metis fst_conv prod.collapse snd_conv)
  obtain r s' tr' where m:
    "(if strip_cr a \<noteq> [] then msg (cl_fd c) (strip_cr a) s tr else (0, s, tr)) = (r, s', tr')"
    by (cases "if strip_cr a \<noteq> [] then msg (cl_fd c) (strip_cr a) s tr else (0, s, tr)") auto
  have del: "deliver msg (cl_fd c) (map strip_cr ls) s tr =
      (if r \<noteq> 0 then (False, s', tr') else deliver msg (cl_fd c1) (map strip_cr ls') s' tr')"
    using m by (auto simp: ls(1) s1(3) split: if_splits)
  show ?thesis by (rule that [OF ls(2) k s1(1-4) del step [unfolded m prod.case]])
qed

lemma line_loop_spec:
  assumes "tcp_inv srv" and "i < DRONE_MAX_CLIENTS" and "c = ts_clients srv ! i" and "0 \<le> cl_fd c"
    and "start \<le> cl_buf_len c" and "split_lf (drop start (pending c)) = (ls, rest)"
  shows "loop_result i srv c rest (deliver msg (cl_fd c) (map strip_cr ls) s tr)
           (line_loop (plain_cb msg) i start srv s tr)"
  using assms
proof (induction "DRONE_RECV_BUF_LEN - start" arbitrary: start srv c ls s tr rule: less_induct)
  case less
  note c = less.prems(3)
  have ok: "client_ok c" using less.prems(1,2) by (simp add: c tcp_inv_def)
  show ?case
  proof (cases "memchr_lf (cl_buf c) start (bytes_left c start)")
    case Absent
    then have "LF \<notin> set (drop start (pending c))" using memchr_pending [OF ok less.prems(5)] by simp
    then have "ls = []" "rest = drop start (pending c)"
      using less.prems(6) by (simp_all add: split_lf_no_lf)
    moreover have "line_loop (plain_cb msg) i start srv s tr = (Some start, srv, s, tr)"
      using Absent by (subst line_loop.simps) (simp add: c)
    ultimately show ?thesis using less.prems by (auto simp: same_but_def loop_result_def)
  next
    case Leaves_Array
    then show ?thesis using memchr_pending [OF ok less.prems(5)] by simp
  next
    case (Found k)
    obtain ls' srv1 c1 s' tr' and r :: int where ls: "split_lf (drop (k + 1) (pending c1)) = (ls', rest)"
      and k: "start \<le> k" "k < cl_buf_len c"
      and s1: "same_but i srv srv1" "ts_clients srv1 ! i = c1" "cl_fd c1 = cl_fd c" "cl_buf_len c1 = cl_buf_len c"
      and del: "deliver msg (cl_fd c) (map strip_cr ls) s tr =
        (if r \<noteq> 0 then (False, s', tr') else deliver msg (cl_fd c1) (map strip_cr ls') s' tr')"
      and step: "line_loop (plain_cb msg) i start srv s tr =
        (if r \<noteq> 0 then (case free_client srv1 i tr' of (srv, tr) \<Rightarrow> (None, srv, s', tr))
         else line_loop (plain_cb msg) i (k + 1) srv1 s' tr')"
      by (rule line_loop_deliver [OF less.prems(1,2) c less.prems(5) Found less.prems(6), of msg s tr])
    have inv1: "tcp_inv srv1" using s1(1) by (simp add: same_but_def)
    have "loop_result i srv1 c1 rest (deliver msg (cl_fd c) (map strip_cr ls) s tr)
        (line_loop (plain_cb msg) i start srv s tr)"
    proof (cases "r = 0")
      case False
      then show ?thesis using free_client_same [OF inv1 less.prems(2), of tr'] less.prems(4) s1
        by (auto simp: loop_result_def step del)
    next
      case True
      have "DRONE_RECV_BUF_LEN - (k + 1) < DRONE_RECV_BUF_LEN - start" "k + 1 \<le> cl_buf_len c1" "0 \<le> cl_fd c1"
        using k ok less.prems(4) s1 by (auto simp: client_ok_def)
      then show ?thesis using less.hyps [OF _ inv1 less.prems(2) s1(2) [symmetric] _ _ ls] True
        by (simp add: step del)
    qed
    then show ?thesis by (rule loop_result_same [OF s1(1,3,4)])
  qed
qed

section \<open>One ready client\<close>

lemma shift_rest_spec:
  assumes "client_ok c" and "start \<le> cl_buf_len c" and "0 \<le> cl_fd c"
  shows "client_ok (shift_rest c start) \<and> pending (shift_rest c start) = drop start (pending c) \<and>
         cl_fd (shift_rest c start) = cl_fd c"
proof -
  have lt: "cl_buf_len c < DRONE_RECV_BUF_LEN" and len: "length (cl_buf c) = DRONE_RECV_BUF_LEN"
    using assms(1) by (simp_all add: client_ok_def)
  have b: "bytes_left c start = cl_buf_len c - start" by (rule bytes_left_diff [OF assms(2) lt])
  show ?thesis using assms lt len
    by (auto simp: shift_rest_def b client_ok_def pending_def Let_def drop_take min_def)
qed

text \<open>After the reading loop: the loop over lines runs on the pending and the new bytes.\<close>

lemma recv_client_drained:
  assumes inv: "tcp_inv srv" and i: "i < DRONE_MAX_CLIENTS" and c: "c = ts_clients srv ! i"
    and fd: "0 \<le> cl_fd c" and dr: "drain e c tr = (True, c1, tr1)"
    and sp: "split_lf (pending c1) = (ls, rest)"
  obtains res srv3 s3 tr3 where "cl_fd c1 = cl_fd c"
    and "loop_result i srv c1 rest (deliver msg (cl_fd c) (map strip_cr ls) s tr1) (res, srv3, s3, tr3)"
    and "recv_client e (plain_cb msg) i srv s tr =
           (case res of None \<Rightarrow> (srv3, s3, tr3)
            | Some start \<Rightarrow> (set_client srv3 i (shift_rest (ts_clients srv3 ! i) start), s3, tr3))"
proof -
  have ok: "client_ok c" using inv i by (simp add: c tcp_inv_def)
  have ok1: "client_ok c1" "cl_fd c1 = cl_fd c" using drain_spec [OF ok dr fd] by auto
  define c2 where "c2 = c1\<lparr>cl_buf := (cl_buf c1)[cl_buf_len c1 := NUL]\<rparr>"
  have c2: "client_ok c2" "cl_fd c2 = cl_fd c" "pending c2 = pending c1" "cl_buf_len c2 = cl_buf_len c1"
    using ok1 by (simp_all add: c2_def client_ok_def pending_def)
  define srv2 where "srv2 = set_client srv i c2"
  have sb: "same_but i srv srv2" "ts_clients srv2 ! i = c2"
    using set_client_same [OF inv i c2(1)] c2(2) by (simp_all add: srv2_def c)
  have inv2: "tcp_inv srv2" "ts_epoll_fd srv2 = ts_epoll_fd srv" using sb by (simp_all add: same_but_def)
  obtain res srv3 s3 tr3 where l: "line_loop (plain_cb msg) i 0 srv2 s tr1 = (res, srv3, s3, tr3)"
    by (cases "line_loop (plain_cb msg) i 0 srv2 s tr1") auto
  have "loop_result i srv2 c2 rest (deliver msg (cl_fd c2) (map strip_cr ls) s tr1)
      (line_loop (plain_cb msg) i 0 srv2 s tr1)"
    by (rule line_loop_spec [OF inv2(1) i sb(2) [symmetric]]) (use fd c2 sp in simp_all)
  then have "loop_result i srv c1 rest (deliver msg (cl_fd c) (map strip_cr ls) s tr1) (res, srv3, s3, tr3)"
    using same_but_trans [OF sb(1)] c2 ok1(2) inv2(2) unfolding l loop_result_def
    by (auto split: prod.splits if_splits)
  moreover have "recv_client e (plain_cb msg) i srv s tr =
      (case res of None \<Rightarrow> (srv3, s3, tr3)
       | Some start \<Rightarrow> (set_client srv3 i (shift_rest (ts_clients srv3 ! i) start), s3, tr3))"
    using dr l
    by (simp add: recv_client_def c [symmetric] c2_def [symmetric] srv2_def [symmetric] Let_def
        split: option.split)
  ultimately show ?thesis using that ok1(2) by blast
qed

lemma shift_same:
  assumes "same_but i srv srv3" and "i < DRONE_MAX_CLIENTS" and "0 \<le> cl_fd (ts_clients srv3 ! i)"
    and "start \<le> cl_buf_len (ts_clients srv3 ! i)"
  defines "c3 \<equiv> shift_rest (ts_clients srv3 ! i) start"
  shows "same_but i srv (set_client srv3 i c3) \<and> ts_clients (set_client srv3 i c3) ! i = c3 \<and>
         pending c3 = drop start (pending (ts_clients srv3 ! i)) \<and> cl_fd c3 = cl_fd (ts_clients srv3 ! i)"
proof -
  have inv3: "tcp_inv srv3" using assms(1) by (simp add: same_but_def)
  then have "client_ok (ts_clients srv3 ! i)" using assms(2) by (simp add: tcp_inv_def)
  note sh = shift_rest_spec [OF this assms(4,3)]
  show ?thesis using set_client_same [OF inv3 assms(2), of c3] sh same_but_trans [OF assms(1)]
    by (simp add: c3_def)
qed

text \<open>
  When reading ends because no more is ready, the complete lines of the pending and the new bytes are
  handled in order and the partial one is kept.
\<close>

lemma recv_client_spec:
  assumes "tcp_inv srv" and "i < DRONE_MAX_CLIENTS" and "c = ts_clients srv ! i" and "0 \<le> cl_fd c"
    and "drain e c tr = (True, c1, tr1)" and "split_lf (pending c1) = (ls, rest)"
    and dl: "deliver msg (cl_fd c) (map strip_cr ls) s tr1 = (True, s2, tr2)"
  shows "\<exists>srv'. recv_client e (plain_cb msg) i srv s tr = (srv', s2, tr2) \<and> same_but i srv srv' \<and>
           cl_fd (ts_clients srv' ! i) = cl_fd c \<and> pending (ts_clients srv' ! i) = rest"
proof -
  obtain res srv3 s3 tr3 where fd: "cl_fd c1 = cl_fd c"
    and lr: "loop_result i srv c1 rest (deliver msg (cl_fd c) (map strip_cr ls) s tr1) (res, srv3, s3, tr3)"
    and run: "recv_client e (plain_cb msg) i srv s tr =
           (case res of None \<Rightarrow> (srv3, s3, tr3)
            | Some start \<Rightarrow> (set_client srv3 i (shift_rest (ts_clients srv3 ! i) start), s3, tr3))"
    by (rule recv_client_drained [OF assms(1-6)])
  obtain start where r: "res = Some start" "same_but i srv srv3" "s3 = s2" "tr3 = tr2"
      "cl_fd (ts_clients srv3 ! i) = cl_fd c" "start \<le> cl_buf_len (ts_clients srv3 ! i)"
      "drop start (pending (ts_clients srv3 ! i)) = rest"
    using lr dl fd by (auto simp: loop_result_def)
  show ?thesis using shift_same [OF r(2) assms(2) _ r(6)] run r assms(4) by simp
qed

text \<open>
  When reading ends with an error, the end of the stream or a full array, the client is closed and no
  line is handled, whatever is pending.
\<close>

lemma recv_client_closed:
  assumes inv: "tcp_inv srv" and i: "i < DRONE_MAX_CLIENTS" and c: "c = ts_clients srv ! i"
    and fd: "0 \<le> cl_fd c" and dr: "drain e c tr = (False, c1, tr1)"
  shows "\<exists>srv'. recv_client e cb i srv s tr =
           (srv', s, tr1 @ [Net (Epoll_Del (ts_epoll_fd srv) (cl_fd c)), Net (Close_Fd (cl_fd c))]) \<and>
           same_but i srv srv' \<and> cl_fd (ts_clients srv' ! i) = -1"
proof -
  have ok: "client_ok c" using inv i by (simp add: c tcp_inv_def)
  have ok1: "client_ok c1" "cl_fd c1 = cl_fd c" using drain_spec [OF ok dr fd] by auto
  have sb: "same_but i srv (set_client srv i c1)" "ts_clients (set_client srv i c1) ! i = c1"
    using set_client_same [OF inv i ok1(1)] ok1(2) by (simp_all add: c)
  then have inv1: "tcp_inv (set_client srv i c1)" "ts_epoll_fd (set_client srv i c1) = ts_epoll_fd srv"
    by (simp_all add: same_but_def)
  obtain srv' where f: "free_client (set_client srv i c1) i tr1 =
        (srv', tr1 @ [Net (Epoll_Del (ts_epoll_fd srv) (cl_fd c)), Net (Close_Fd (cl_fd c))])"
      "same_but i (set_client srv i c1) srv'" "cl_fd (ts_clients srv' ! i) = -1"
    using free_client_same [OF inv1(1) i, of tr1] fd sb(2) ok1(2) inv1(2) by auto
  then show ?thesis using dr same_but_trans [OF sb(1) f(2)] by (auto simp: recv_client_def c)
qed

lemma recv_client_same:
  assumes "tcp_inv srv" and "i < DRONE_MAX_CLIENTS" and "0 \<le> cl_fd (ts_clients srv ! i)"
    and "recv_client e (plain_cb msg) i srv s tr = (srv', s', tr')"
  shows "same_but i srv srv'"
proof -
  define c where "c = ts_clients srv ! i"
  obtain b c1 tr1 where dr: "drain e c tr = (b, c1, tr1)" by (cases "drain e c tr") auto
  show ?thesis
  proof (cases b)
    case False
    then show ?thesis using recv_client_closed [OF assms(1,2) c_def, of e tr c1 tr1 "plain_cb msg" s]
      assms(3,4) dr by (auto simp: c_def)
  next
    case True
    have fd0: "0 \<le> cl_fd c" using assms(3) by (simp add: c_def)
    have dr: "drain e c tr = (True, c1, tr1)" using dr True by simp
    obtain ls rest where sp: "split_lf (pending c1) = (ls, rest)" by fastforce
    obtain res srv3 s3 tr3 where fd: "cl_fd c1 = cl_fd c"
      and lr: "loop_result i srv c1 rest (deliver msg (cl_fd c) (map strip_cr ls) s tr1) (res, srv3, s3, tr3)"
      and run: "recv_client e (plain_cb msg) i srv s tr =
           (case res of None \<Rightarrow> (srv3, s3, tr3)
            | Some start \<Rightarrow> (set_client srv3 i (shift_rest (ts_clients srv3 ! i) start), s3, tr3))"
      by (rule recv_client_drained [OF assms(1,2) c_def fd0 dr sp])
    have s3: "same_but i srv srv3" using lr by (auto simp: loop_result_def split: prod.splits)
    show ?thesis
    proof (cases res)
      case None
      then show ?thesis using run s3 assms(4) by simp
    next
      case (Some start)
      then have "cl_fd (ts_clients srv3 ! i) = cl_fd c" "start \<le> cl_buf_len (ts_clients srv3 ! i)"
        using lr fd by (auto simp: loop_result_def split: prod.splits if_splits)
      then show ?thesis using shift_same [OF s3 assms(2)] run Some assms(4) fd0 by simp
    qed
  qed
qed

section \<open>The server\<close>

lemma tcp_event_inv:
  assumes "tcp_inv srv" and "0 \<le> fd" and "tcp_event e (plain_cb msg) fd srv s tr = (srv', s', tr')"
  shows "tcp_inv srv'"
proof (cases "fd = ts_listen_fd srv")
  case True
  then show ?thesis using assms accept_client_inv
    by (fastforce simp: tcp_event_def split: prod.splits)
next
  case False
  show ?thesis
  proof (cases "find_client srv fd")
    case None
    then show ?thesis using False assms by (simp add: tcp_event_def)
  next
    case (Some i)
    note f = find_client_Some [OF Some]
    have "recv_client e (plain_cb msg) i srv s tr = (srv', s', tr')"
      using False Some assms(3) by (simp add: tcp_event_def)
    from recv_client_same [OF assms(1) _ _ this] f assms(2) show ?thesis by (simp add: same_but_def)
  qed
qed

lemma tcp_events_inv:
  "tcp_inv srv \<Longrightarrow> \<forall>fd \<in> set fds. 0 \<le> fd \<Longrightarrow>
     tcp_events e (plain_cb msg) fds srv s tr = (srv', s', tr') \<Longrightarrow> tcp_inv srv'"
proof (induction fds arbitrary: srv s tr)
  case (Cons fd fds)
  obtain srv1 s1 tr1 where ev: "tcp_event e (plain_cb msg) fd srv s tr = (srv1, s1, tr1)"
    by (cases "tcp_event e (plain_cb msg) fd srv s tr") auto
  have "tcp_inv srv1" using tcp_event_inv [OF Cons.prems(1) _ ev] Cons.prems(2) by simp
  from Cons.IH [OF this] Cons.prems(2,3) ev show ?case by simp
qed simp

text \<open>The kernel reports descriptors, which are nonnegative.\<close>

definition epoll_fds_ok :: "env \<Rightarrow> bool" where
  "epoll_fds_ok e \<longleftrightarrow> (\<forall>tr. \<forall>fd \<in> set (env_epoll e tr). 0 \<le> fd)"

lemma tcp_server_poll_inv:
  assumes "tcp_inv srv" and "epoll_fds_ok e"
    and "tcp_server_poll e (plain_cb msg) t srv s tr = (srv', s', tr')"
  shows "tcp_inv srv'"
proof -
  let ?tr = "tr @ [Net (Epoll_Wait (ts_epoll_fd srv) (DRONE_MAX_CLIENTS + 1) t)]"
  have run: "tcp_events e (plain_cb msg)
      (take (nat (env_ret e ?tr)) (take (DRONE_MAX_CLIENTS + 1) (env_epoll e ?tr))) srv s ?tr = (srv', s', tr')"
    using assms(3) by (simp add: tcp_server_poll_def libc_def)
  have "\<forall>fd \<in> set (take (nat (env_ret e ?tr)) (take (DRONE_MAX_CLIENTS + 1) (env_epoll e ?tr))). 0 \<le> fd"
    using assms(2) by (auto simp: epoll_fds_ok_def dest: in_set_takeD)
  from tcp_events_inv [OF assms(1) this run] show ?thesis .
qed

lemma tcp_server_create_inv:
  "tcp_server_create e addr_of ip port tr = (Some srv, tr') \<Longrightarrow> tcp_inv srv"
  unfolding tcp_server_create_def
  by (auto simp: libc_def Let_def tcp_inv_def client0_def client_ok_def drone_limits
      split: if_splits option.splits)

lemma tcp_server_create_fds:
  assumes "tcp_server_create e addr_of ip port tr = (res, tr')"
  shows "\<exists>evs. tr' = tr @ evs \<and>
           live_fds e tr evs fds = (case res of None \<Rightarrow> fds | Some s \<Rightarrow> ts_epoll_fd s # ts_listen_fd s # fds)"
  using assms unfolding tcp_server_create_def
  by (fastforce simp: libc_def Let_def split: if_splits option.splits)

lemma tcp_server_close_client_inv:
  assumes "tcp_inv srv" and "0 \<le> fd" and "tcp_server_close_client srv fd tr = (srv', tr')"
  shows "tcp_inv srv' \<and> (find_client srv fd = None \<longrightarrow> srv' = srv \<and> tr' = tr)"
proof (cases "find_client srv fd")
  case (Some i)
  note f = find_client_Some [OF Some]
  have "free_client srv i tr = (srv', tr')" using assms(3) Some by (simp add: tcp_server_close_client_def)
  from free_client_inv [OF assms(1) _ _ this] f assms(2) Some show ?thesis by simp
qed (use assms in \<open>simp add: tcp_server_close_client_def\<close>)

end
