(* ===== verification/Tcp_Server_Runs.thy ===== *)
theory Tcp_Server_Runs
  imports Tcp_Server_Props Sample_Env
begin

text \<open>
  Whole runs of the TCP server: the states its users reach, the lines delivered over several rounds of
  reading, what is lost when a connection ends, and the close of a descriptor that is not open.
\<close>

section \<open>Runs of the server\<close>

text \<open>
  The states a user of the server reaches: it is created, polled, asked to send and to close clients
  by their descriptors, in any order.
\<close>

inductive tcp_reachable ::
    "env \<Rightarrow> (int \<Rightarrow> string \<Rightarrow> 's \<Rightarrow> trace \<Rightarrow> int \<times> 's \<times> trace) \<Rightarrow> TcpServer \<Rightarrow> 's \<Rightarrow> trace \<Rightarrow> bool"
  for e msg where
  created: "tcp_server_create e addr_of ip port tr = (Some srv, tr') \<Longrightarrow> tcp_reachable e msg srv s tr'"
| polled: "tcp_reachable e msg srv s tr \<Longrightarrow>
    tcp_server_poll e (plain_cb msg) t srv s tr = (srv', s', tr') \<Longrightarrow> tcp_reachable e msg srv' s' tr'"
| sent: "tcp_reachable e msg srv s tr \<Longrightarrow> tcp_server_send e fd m tr = (r, tr') \<Longrightarrow>
    tcp_reachable e msg srv s tr'"
| closed: "tcp_reachable e msg srv s tr \<Longrightarrow> 0 \<le> fd \<Longrightarrow>
    tcp_server_close_client srv fd tr = (srv', tr') \<Longrightarrow> tcp_reachable e msg srv' s tr'"

text \<open>
  C37. In every state the TCP server reaches, with a message callback that does not itself close
  clients, the client count is the number of occupied slots, at most eight, every receive buffer is
  8192 bytes with its fill level inside it, and a free slot is marked -1 and holds no data.
\<close>

theorem tcp_reachable_inv:
  assumes "tcp_reachable e msg srv s tr" and "epoll_fds_ok e"
  shows "tcp_inv srv \<and> 0 \<le> ts_client_count srv \<and> ts_client_count srv \<le> 8"
proof -
  have "tcp_inv srv" using assms(1)
  proof (induction rule: tcp_reachable.induct)
    case created
    then show ?case by (rule tcp_server_create_inv)
  next
    case polled
    show ?case by (rule tcp_server_poll_inv [OF polled.IH assms(2) polled.hyps(2)])
  next
    case sent
    show ?case by (rule sent.IH)
  next
    case closed
    show ?case using tcp_server_close_client_inv [OF closed.IH closed.hyps(2,3)] by blast
  qed
  moreover have "length (filter P cs) \<le> 8" if "length cs = 8" for P and cs :: "Client list"
    using length_filter_le [of P cs] that by simp
  ultimately show ?thesis by (auto simp: tcp_inv_def drone_limits)
qed

definition sample_tcp :: TcpServer where
  "sample_tcp = \<lparr>ts_listen_fd = 3, ts_epoll_fd = 3, ts_clients = replicate DRONE_MAX_CLIENTS client0,
                 ts_client_count = 0\<rparr>"

lemma sample_tcp_created: "\<exists>tr'. tcp_server_create env0 (\<lambda>ip. 0) None 5555 [] = (Some sample_tcp, tr')"
  by (simp add: tcp_server_create_def libc_def ret0_def sample_tcp_def Let_def)

theorem tcp_reachable_inv_witness: "tcp_inv sample_tcp \<and> ts_client_count sample_tcp \<le> 8"
proof -
  obtain tr' where "tcp_server_create env0 (\<lambda>ip. 0) None 5555 [] = (Some sample_tcp, tr')"
    using sample_tcp_created by blast
  then have "tcp_reachable env0 (\<lambda>fd l s tr. (0, s, tr)) sample_tcp () tr'" by (rule tcp_reachable.created)
  moreover have "epoll_fds_ok env0" by (simp add: epoll_fds_ok_def)
  ultimately show ?thesis using tcp_reachable_inv [of env0 _ sample_tcp] by fast
qed

section \<open>Lines across rounds of reading\<close>

text \<open>Several rounds of reading from one client, as long as it stays open.\<close>

fun recv_rounds ::
    "env \<Rightarrow> 's tcp_cb \<Rightarrow> nat \<Rightarrow> nat \<Rightarrow> TcpServer \<Rightarrow> 's \<Rightarrow> trace \<Rightarrow> TcpServer \<times> 's \<times> trace" where
  "recv_rounds e cb i 0 srv s tr = (srv, s, tr)"
| "recv_rounds e cb i (Suc n) srv s tr =
     (if cl_fd (ts_clients srv ! i) < 0 then (srv, s, tr)
      else case recv_client e cb i srv s tr of (srv, s, tr) \<Rightarrow> recv_rounds e cb i n srv s tr)"

text \<open>A callback that collects the lines.\<close>

definition collect :: "int \<Rightarrow> string \<Rightarrow> string list \<Rightarrow> trace \<Rightarrow> int \<times> string list \<times> trace" where
  "collect fd l s tr = (0, s @ [l], tr)"

lemma deliver_collect: "deliver collect fd ls s tr = (True, s @ filter (\<lambda>l. l \<noteq> []) ls, tr)"
  by (induction ls arbitrary: s) (simp_all add: collect_def)

lemma recv_rounds_closed:
  "cl_fd (ts_clients srv ! i) < 0 \<Longrightarrow> recv_rounds e cb i n srv s tr = (srv, s, tr)"
  by (cases n) simp_all

lemma recv_client_collects:
  assumes inv: "tcp_inv srv" and i: "i < DRONE_MAX_CLIENTS" and fd: "0 \<le> cl_fd (ts_clients srv ! i)"
    and run: "recv_client e (plain_cb collect) i srv s tr = (srv1, s1, tr1)"
    and open1: "0 \<le> cl_fd (ts_clients srv1 ! i)"
  obtains evs ls where "tr1 = tr @ evs" and "tcp_inv srv1"
    and "split_lf (pending (ts_clients srv ! i) @ received e tr evs) = (ls, pending (ts_clients srv1 ! i))"
    and "s1 = s @ filter (\<lambda>l. l \<noteq> []) (map strip_cr ls)"
proof -
  let ?c = "ts_clients srv ! i"
  obtain b c1 tr2 where d: "drain e ?c tr = (b, c1, tr2)" by (cases "drain e ?c tr") auto
  have ok: "client_ok ?c" using inv i by (simp add: tcp_inv_def)
  obtain evs where evs: "tr2 = tr @ evs" "pending c1 = pending ?c @ received e tr evs"
    using drain_spec [OF ok d fd] by blast
  have b: b
  proof (rule ccontr)
    assume "\<not> b"
    then show False
      using recv_client_closed [OF inv i refl fd, of e tr c1 tr2 "plain_cb collect" s] d run open1 by auto
  qed
  obtain ls rest where sp: "split_lf (pending c1) = (ls, rest)" by fastforce
  obtain srv' where r: "recv_client e (plain_cb collect) i srv s tr =
        (srv', s @ filter (\<lambda>l. l \<noteq> []) (map strip_cr ls), tr2)" "same_but i srv srv'"
      "pending (ts_clients srv' ! i) = rest"
    using recv_client_spec [OF inv i refl fd d [unfolded eqTrueI [OF b]] sp deliver_collect, of s] by blast
  then show ?thesis using that [of evs ls] run evs sp by (auto simp: same_but_def)
qed

text \<open>
  C38. The bytes of a connection are cut into the same lines however they are split over rounds of
  reading: as long as the client stays open, the lines handed to the callback are the nonempty
  complete lines of everything received, in order and without a trailing carriage return, and the
  unfinished rest stays pending.
\<close>

theorem tcp_rounds_lines:
  assumes "tcp_inv srv" and "i < DRONE_MAX_CLIENTS" and "0 \<le> cl_fd (ts_clients srv ! i)"
    and "LF \<notin> set (pending (ts_clients srv ! i))"
    and "recv_rounds e (plain_cb collect) i n srv s tr = (srv', s', tr')"
    and "0 \<le> cl_fd (ts_clients srv' ! i)"
  shows "\<exists>evs ls. tr' = tr @ evs \<and>
           split_lf (pending (ts_clients srv ! i) @ received e tr evs) = (ls, pending (ts_clients srv' ! i)) \<and>
           s' = s @ filter (\<lambda>l. l \<noteq> []) (map strip_cr ls)"
  using assms(1,3-6)
proof (induction n arbitrary: srv s tr)
  case 0
  then show ?case by (intro exI [of _ "[]"]) (simp add: split_lf_no_lf)
next
  case (Suc n)
  let ?p = "pending (ts_clients srv ! i)"
  obtain srv1 s1 tr1 where r1: "recv_client e (plain_cb collect) i srv s tr = (srv1, s1, tr1)"
    by (cases "recv_client e (plain_cb collect) i srv s tr") auto
  then have r2: "recv_rounds e (plain_cb collect) i n srv1 s1 tr1 = (srv', s', tr')"
    using Suc.prems(2,4) by simp
  have op: "0 \<le> cl_fd (ts_clients srv1 ! i)"
    using Suc.prems(5) r2 recv_rounds_closed [of srv1 i e "plain_cb collect" n s1 tr1] by force
  obtain evs1 ls1 where a: "tr1 = tr @ evs1" "tcp_inv srv1"
      "split_lf (?p @ received e tr evs1) = (ls1, pending (ts_clients srv1 ! i))"
      "s1 = s @ filter (\<lambda>l. l \<noteq> []) (map strip_cr ls1)"
    using recv_client_collects [OF Suc.prems(1) assms(2) Suc.prems(2) r1 op] .
  have "LF \<notin> set (pending (ts_clients srv1 ! i))"
    using a(3) split_lf_rest [of "?p @ received e tr evs1"] by simp
  then obtain evs2 ls2 where b: "tr' = tr1 @ evs2"
      "split_lf (pending (ts_clients srv1 ! i) @ received e tr1 evs2) = (ls2, pending (ts_clients srv' ! i))"
      "s' = s1 @ filter (\<lambda>l. l \<noteq> []) (map strip_cr ls2)"
    using Suc.IH [OF a(2) op _ r2 Suc.prems(5)] by blast
  have "split_lf (?p @ received e tr (evs1 @ evs2)) = (ls1 @ ls2, pending (ts_clients srv' ! i))"
    using split_lf_append [of "?p @ received e tr evs1" "received e tr1 evs2"] a(1,3) b(2)
    by (simp add: received_append)
  then show ?case using a b by (intro exI [of _ "evs1 @ evs2"] exI [of _ "ls1 @ ls2"]) simp
qed

text \<open>A client whose bytes arrive in two pieces, each followed by a read that would block.\<close>

definition env_two_reads :: env where
  "env_two_reads = env0
     \<lparr>env_ret := \<lambda>tr. if odd (length tr) then 1 else -1,
      env_read_data := \<lambda>tr. if length tr = 1 then ''ab'' @ [LF] @ ''c'' else ''d'' @ [CR, LF]\<rparr>"

lemma sample_tcp_inv: "tcp_inv sample_tcp"
  using sample_tcp_created tcp_server_create_inv by blast

lemma sample_client:
  obtains i srv where "tcp_inv srv" and "i < DRONE_MAX_CLIENTS" and "cl_fd (ts_clients srv ! i) = 7"
    and "pending (ts_clients srv ! i) = []" and "alloc_client sample_tcp 7 = (Some i, srv)"
proof -
  have "ts_client_count sample_tcp < int DRONE_MAX_CLIENTS" by (simp add: sample_tcp_def drone_limits)
  then obtain i srv where a: "alloc_client sample_tcp 7 = (Some i, srv)"
    using alloc_client_room [OF sample_tcp_inv] by blast
  then show ?thesis using alloc_client_inv [OF sample_tcp_inv _ a] by (intro that [of srv i]) simp_all
qed

lemma two_reads_drain:
  assumes "even (length tr)" and "cl_buf_len c < 100"
  shows "\<exists>c1 n m. drain env_two_reads c tr = (True, c1, tr @ [Net (Read (cl_fd c) n), Net (Read (cl_fd c) m)]) \<and> 8000 < n"
  using assms
  by (subst drain.simps, subst drain.simps)
     (simp add: tcp_read_def libc_def env_two_reads_def DRONE_RECV_BUF_LEN_def Let_def)

lemma length_pending: "client_ok c \<Longrightarrow> length (pending c) = cl_buf_len c"
  by (simp add: client_ok_def pending_def)

lemma two_reads_received:
  "8000 < n \<Longrightarrow> even (length tr) \<Longrightarrow>
     received env_two_reads tr [Net (Read fd n), Net (Read fd m)] =
       (if tr = [] then ''ab'' @ [LF] @ ''c'' else ''d'' @ [CR, LF])"
  by (auto simp: env_two_reads_def)

lemma split_lf_rest_length: "length (snd (split_lf s)) \<le> length s"
  by (induction s) (auto split: prod.splits list.splits)

lemma two_reads_round:
  assumes "tcp_inv srv" and "i < DRONE_MAX_CLIENTS" and "0 \<le> cl_fd (ts_clients srv ! i)"
    and "length (pending (ts_clients srv ! i)) < 90" and "even (length tr)"
  shows "\<exists>srv1 s1 n m. recv_client env_two_reads (plain_cb collect) i srv s tr =
      (srv1, s1, tr @ [Net (Read (cl_fd (ts_clients srv ! i)) n), Net (Read (cl_fd (ts_clients srv ! i)) m)]) \<and>
    tcp_inv srv1 \<and> cl_fd (ts_clients srv1 ! i) = cl_fd (ts_clients srv ! i) \<and> 8000 < n \<and>
    length (pending (ts_clients srv1 ! i)) < length (pending (ts_clients srv ! i)) + 10"
proof -
  let ?c = "ts_clients srv ! i"
  have ok: "client_ok ?c" using assms(1,2) by (simp add: tcp_inv_def)
  then have "cl_buf_len ?c < 100" using assms(4) by (simp flip: length_pending)
  then obtain c1 n m where d: "drain env_two_reads ?c tr =
      (True, c1, tr @ [Net (Read (cl_fd ?c) n), Net (Read (cl_fd ?c) m)])" "8000 < n"
    using two_reads_drain [OF assms(5)] by blast
  obtain ls rest where sp: "split_lf (pending c1) = (ls, rest)" by fastforce
  have "pending c1 = pending ?c @ (if tr = [] then ''ab'' @ [LF] @ ''c'' else ''d'' @ [CR, LF])"
    using drain_spec [OF ok d(1) assms(3)] two_reads_received [OF d(2) assms(5)] by auto
  then have "length rest < length (pending ?c) + 10"
    using split_lf_rest_length [of "pending c1"] sp by (simp split: if_splits)
  then show ?thesis
    using recv_client_spec [OF assms(1,2) refl assms(3) d(1) sp deliver_collect, of s] d(2)
    by (auto simp: same_but_def)
qed

theorem tcp_rounds_lines_witness:
  "\<exists>i srv srv' tr'. alloc_client sample_tcp 7 = (Some i, srv) \<and>
     recv_rounds env_two_reads (plain_cb collect) i 2 srv [] [] = (srv', [''ab'', ''cd''], tr')"
proof -
  obtain i srv where c: "tcp_inv srv" "i < DRONE_MAX_CLIENTS" "cl_fd (ts_clients srv ! i) = 7"
      "pending (ts_clients srv ! i) = []" "alloc_client sample_tcp 7 = (Some i, srv)"
    by (rule sample_client)
  obtain srv1 s1 n1 m1 where r1: "recv_client env_two_reads (plain_cb collect) i srv [] [] =
      (srv1, s1, [Net (Read 7 n1), Net (Read 7 m1)])" "tcp_inv srv1" "cl_fd (ts_clients srv1 ! i) = 7" "8000 < n1"
      "length (pending (ts_clients srv1 ! i)) < 10"
    using two_reads_round [of srv i "[]" "[]"] c by auto
  obtain srv2 s2 n2 m2 where r2: "recv_client env_two_reads (plain_cb collect) i srv1 s1
      [Net (Read 7 n1), Net (Read 7 m1)] =
      (srv2, s2, [Net (Read 7 n1), Net (Read 7 m1)] @ [Net (Read 7 n2), Net (Read 7 m2)])"
      "cl_fd (ts_clients srv2 ! i) = 7" "8000 < n2"
    using two_reads_round [OF r1(2) c(2), of "[Net (Read 7 n1), Net (Read 7 m1)]" s1] r1 by auto
  have rr: "recv_rounds env_two_reads (plain_cb collect) i 2 srv [] [] =
      (srv2, s2, [Net (Read 7 n1), Net (Read 7 m1)] @ [Net (Read 7 n2), Net (Read 7 m2)])"
    using r1 r2 c by (simp add: numeral_2_eq_2)
  obtain evs ls where e: "[Net (Read 7 n1), Net (Read 7 m1)] @ [Net (Read 7 n2), Net (Read 7 m2)] = [] @ evs"
      "split_lf ([] @ received env_two_reads [] evs) = (ls, pending (ts_clients srv2 ! i))"
      "s2 = [] @ filter (\<lambda>l. l \<noteq> []) (map strip_cr ls)"
    using tcp_rounds_lines [OF c(1,2) _ _ rr] c r2(2) by auto
  have "received env_two_reads [] evs = ''ab'' @ [LF] @ ''cd'' @ [CR, LF]"
    using e(1) r1(4) r2(3) by (auto simp: env_two_reads_def)
  then have "ls = [''ab'', ''cd'' @ [CR]]" using e(2) by simp
  then have "s2 = [''ab'', ''cd'']" using e(3) by (simp add: strip_cr_def)
  then show ?thesis using rr c(5) by blast
qed

text \<open>
  How the kernel can answer the reads of one round, said without the server: the pieces \<open>ds\<close>, each with
  at least one byte, into an array in which \<open>len\<close> bytes are taken; and an end of the round that closes
  the client: no room left but for the terminator, a read that fails with anything but "would block", or a
  read at the end of the stream.
\<close>

fun pieces_read :: "env \<Rightarrow> int \<Rightarrow> nat \<Rightarrow> trace \<Rightarrow> string list \<Rightarrow> trace \<Rightarrow> bool" where
  "pieces_read e fd len tr [] tr' \<longleftrightarrow> tr' = tr"
| "pieces_read e fd len tr (d # ds) tr' \<longleftrightarrow>
     (let n = DRONE_RECV_BUF_LEN - len - 1; tr1 = tr @ [Net (Read fd n)]
      in n \<noteq> 0 \<and> d \<noteq> [] \<and> 0 \<le> env_ret e tr1 \<and> take n (env_read_data e tr1) = d \<and>
         pieces_read e fd (len + length d) tr1 ds tr')"

datatype closing = Buffer_Full | Read_Failed | End_Of_Stream

fun closes :: "env \<Rightarrow> int \<Rightarrow> nat \<Rightarrow> trace \<Rightarrow> closing \<Rightarrow> trace \<Rightarrow> bool" where
  "closes e fd len tr Buffer_Full tr' \<longleftrightarrow> DRONE_RECV_BUF_LEN \<le> len + 1 \<and> tr' = tr"
| "closes e fd len tr Read_Failed tr' \<longleftrightarrow>
     len + 1 < DRONE_RECV_BUF_LEN \<and> tr' = tr @ [Net (Read fd (DRONE_RECV_BUF_LEN - len - 1))] \<and>
     env_ret e tr' < 0 \<and> \<not> env_would_block e tr'"
| "closes e fd len tr End_Of_Stream tr' \<longleftrightarrow>
     len + 1 < DRONE_RECV_BUF_LEN \<and> tr' = tr @ [Net (Read fd (DRONE_RECV_BUF_LEN - len - 1))] \<and>
     0 \<le> env_ret e tr' \<and> env_read_data e tr' = []"

lemma drain_closes:
  assumes "pieces_read e (cl_fd c) (cl_buf_len c) tr ds tr1"
    and "closes e (cl_fd c) (cl_buf_len c + length (concat ds)) tr1 why tr2"
  shows "\<exists>c1. drain e c tr = (False, c1, tr2)"
  using assms
proof (induction ds arbitrary: c tr)
  case Nil
  then show ?case by (subst drain.simps, cases why) (auto simp: tcp_read_def libc_def Let_def)
next
  case (Cons d ds)
  let ?n = "DRONE_RECV_BUF_LEN - cl_buf_len c - 1"
  let ?c1 = "c\<lparr>cl_buf := take (cl_buf_len c) (cl_buf c) @ d @ drop (cl_buf_len c + length d) (cl_buf c),
               cl_buf_len := cl_buf_len c + length d\<rparr>"
  have p: "?n \<noteq> 0" "d \<noteq> []" "tcp_read e (cl_fd c) ?n tr = (Data d, tr @ [Net (Read (cl_fd c) ?n)])"
    "pieces_read e (cl_fd c) (cl_buf_len c + length d) (tr @ [Net (Read (cl_fd c) ?n)]) ds tr1"
    using Cons.prems(1) by (simp_all add: tcp_read_def libc_def Let_def)
  have "\<exists>c'. drain e ?c1 (tr @ [Net (Read (cl_fd c) ?n)]) = (False, c', tr2)"
    by (rule Cons.IH) (use p(4) Cons.prems(2) in \<open>simp_all add: add.assoc\<close>)
  then show ?case by (subst drain.simps) (use p in \<open>simp add: Let_def\<close>)
qed

text \<open>
  C39. A round of reading that ends with the end of the stream, a read error or a full buffer loses what it
  read: whatever pieces came before, the client is closed, its slot freed and no message callback called,
  so that complete lines that arrived just before the end are dropped; the other clients keep their state.
\<close>

theorem tcp_eof_drops_lines:
  assumes "tcp_inv srv" and "i < DRONE_MAX_CLIENTS" and "c = ts_clients srv ! i" and "0 \<le> cl_fd c"
    and "pieces_read e (cl_fd c) (cl_buf_len c) tr ds tr1"
    and "closes e (cl_fd c) (cl_buf_len c + length (concat ds)) tr1 why tr2"
  shows "\<exists>srv'. recv_client e cb i srv s tr =
           (srv', s, tr2 @ [Net (Epoll_Del (ts_epoll_fd srv) (cl_fd c)), Net (Close_Fd (cl_fd c))]) \<and>
           tcp_inv srv' \<and> cl_fd (ts_clients srv' ! i) = -1 \<and>
           (\<forall>j. j \<noteq> i \<longrightarrow> ts_clients srv' ! j = ts_clients srv ! j)"
proof -
  obtain c1 where "drain e c tr = (False, c1, tr2)" using drain_closes [OF assms(5,6)] by blast
  from recv_client_closed [OF assms(1-4) this, of cb s] show ?thesis by (auto simp: same_but_def)
qed

text \<open>A client that sends one line and closes.\<close>

definition env_eof :: env where
  "env_eof = env0
     \<lparr>env_ret := \<lambda>tr. if length tr = 1 then 3 else 0,
      env_read_data := \<lambda>tr. if length tr = 1 then ''ab'' @ [LF] else []\<rparr>"

theorem tcp_eof_drops_lines_witness:
  "\<exists>i srv srv' tr'. alloc_client sample_tcp 7 = (Some i, srv) \<and>
     recv_client env_eof (plain_cb collect) i srv [] [] = (srv', [], tr') \<and> cl_fd (ts_clients srv' ! i) = -1"
proof -
  obtain i srv where c: "tcp_inv srv" "i < DRONE_MAX_CLIENTS" "cl_fd (ts_clients srv ! i) = 7"
      "pending (ts_clients srv ! i) = []" "alloc_client sample_tcp 7 = (Some i, srv)"
    by (rule sample_client)
  let ?c = "ts_clients srv ! i"
  have n: "cl_buf_len ?c = 0" using c(1,2,4) length_pending [of ?c] by (simp add: tcp_inv_def)
  let ?tr1 = "[Net (Read 7 (DRONE_RECV_BUF_LEN - 1))]" and ?tr2 = "[Net (Read 7 (DRONE_RECV_BUF_LEN - 1)), Net (Read 7 (DRONE_RECV_BUF_LEN - 4))]"
  have p: "pieces_read env_eof (cl_fd ?c) (cl_buf_len ?c) [] [''ab'' @ [LF]] ?tr1"
    by (simp add: n c(3) env_eof_def DRONE_RECV_BUF_LEN_def)
  have e: "closes env_eof (cl_fd ?c) (cl_buf_len ?c + length (concat [''ab'' @ [LF]])) ?tr1 End_Of_Stream ?tr2"
    by (simp add: n c(3) env_eof_def DRONE_RECV_BUF_LEN_def)
  show ?thesis using c(3,5) tcp_eof_drops_lines [OF c(1,2) refl _ p e, of "plain_cb collect" "[]"] by auto
qed

section \<open>Closing a descriptor that is not open\<close>

text \<open>
  Closing the descriptor -1 finds a free slot and frees it again: the count of clients drops below
  the number of occupied slots, so that the table no longer keeps its invariant.
\<close>

theorem tcp_close_minus_one:
  assumes "tcp_inv srv" and "ts_client_count srv < int DRONE_MAX_CLIENTS"
    and "tcp_server_close_client srv (-1) tr = (srv', tr')"
  shows "ts_client_count srv' = ts_client_count srv - 1 \<and> \<not> tcp_inv srv'"
proof -
  obtain i1 srv1 where "alloc_client srv 0 = (Some i1, srv1)"
    using alloc_client_room [OF assms(1,2), of 0] by blast
  then obtain i0 where i0: "i0 < DRONE_MAX_CLIENTS" "cl_fd (ts_clients srv ! i0) < 0"
    by (auto simp: alloc_client_def find_Some_iff split: option.splits)
  then have "cl_fd (ts_clients srv ! i0) = -1" using assms(1) by (auto simp: tcp_inv_def client_ok_def)
  then have "find_client srv (-1) \<noteq> None" using i0(1) by (auto simp: find_client_def find_None_iff)
  then obtain i where i: "find_client srv (-1) = Some i" by auto
  note f = find_client_Some [OF i]
  have li: "i < length (ts_clients srv)" using f assms(1) by (simp add: tcp_inv_def)
  let ?c = "(ts_clients srv ! i)\<lparr>cl_fd := -1, cl_buf_len := 0\<rparr>"
  have "srv' = (set_client srv i ?c)\<lparr>ts_client_count := ts_client_count srv - 1\<rparr>"
    using assms(3) i by (auto simp: tcp_server_close_client_def free_client_def Let_def)
  then show ?thesis using assms(1) f filter_update [OF li, of "\<lambda>c. 0 \<le> cl_fd c" ?c]
    by (auto simp: tcp_inv_def set_client_def)
qed

theorem tcp_close_minus_one_witness:
  "\<exists>srv' tr'. tcp_server_close_client sample_tcp (-1) [] = (srv', tr') \<and> ts_client_count srv' = -1"
proof -
  obtain srv' tr' where r: "tcp_server_close_client sample_tcp (-1) [] = (srv', tr')" by fastforce
  have "ts_client_count sample_tcp = 0" by (simp add: sample_tcp_def)
  then show ?thesis using r tcp_close_minus_one [OF sample_tcp_inv _ r] by (simp add: drone_limits)
qed

end
