(* ===== verification/Ffs_Init.thy ===== *)
theory Ffs_Init
  imports Psdk_Prelude
begin

text \<open>
  \<^verbatim>\<open>tools/ffs_init.c\<close>: the USB descriptors written to the FunctionFS control endpoint, as the bytes of the
  packed structures on a little-endian machine, and the program that writes them and then serves the
  endpoint's events. The kernel is an environment that answers each call from the calls made so far.
  Progress messages on standard output are left out.
\<close>

unbundle bit_operations_syntax

section \<open>Packed structures\<close>

record ffs_desc_v1_head =
  hd_magic :: u32
  hd_length :: u32
  hd_fs_count :: u32
  hd_hs_count :: u32

record usb_intf_desc =
  i_bLength :: u8
  i_bDescriptorType :: u8
  i_bInterfaceNumber :: u8
  i_bAlternateSetting :: u8
  i_bNumEndpoints :: u8
  i_bInterfaceClass :: u8
  i_bInterfaceSubClass :: u8
  i_bInterfaceProtocol :: u8
  i_iInterface :: u8

record usb_ep_desc =
  e_bLength :: u8
  e_bDescriptorType :: u8
  e_bEndpointAddress :: u8
  e_bmAttributes :: u8
  e_wMaxPacketSize :: u16
  e_bInterval :: u8

record usb_functionfs_strings_head =
  sh_magic :: u32
  sh_length :: u32
  sh_str_count :: u32
  sh_lang_count :: u32

record ffs_descriptors =
  d_head :: ffs_desc_v1_head
  d_intf_fs :: usb_intf_desc
  d_ep_in_fs :: usb_ep_desc
  d_ep_out_fs :: usb_ep_desc
  d_intf_hs :: usb_intf_desc
  d_ep_in_hs :: usb_ep_desc
  d_ep_out_hs :: usb_ep_desc

text \<open>
  Their bytes in memory, which \<^verbatim>\<open>write\<close> is given: the members one after the other, each with its low byte
  first.
\<close>

definition le16 :: "u16 \<Rightarrow> u8 list" where
  "le16 w = [ucast w, ucast (drop_bit 8 w)]"

definition le32 :: "u32 \<Rightarrow> u8 list" where
  "le32 w = [ucast w, ucast (drop_bit 8 w), ucast (drop_bit 16 w), ucast (drop_bit 24 w)]"

definition bytes_head :: "ffs_desc_v1_head \<Rightarrow> u8 list" where
  "bytes_head h = le32 (hd_magic h) @ le32 (hd_length h) @ le32 (hd_fs_count h) @ le32 (hd_hs_count h)"

definition bytes_intf :: "usb_intf_desc \<Rightarrow> u8 list" where
  "bytes_intf i =
     [i_bLength i, i_bDescriptorType i, i_bInterfaceNumber i, i_bAlternateSetting i, i_bNumEndpoints i,
      i_bInterfaceClass i, i_bInterfaceSubClass i, i_bInterfaceProtocol i, i_iInterface i]"

definition bytes_ep :: "usb_ep_desc \<Rightarrow> u8 list" where
  "bytes_ep e =
     [e_bLength e, e_bDescriptorType e, e_bEndpointAddress e, e_bmAttributes e] @
     le16 (e_wMaxPacketSize e) @ [e_bInterval e]"

definition bytes_descriptors :: "ffs_descriptors \<Rightarrow> u8 list" where
  "bytes_descriptors d =
     bytes_head (d_head d) @
     bytes_intf (d_intf_fs d) @ bytes_ep (d_ep_in_fs d) @ bytes_ep (d_ep_out_fs d) @
     bytes_intf (d_intf_hs d) @ bytes_ep (d_ep_in_hs d) @ bytes_ep (d_ep_out_hs d)"

definition bytes_strings :: "usb_functionfs_strings_head \<Rightarrow> u8 list" where
  "bytes_strings h = le32 (sh_magic h) @ le32 (sh_length h) @ le32 (sh_str_count h) @ le32 (sh_lang_count h)"

text \<open>\<^verbatim>\<open>sizeof\<close> of the packed structures.\<close>

definition sizeof_intf :: int where "sizeof_intf = 9"
definition sizeof_ep :: int where "sizeof_ep = 7"
definition sizeof_descriptors :: int where "sizeof_descriptors = 16 + 2 * (9 + 7 + 7)"

definition sizeof_strings :: int where "sizeof_strings = 16"

section \<open>The descriptors\<close>

definition LE16 :: "int \<Rightarrow> u16" where "LE16 x = word_of_int x"
definition LE32 :: "int \<Rightarrow> u32" where "LE32 x = word_of_int x"

text \<open>The magic numbers of \<^verbatim>\<open>linux/usb/functionfs.h\<close>.\<close>

definition FUNCTIONFS_DESCRIPTORS_MAGIC :: int where "FUNCTIONFS_DESCRIPTORS_MAGIC = 1"
definition FUNCTIONFS_STRINGS_MAGIC :: int where "FUNCTIONFS_STRINGS_MAGIC = 2"

definition vendor_intf :: usb_intf_desc where
  "vendor_intf =
     \<lparr>i_bLength = word_of_int sizeof_intf, i_bDescriptorType = 0x04, i_bInterfaceNumber = 0,
      i_bAlternateSetting = 0, i_bNumEndpoints = 2, i_bInterfaceClass = 0xFF,
      i_bInterfaceSubClass = 0x00, i_bInterfaceProtocol = 0x00, i_iInterface = 0\<rparr>"

definition bulk_ep :: "u8 \<Rightarrow> int \<Rightarrow> usb_ep_desc" where
  "bulk_ep addr sz =
     \<lparr>e_bLength = word_of_int sizeof_ep, e_bDescriptorType = 0x05, e_bEndpointAddress = addr,
      e_bmAttributes = 0x02, e_wMaxPacketSize = LE16 sz, e_bInterval = 0\<rparr>"

definition descriptors :: ffs_descriptors where
  "descriptors =
     \<lparr>d_head = \<lparr>hd_magic = LE32 FUNCTIONFS_DESCRIPTORS_MAGIC, hd_length = LE32 sizeof_descriptors,
                hd_fs_count = LE32 3, hd_hs_count = LE32 3\<rparr>,
      d_intf_fs = vendor_intf, d_ep_in_fs = bulk_ep 0x83 64, d_ep_out_fs = bulk_ep 0x02 64,
      d_intf_hs = vendor_intf, d_ep_in_hs = bulk_ep 0x83 512, d_ep_out_hs = bulk_ep 0x02 512\<rparr>"

definition ffs_strings :: usb_functionfs_strings_head where
  "ffs_strings = \<lparr>sh_magic = LE32 FUNCTIONFS_STRINGS_MAGIC, sh_length = LE32 sizeof_strings,
                  sh_str_count = LE32 0, sh_lang_count = LE32 0\<rparr>"

section \<open>The program\<close>

datatype ffs_call = Open_Ep0 string | Write_Ep0 "u8 list" | Write_Null | Read_Event | Close_Ep0

datatype ffs_event = BIND | UNBIND | ENABLE | DISABLE | SETUP | SUSPEND | RESUME

record ffs_env =
  fe_ret :: "ffs_call list \<Rightarrow> int"
  fe_eintr :: "ffs_call list \<Rightarrow> bool"
  fe_event :: "ffs_call list \<Rightarrow> ffs_event"

text \<open>The loop over the events of the endpoint.\<close>

partial_function (option) event_loop :: "ffs_env \<Rightarrow> ffs_call list \<Rightarrow> ffs_call list option" where
  "event_loop e tr =
     (let tr = tr @ [Read_Event] in
      if fe_ret e tr < 0 then (if fe_eintr e tr then event_loop e tr else Some tr)
      else if fe_event e tr = SETUP then event_loop e (tr @ [Write_Null])
      else if fe_event e tr = UNBIND then Some tr
      else event_loop e tr)"

definition ffs_main :: "ffs_env \<Rightarrow> string list \<Rightarrow> (int \<times> ffs_call list) option" where
  "ffs_main e args =
     (let ffs_dir = (case args of [] \<Rightarrow> ''/dev/usb-ffs/bulk1'' | a # _ \<Rightarrow> a);
          tr = [Open_Ep0 (snprintf_text 256 (ffs_dir @ ''/ep0''))]
      in
      if fe_ret e tr < 0 then Some (1, tr) else
      let tr = tr @ [Write_Ep0 (bytes_descriptors descriptors)] in
      if fe_ret e tr < 0 then Some (1, tr @ [Close_Ep0]) else
      let tr = tr @ [Write_Ep0 (bytes_strings ffs_strings)] in
      if fe_ret e tr < 0 then Some (1, tr @ [Close_Ep0]) else
      (case event_loop e tr of None \<Rightarrow> None | Some tr \<Rightarrow> Some (0, tr @ [Close_Ep0])))"

section \<open>The blocks as the kernel reads them\<close>











section \<open>The event loop\<close>

definition reads :: "ffs_call list \<Rightarrow> nat" where
  "reads tr = length (filter (\<lambda>c. c = Read_Event) tr)"

lemma reads_append [simp]: "reads (a @ b) = reads a + reads b"
  by (simp add: reads_def)

lemma reads_simps [simp]:
  "reads [] = 0" "reads [Read_Event] = 1" "reads [Write_Null] = 0"
  "reads [Read_Event, Write_Null] = 1"
  by (simp_all add: reads_def)

text \<open>What ends the loop: the gadget is unbound, or the read fails for good.\<close>

definition loop_ends :: "ffs_env \<Rightarrow> ffs_call list \<Rightarrow> bool" where
  "loop_ends e tr \<longleftrightarrow>
     (if fe_ret e tr < 0 then \<not> fe_eintr e tr else fe_event e tr = UNBIND)"

text \<open>
  C36. Termination: once the kernel has answered \<open>n\<close> reads, if from then on it reports that the gadget is
  unbound or that the read failed for good, the loop over the events returns; an interrupted read is
  repeated.
\<close>

theorem event_loop_returns:
  assumes "\<forall>tr. n \<le> reads tr \<longrightarrow> loop_ends e tr"
  shows "\<exists>tr'. event_loop e tr = Some tr'"
proof (induction "n - reads tr" arbitrary: tr rule: less_induct)
  case less
  let ?tr = "tr @ [Read_Event]"
  show ?case
  proof (cases "loop_ends e ?tr")
    case True
    then show ?thesis
      by (subst event_loop.simps) (auto simp: loop_ends_def Let_def split: if_splits)
  next
    case False
    then have "reads ?tr < n" using assms by (metis not_le)
    then have "n - reads ?tr < n - reads tr" "n - reads (?tr @ [Write_Null]) < n - reads tr" by simp_all
    then obtain t1 t2 where "event_loop e ?tr = Some t1" "event_loop e (?tr @ [Write_Null]) = Some t2"
      using less.hyps by blast
    then show ?thesis using False
      by (subst event_loop.simps) (auto simp: loop_ends_def Let_def split: if_splits)
  qed
qed

definition sample_ffs :: ffs_env where
  "sample_ffs = \<lparr>fe_ret = (\<lambda>tr. 12), fe_eintr = (\<lambda>tr. False),
                 fe_event = (\<lambda>tr. if reads tr < 3 then SETUP else UNBIND)\<rparr>"

lemma sample_ffs_ends: "\<forall>tr. 3 \<le> reads tr \<longrightarrow> loop_ends sample_ffs tr"
  by (simp add: sample_ffs_def loop_ends_def)

theorem event_loop_returns_witness: "\<exists>tr'. event_loop sample_ffs [] = Some tr'"
  by (rule event_loop_returns [OF sample_ffs_ends])

text \<open>
  The loop only reads events and, after a setup request, writes one empty reply; it stops at an event
  that ends it.
\<close>

inductive answered :: "ffs_env \<Rightarrow> ffs_call list \<Rightarrow> ffs_call list \<Rightarrow> bool" for e where
  none: "answered e pre []"
| reply: "\<not> fe_ret e (pre @ [Read_Event]) < 0 \<Longrightarrow> fe_event e (pre @ [Read_Event]) = SETUP \<Longrightarrow>
          answered e (pre @ [Read_Event, Write_Null]) cs \<Longrightarrow> answered e pre (Read_Event # Write_Null # cs)"
| other: "fe_ret e (pre @ [Read_Event]) < 0 \<or> fe_event e (pre @ [Read_Event]) \<noteq> SETUP \<Longrightarrow>
          answered e (pre @ [Read_Event]) cs \<Longrightarrow> answered e pre (Read_Event # cs)"

lemma event_loop_answers:
  assumes "event_loop e tr = Some tr'"
  shows "\<exists>evs. tr' = tr @ evs \<and> evs \<noteq> [] \<and> answered e tr evs \<and> loop_ends e tr'"
proof (rule event_loop.raw_induct [OF _ assms, where
    P = "\<lambda>e tr tr'. \<exists>evs. tr' = tr @ evs \<and> evs \<noteq> [] \<and> answered e tr evs \<and> loop_ends e tr'"])
  fix loop e tr res
  let ?tr = "tr @ [Read_Event]"
  assume IH: "\<And>e tr res. loop e tr = Some res \<Longrightarrow>
        \<exists>evs. res = tr @ evs \<and> evs \<noteq> [] \<and> answered e tr evs \<and> loop_ends e res"
    and body: "(let tr = tr @ [Read_Event] in
      if fe_ret e tr < 0 then (if fe_eintr e tr then loop e tr else Some tr)
      else if fe_event e tr = SETUP then loop e (tr @ [Write_Null])
      else if fe_event e tr = UNBIND then Some tr else loop e tr) = Some res"
  have "(loop_ends e ?tr \<and> Some res = Some ?tr) \<or>
     (\<not> fe_ret e ?tr < 0 \<and> fe_event e ?tr = SETUP \<and> loop e (?tr @ [Write_Null]) = Some res) \<or>
     (\<not> (\<not> fe_ret e ?tr < 0 \<and> fe_event e ?tr = SETUP) \<and> loop e ?tr = Some res)"
    unfolding loop_ends_def body [unfolded Let_def, symmetric] by simp
  then consider "loop_ends e ?tr" "res = ?tr"
    | "\<not> fe_ret e ?tr < 0" "fe_event e ?tr = SETUP" "loop e (?tr @ [Write_Null]) = Some res"
    | "\<not> (\<not> fe_ret e ?tr < 0 \<and> fe_event e ?tr = SETUP)" "loop e ?tr = Some res"
    by blast
  then show "\<exists>evs. res = tr @ evs \<and> evs \<noteq> [] \<and> answered e tr evs \<and> loop_ends e res"
  proof cases
    case 1
    then have "fe_ret e ?tr < 0 \<or> fe_event e ?tr \<noteq> SETUP" by (auto simp: loop_ends_def split: if_splits)
    then have "answered e tr [Read_Event]" by (rule answered.other) (rule answered.none)
    then show ?thesis using 1 by blast
  next
    case 2
    then obtain evs where "res = (?tr @ [Write_Null]) @ evs" "answered e (?tr @ [Write_Null]) evs" "loop_ends e res"
      using IH by blast
    then show ?thesis using 2 answered.reply [of e tr evs]
      by (intro exI [of _ "Read_Event # Write_Null # evs"]) simp
  next
    case 3
    then obtain evs where "res = ?tr @ evs" "answered e ?tr evs" "loop_ends e res"
      using IH by blast
    then show ?thesis using 3 answered.other [of e tr evs] by (intro exI [of _ "Read_Event # evs"]) auto
  qed
qed

lemma answered_calls: "answered e pre evs \<Longrightarrow> set evs \<subseteq> {Read_Event, Write_Null}"
  by (induction rule: answered.induct) auto

text \<open>The calls of the tool, by where it stops.\<close>

lemma ffs_main_cases:
  assumes "ffs_main e args = Some (code, tr)"
  obtains p where "fe_ret e [Open_Ep0 p] < 0" "code = 1" "tr = [Open_Ep0 p]"
  | p where "\<not> fe_ret e [Open_Ep0 p] < 0" "fe_ret e [Open_Ep0 p, Write_Ep0 (bytes_descriptors descriptors)] < 0"
      "tr = [Open_Ep0 p, Write_Ep0 (bytes_descriptors descriptors), Close_Ep0]"
  | p evs where "\<not> fe_ret e [Open_Ep0 p] < 0"
      "tr = [Open_Ep0 p, Write_Ep0 (bytes_descriptors descriptors), Write_Ep0 (bytes_strings ffs_strings)] @ evs @ [Close_Ep0]"
      "set evs \<subseteq> {Read_Event, Write_Null}"
proof -
  let ?dir = "case args of [] \<Rightarrow> ''/dev/usb-ffs/bulk1'' | a # _ \<Rightarrow> a"
  define p where "p = snprintf_text 256 (?dir @ ''/ep0'')"
  let ?w = "[Open_Ep0 p, Write_Ep0 (bytes_descriptors descriptors), Write_Ep0 (bytes_strings ffs_strings)]"
  consider "fe_ret e [Open_Ep0 p] < 0" "code = 1" "tr = [Open_Ep0 p]"
    | "\<not> fe_ret e [Open_Ep0 p] < 0" "fe_ret e [Open_Ep0 p, Write_Ep0 (bytes_descriptors descriptors)] < 0"
      "tr = [Open_Ep0 p, Write_Ep0 (bytes_descriptors descriptors), Close_Ep0]"
    | "\<not> fe_ret e [Open_Ep0 p] < 0" "tr = ?w @ [Close_Ep0]"
    | tr1 where "\<not> fe_ret e [Open_Ep0 p] < 0" "event_loop e ?w = Some tr1" "tr = tr1 @ [Close_Ep0]"
    using assms by (auto simp: ffs_main_def Let_def p_def split: if_splits option.splits)
  then show ?thesis
  proof cases
    case 3
    then show ?thesis using that(3) [of p "[]"] by simp
  next
    case 4
    then obtain evs where "tr1 = ?w @ evs" "answered e ?w evs" using event_loop_answers by blast
    then show ?thesis using 4 that(3) [of p evs] answered_calls by simp
  qed (use that(1,2) in blast)+
qed

text \<open>
  The control endpoint, once opened, is closed exactly once and as the last call by every run that
  returns; a run that cannot open it makes no other call and exits with 1.
\<close>

theorem ffs_main_closes:
  assumes "ffs_main e args = Some (code, tr)"
  shows "\<exists>p calls. tr = Open_Ep0 p # calls \<and>
           (if fe_ret e [Open_Ep0 p] < 0 then code = 1 \<and> calls = []
            else \<exists>body. calls = body @ [Close_Ep0] \<and> Close_Ep0 \<notin> set body)"
  using assms
proof (cases rule: ffs_main_cases)
  case (3 p evs)
  let ?b = "[Write_Ep0 (bytes_descriptors descriptors), Write_Ep0 (bytes_strings ffs_strings)] @ evs"
  show ?thesis using 3 by (intro exI [of _ p] exI [of _ "?b @ [Close_Ep0]"]) (auto intro!: exI [of _ ?b])
qed auto

theorem ffs_main_closes_witness:
  "ffs_main (sample_ffs\<lparr>fe_ret := \<lambda>tr. -1\<rparr>) [''/dev/ffs''] = Some (1, [Open_Ep0 ''/dev/ffs/ep0''])"
proof -
  obtain code tr where r: "ffs_main (sample_ffs\<lparr>fe_ret := \<lambda>tr. -1\<rparr>) [''/dev/ffs''] = Some (code, tr)"
      and p: "hd tr = Open_Ep0 ''/dev/ffs/ep0''"
    by (simp add: ffs_main_def Let_def cstring_simps)
  show ?thesis using r p ffs_main_closes [OF r] by auto
qed



end
