(* ===== verification/Spec2Isabelle.thy ===== *)
theory Spec2Isabelle
  imports Thread_Replies Waypoint_Log Tcp_Server_Runs Ffs_Init
begin

text \<open>
  \<^bold>\<open>A verification development for the PSDK bridge daemon\<close>

  The program is a C daemon for a companion computer of a DJI drone. It receives JSON-RPC requests as
  UDP datagrams, carries them out through the DJI Payload SDK and sends one JSON reply per request. A
  second build replaces the SDK by a stub. Beside the daemon the repository has a line-oriented TCP
  server that is not linked, and a tool that writes the USB descriptors of a FunctionFS gadget.

  \<^bold>\<open>How the parts interact.\<close> \<^verbatim>\<open>main\<close> parses the command line, starts the SDK (\<^verbatim>\<open>psdk_init\<close>, which registers
  the platform handlers of \<^verbatim>\<open>psdk_hal\<close>), initialises the drone operations (\<^verbatim>\<open>drone_ctrl_init\<close>, which
  subscribes to nine topics), creates the UDP server and polls it until a signal clears a flag; then it
  undoes these steps in reverse. A poll that receives a datagram calls \<^verbatim>\<open>handle_rpc\<close>, which parses it
  (\<^verbatim>\<open>rpc_parse\<close>), dispatches on the method to one of sixteen handlers, each of which calls one drone
  operation and sends one reply through \<^verbatim>\<open>udp_server_send\<close>. The SDK calls back with samples of the
  subscribed topics, which the drone operations cache and read.

  \<^bold>\<open>The model.\<close> Code is translated function by function, with the C names. Calls that leave the program
  (kernel, libc, SDK) are appended to a trace, and the environment answers a call as a function of the
  trace that ends with it; so the theorems quantify over everything the outside may do, subject to the
  hypotheses they name. Undefined behaviour is recorded on the trace as an event; where the program would go
  on (a cast, an overflowing sum) so does the model, with a value of the environment or the wrapped sum, and
  what a theorem says of the events after it holds of an execution in which it has no other effect. Machine integers are
  words; \<^verbatim>\<open>float\<close> and \<^verbatim>\<open>double\<close> are exact IEEE values with rounding (\<^verbatim>\<open>C_Float\<close>); C strings, \<^verbatim>\<open>snprintf\<close>
  buffers and \<^verbatim>\<open>atoi\<close> are modelled byte by byte. json-c is a parameter (\<^verbatim>\<open>json_lib\<close>) of which the theorems
  assume only that numbers come out as values of their C types (\<^const>\<open>json_lib_ok\<close>); the math library is a
  parameter with \<^const>\<open>libm_ok\<close> and, for the JSON theorems, \<^const>\<open>libm_finite\<close>; delivered samples are as the
  SDK documents them (\<^const>\<open>sample_ok\<close>); the clock is POSIX's monotonic one (\<^const>\<open>monotonic_clock\<close>). The application
  credentials and the sizes of the SDK's structures are arguments.

  \<^bold>\<open>Theories.\<close>
  \<^item> \<^verbatim>\<open>Psdk_Prelude\<close>, \<^verbatim>\<open>C_Format\<close>, \<^verbatim>\<open>C_Float\<close>: C strings and buffers, integer text and \<^verbatim>\<open>atoi\<close>, floating point and
    \<^verbatim>\<open>%.nf\<close>; the fact collections and generic lemmas.
  \<^item> \<^verbatim>\<open>Drone_Types\<close> (\<^verbatim>\<open>include/drone_types.h\<close>) and \<^verbatim>\<open>Environment\<close>: shared data, calls, traces, and what is assumed
    of the outside.
  \<^item> \<^verbatim>\<open>Log_Facility\<close> (\<^verbatim>\<open>core/log/log.c\<close>): the level filter and which stream each line goes to.
  \<^item> \<^verbatim>\<open>Rpc\<close> (\<^verbatim>\<open>core/proto/rpc.c\<close>): parsing, building replies, parameters; ownership of the JSON document.
  \<^item> \<^verbatim>\<open>Udp_Server\<close> (\<^verbatim>\<open>core/server/udp_server.c\<close>): create, poll, send, destroy; the locale \<^verbatim>\<open>udp_handler\<close> is the
    contract of a message callback, under which a poll answers at most its sender.
  \<^item> \<^verbatim>\<open>Drone_Ctrl_Api\<close> (\<^verbatim>\<open>bsp/drone_ctrl.h\<close>): the provider interface and its locale \<^verbatim>\<open>drone_bsp\<close>.
    \<^verbatim>\<open>Drone_Stub\<close> and \<^verbatim>\<open>Drone_Real\<close> (\<^verbatim>\<open>bsp/drone_ctrl.c\<close>, both builds) interpret it; \<^verbatim>\<open>Drone_Real_Props\<close> holds
    the theorems on heading, freshness, the nine caches (locale \<^verbatim>\<open>topic_cache\<close>, interpreted nine times), the
    battery fallback, the waypoint manager and the resources of an upload.
  \<^item> \<^verbatim>\<open>Handler\<close> (\<^verbatim>\<open>core/handler/handler.c\<close>): the sixteen handlers and the dispatcher. \<^verbatim>\<open>Handler_Replies\<close> shows, for
    every provider that keeps \<^verbatim>\<open>drone_bsp\<close>, that a request gets one reply. \<^verbatim>\<open>Handler_Spec\<close> has the abstract
    service (method table, decoding to an action, carrying it out, a reply of any length), the refinement
    of it by the handlers, and the bounds on replies; its locale \<^verbatim>\<open>bounded_bsp\<close> extends \<^verbatim>\<open>drone_bsp\<close>.
  \<^item> \<^verbatim>\<open>Linked_Builds\<close>: both providers with the handlers; interpretations of \<^verbatim>\<open>udp_handler\<close> and \<^verbatim>\<open>bounded_bsp\<close>.
  \<^item> \<^verbatim>\<open>Json_Text\<close>: the client's side of the wire, the JSON grammar of RFC 8259 as an executable reader with
    its printer, their round trip and the value of a printed number. \<^verbatim>\<open>Json_Replies\<close>: every reply body is a
    printed document; the locale \<^verbatim>\<open>json_readings\<close>, interpreted on the hardware build, asks for finite readings
    and gives that every reply without a file name that needs an escape is JSON; a reading that is not finite
    makes its reply no JSON, which clients of the development build can bring about.
  \<^item> \<^verbatim>\<open>Psdk_Platform\<close> (\<^verbatim>\<open>bsp/psdk_hal.c\<close>, \<^verbatim>\<open>bsp/psdk_init.c\<close>, \<^verbatim>\<open>bsp/dji_sdk_config.h\<close>): registration and start of the
    SDK, proved equal to a plan of calls; the console callback.
  \<^item> \<^verbatim>\<open>Daemon_Main\<close> (\<^verbatim>\<open>app/main.c\<close>): options, startup, loop, shutdown; the locale \<^verbatim>\<open>daemon_build\<close>, interpreted on
    both builds, gives that the program returns and closes its descriptors.
  \<^item> \<^verbatim>\<open>Daemon_System\<close>: the serving hardware daemon as one state, with two actions, a turn of the poll loop and
    the delivery of a sample; runs are sequences of actions. It has the statistics of the topics in every reachable
    state, the answer to a request after any run, telemetry from the delivered sample to the number the client reads
    (locale \<^verbatim>\<open>daemon_cache\<close> over \<^verbatim>\<open>topic_cache\<close>), and that the loop of \<^verbatim>\<open>main\<close> is a sequence of turns.
  \<^item> \<^verbatim>\<open>Shared_Memory\<close>, \<^verbatim>\<open>Sdk_Threads\<close>, \<^verbatim>\<open>Thread_Replies\<close> (\<^verbatim>\<open>bsp/drone_ctrl.c\<close>): the SDK's thread and the main
    thread on the shared caches. A thread is a tree of single accesses, two threads run under any schedule,
    and a reading is judged against everything the callbacks may store in between (rely and guarantee).
    The three readings and nine callbacks are given access by access; a serial schedule is the atomic
    model; the locale \<^verbatim>\<open>shared_reading\<close>, interpreted on the three readings, gives that a reading ends and
    what it establishes. The operations disturbed in this way interpret \<^verbatim>\<open>bounded_bsp\<close> and \<^verbatim>\<open>json_readings\<close>,
    so that every request is still answered by one JSON object; what races do break (a position mixed
    from two samples, a fresh topic taken for stale) is proved too.
  \<^item> \<^verbatim>\<open>Waypoint_Log\<close> (\<^verbatim>\<open>bsp/drone_ctrl.c\<close>): the two callbacks of the waypoint manager, which log.
  \<^item> \<^verbatim>\<open>Tcp_Server\<close>, \<^verbatim>\<open>Tcp_Server_Props\<close>, \<^verbatim>\<open>Tcp_Server_Runs\<close> (\<^verbatim>\<open>core/server/tcp_server.c\<close>): the client table and the cutting
    of a stream into lines; the invariant along runs, the lines across rounds of reading, and what is lost at the end of a
    stream.
  \<^item> \<^verbatim>\<open>Ffs_Init\<close> (\<^verbatim>\<open>tools/ffs_init.c\<close>): the descriptor bytes, that they are a block as the kernel documents it,
    and the event loop.
  \<^item> \<^verbatim>\<open>Sample_Env\<close>: one concrete environment and JSON library on which the hypotheses hold together.
  \<^item> This theory: the properties that span components.

  \<^bold>\<open>Bounds and loops.\<close> A reading has its result after 41, 20 or 3
  steps of its own under every schedule. Loops over data are total functions with a measure (\<^verbatim>\<open>drain\<close>, \<^verbatim>\<open>line_loop\<close>). The poll
  loop of the daemon and the event loop of the tool may run for ever; they are partial functions into
  \<^verbatim>\<open>option\<close>, and that they return is proved for a signal, or an ending event, that arrives after finitely
  many polls or reads. Only the JSON reader has fuel, the length of its text, since every nested call has
  consumed a byte; that this is enough for every printed document is proved. The wire theorems take file names up to 2000 bytes
  (\<^const>\<open>name_fits\<close>), which keeps the reply to an upload below the 4096-byte buffer; what happens beyond is a theorem
  of its own. Those on JSON also take names without quote, backslash and control characters (\<^const>\<open>name_plain\<close>),
  since the reply repeats the name without an escape; a name that ends in a quote gives a reply that is no
  JSON (\<^verbatim>\<open>upload_name_quote\<close>).

  \<^bold>\<open>Not modelled.\<close> The text of log lines written by the components (only the facility, the console
  callback and the waypoint callbacks are modelled), \<^verbatim>\<open>perror\<close> and the progress messages of the tool; \<^verbatim>\<open>inet_ntoa\<close> texts that are only
  logged; \<^verbatim>\<open>errno\<close> beyond would-block and interrupt; tearing of a single scalar and reordering of accesses by the
  compiler or the memory, since the threads of the model access one scalar at a time in source order;
  the OSAL and HAL functions the handler tables name, which are sources of the SDK's
  sample project and not in the repository; shell and Python scripts, the build, the documents and the
  mission files; the credentials header, whose values are arguments.
\<close>

section \<open>Answering a request\<close>

lemma is_reply_text: "is_reply i (reply_text i rep)"
  by (cases rep) (auto simp: is_reply_def)

lemma real_wire_initial: "real_wire_inv env0 real_initial"
  using real_inv_initial env0_libm
  by (simp add: real_wire_inv_def real_samples_ok_def zoom_ok_def real_initial_def fp_bounded_def
      in_range_def f32_def pow2_def)

text \<open>
  C6. In the hardware build, with the server set and samples as the SDK documents them, a request that
  parses as a JSON object with a method, and whose file name, if it has one, is at most 2000 bytes long, is
  answered by exactly one datagram, whatever the method, its other parameters and the answers of the SDK:
  the calls the operation makes contain no network call, they are followed by one datagram to the sender
  that is complete and carries a result or an error under the id of the request, and the JSON document is
  released last. The handler keeps its server and the state stays one in which this holds.
\<close>

theorem real_request_one_reply:
  assumes "json_lib_ok jl" and "real_wire_inv e (hs_bsp s)" and "g_srv s = Some fd"
    and "rpc_parse jl line = ((0, req), jops)"
    and "name_fits (action_of jl (req_method req) (req_params req))"
    and "handle_rpc e (real_ops e) jl peer line len s tr = (r, s', tr')"
  shows "real_wire_inv e (hs_bsp s') \<and> g_srv s' = Some fd \<and>
    (\<exists>evs text. tr' = tr @ map Json jops @ evs @ [Net (Sendto fd peer text), Json Root_Put] \<and>
       (\<forall>ev \<in> set evs. \<not> is_net ev) \<and> is_reply (req_id req) text)"
proof -
  let ?a = "action_of jl (req_method req) (req_params req)"
  obtain evs msg where p: "real_wire_inv e (hs_bsp s')" "g_srv s' = Some fd" "\<forall>ev \<in> set evs. bsp_ev ev"
      "tr' = tr @ map Json jops @ evs @ [reply_event (Some fd) peer msg, Json Root_Put]"
    using drone_bsp.handle_rpc_parsed [OF real_wire.drone_bsp_axioms assms(1,2,4,6)] assms(3) by auto
  obtain rep h tr1 where P: "perform e (real_ops e) ?a s (tr @ map Json jops) = (rep, h, tr1)"
    by (cases "perform e (real_ops e) ?a s (tr @ map Json jops)") auto
  have "g_srv h = Some fd" using perform_g_srv [OF P] assms(3) by simp
  from real_wire.handle_rpc_wire [OF assms(1,2) this assms(4) P assms(5), of peer len] assms(6)
  have "tr' = tr1 @ [Net (Sendto fd peer (reply_text (req_id req) rep)), Json Root_Put]" by simp
  then have "reply_event (Some fd) peer msg = Net (Sendto fd peer (reply_text (req_id req) rep))" using p(4) by simp
  then show ?thesis using p bsp_ev_not_net by (auto intro!: is_reply_text)
qed

theorem real_request_one_reply_witness:
  "\<exists>s' evs text. handle_rpc env0 (real_ops env0) (one_request ''drone.get_telemetry'' []) peer0 ''L'' 1
       (served_by real_initial) [] =
       (0, s', map Json [Tok_New, Root_New, Tok_Free] @ evs @ [Net (Sendto 3 peer0 text), Json Root_Put]) \<and>
     is_reply 7 text"
proof -
  let ?lib = "one_request ''drone.get_telemetry'' []"
  obtain r s' tr' where run: "handle_rpc env0 (real_ops env0) ?lib peer0 ''L'' 1 (served_by real_initial) [] =
      (r, s', tr')" by (cases "handle_rpc env0 (real_ops env0) ?lib peer0 ''L'' 1 (served_by real_initial) []") auto
  moreover have "r = 0" using run handle_rpc_zero [of env0 "real_ops env0" ?lib peer0 "''L''" 1] by (metis fst_conv)
  moreover have "name_fits (action_of ?lib ''drone.get_telemetry'' p)" for p
    by (simp add: action_of_def method_table_def name_fits_def)
  ultimately show ?thesis
    using real_request_one_reply [OF one_request_ok _ _ parse_one_request _ run] real_wire_initial by auto
qed

text \<open>
  C7. The hardware build opens no file outside the upload directory while it handles a line, whatever
  the line says: a path it opens is the directory, a slash and a name without slash and without two
  adjacent dots, cut to 4095 bytes.
\<close>

theorem real_opens_confined:
  assumes "json_lib_ok jl" and "real_inv (hs_bsp s)"
    and "handle_rpc e (real_ops e) jl peer line len s tr = (r, s', tr @ evs)"
    and "File (Fopen path) \<in> set evs"
  shows "\<exists>name. name \<noteq> [] \<and> CHR ''/'' \<notin> set name \<and> (\<nexists>a b. name = a @ ''..'' @ b) \<and>
           path = take 4095 (''/home/orangepi/PSDK/kmz_data/'' @ name)"
proof -
  obtain rc req jops where p: "rpc_parse jl line = ((rc, req), jops)"
    by (cases "rpc_parse jl line") auto
  have rc: "rc = 0"
    using assms(3,4) p handle_rpc_rejected [of jl line e "real_ops e" peer len s tr] by (cases "rc = 0") auto
  obtain es body where ev: "evs = map Json jops @ es @ [reply_event (g_srv s) peer body, Json Root_Put]"
      and es: "\<forall>ev \<in> set es. bsp_ev ev"
    using drone_bsp.handle_rpc_parsed [OF real.drone_bsp_axioms assms(1,2) p [unfolded rc] assms(3)] by auto
  have "File (Fopen path) \<noteq> reply_event (g_srv s) peer body" by (simp add: reply_event_def split: option.split)
  then have "File (Fopen path) \<in> set es" using assms(4) ev by auto
  then have "kmz_path path" using es by fastforce
  then obtain n where n: "n \<noteq> []" "NUL \<notin> set n" "\<not> strstr n ''..''" "\<not> strchr n (CHR ''/'')"
      "path = snprintf_text PATH_MAX (KMZ_BASE_DIR @ ''/'' @ n)" by (auto simp: kmz_path_def)
  have "path = take 4095 (KMZ_BASE_DIR @ ''/'' @ n)"
    using n(2,5) snprintf_text_cut [of "KMZ_BASE_DIR @ ''/'' @ n" PATH_MAX]
    by (simp add: KMZ_BASE_DIR_no_NUL PATH_MAX_def)
  then show ?thesis using n by (intro exI [of _ n]) (auto simp: strstr_iff strchr_def KMZ_BASE_DIR_def)
qed

lemma waypoint_flag_initial: "\<not> s_waypoint_v3_inited real_initial"
  by (simp add: real_initial_def)

lemma sample_upload_opens:
  "File (Fopen ''/home/orangepi/PSDK/kmz_data/a.kmz'') \<in>
     set (snd (snd (handle_rpc env0 (real_ops env0) (one_request ''drone.upload_kmz'' [(''file'', JStr ''a.kmz'')])
       peer0 ''L'' 1 (served_by real_initial) [])))"
  by (simp add: handle_rpc_def one_request_def parse_req_doc dispatch_def h_drone_upload_kmz_def rpc_param_str_def
      run_bsp_def real_ops_def real_upload_kmz_def ensure_waypoint_v3_ready_def waypoint_flag_initial dji_def
      libc_def kmz_read_upload_def send_events KMZ_BASE_DIR_def PATH_MAX_def cstring_simps strchr_def
      dji_result_def rpc_request_free_def Let_def)

theorem real_opens_confined_witness:
  "\<exists>name. name \<noteq> [] \<and> CHR ''/'' \<notin> set name \<and> (\<nexists>a b. name = a @ ''..'' @ b) \<and>
     ''/home/orangepi/PSDK/kmz_data/a.kmz'' = take 4095 (''/home/orangepi/PSDK/kmz_data/'' @ name)"
proof -
  let ?lib = "one_request ''drone.upload_kmz'' [(''file'', JStr ''a.kmz'')]"
  obtain r s' tr' where run: "handle_rpc env0 (real_ops env0) ?lib peer0 ''L'' 1 (served_by real_initial) [] =
      (r, s', [] @ tr')"
    by (cases "handle_rpc env0 (real_ops env0) ?lib peer0 ''L'' 1 (served_by real_initial) []") auto
  show ?thesis
    by (rule real_opens_confined [OF one_request_ok _ run]) (use real_inv_initial sample_upload_opens run in auto)
qed

text \<open>
  C8. A line that is not a JSON object with a method is dropped: the state is unchanged, nothing is
  sent, and what the parser allocated is released.
\<close>

theorem malformed_line_dropped:
  assumes "\<nexists>doc m. json_tokener_parse_ex jl (cstr line) = Some doc \<and> json_is_object jl doc \<and>
             json_object_object_get_ex jl doc ''method'' = Some m"
  shows "\<exists>jops. handle_rpc e ops jl peer line len s tr = (0, s, tr @ map Json jops) \<and>
           count_list jops Root_New = count_list jops Root_Put \<and>
           count_list jops Tok_New = 1 \<and> count_list jops Tok_Free = 1"
proof -
  obtain rc req jops where p: "rpc_parse jl line = ((rc, req), jops)"
    by (cases "rpc_parse jl line") auto
  have rc: "rc \<noteq> 0" using rpc_parse_ok_iff [of jl line] assms by (simp add: p)
  have "json_life jl line = jops" using rc by (simp add: json_life_def p)
  then show ?thesis using json_life_balanced [of jl line] handle_rpc_rejected [of jl line e ops peer len s tr] rc
    by (auto simp: p)
qed

theorem malformed_line_dropped_witness:
  "\<exists>jops. handle_rpc env0 (stub_ops env0) (table_lib [(''L'', JObj [(''id'', JInt 7)])]) peer0 ''L'' 1
       (served_by stub_initial) [] = (0, served_by stub_initial, map Json jops) \<and>
     count_list jops Root_New = count_list jops Root_Put"
proof -
  have "\<nexists>doc m. json_tokener_parse_ex (table_lib [(''L'', JObj [(''id'', JInt 7)])]) (cstr ''L'') = Some doc \<and>
       json_is_object (table_lib [(''L'', JObj [(''id'', JInt 7)])]) doc \<and>
       json_object_object_get_ex (table_lib [(''L'', JObj [(''id'', JInt 7)])]) doc ''method'' = Some m"
    by (simp add: cstring_simps)
  from malformed_line_dropped [OF this, of env0 "stub_ops env0" peer0 1 "served_by stub_initial" "[]"]
  show ?thesis by auto
qed

section \<open>The service behind the buffers\<close>

text \<open>
  C4. Refinement, development build: for every request whose file name, if it has one, is at most 2000
  bytes long, the daemon behaves as the abstract service, which reads the request as an action, carries
  it out and forms a reply of any length. The datagram that goes back to the sender is the whole text
  of that reply: no buffer of the handlers cuts it.
\<close>

theorem stub_service_refined:
  assumes "json_lib_ok jl" and "libm_ok e" and "stub_inv (hs_bsp s)" and "g_srv s = Some fd"
    and "rpc_parse jl line = ((0, req), jops)"
    and "perform e (stub_ops e) (action_of jl (req_method req) (req_params req)) s (tr @ map Json jops) =
           (rep, s', tr1)"
    and "name_fits (action_of jl (req_method req) (req_params req))"
  shows "handle_rpc e (stub_ops e) jl peer line len s tr =
           (0, s', tr1 @ [Net (Sendto fd peer (reply_text (req_id req) rep)), Json Root_Put])"
  using stub_wire.handle_rpc_wire [OF assms(1) _ _ assms(5-7), of fd peer len] assms(2-4)
    perform_g_srv [OF assms(6)]
  by (simp add: stub_wire_inv_def)

theorem stub_service_refined_witness:
  "handle_rpc env0 (stub_ops env0) (one_request ''drone.set_camera_mode'' [(''mode'', JInt 1)]) peer0 ''L'' 1
     (served_by stub_initial) [] =
   (0, (served_by stub_initial)\<lparr>hs_bsp := stub_initial\<lparr>g_stub_cam_mode := 1\<rparr>\<rparr>,
    map Json [Tok_New, Root_New, Tok_Free] @ [Net (Sendto 3 peer0 (result_text 7 ''{}'')), Json Root_Put])"
proof -
  let ?lib = "one_request ''drone.set_camera_mode'' [(''mode'', JInt 1)]"
  let ?req = "request_of ''drone.set_camera_mode'' [(''mode'', JInt 1)]"
  have a: "action_of ?lib (req_method ?req) (req_params ?req) = Do_Camera_Mode 1"
    by (simp add: action_of_def method_table_def rpc_param_int_def one_request_def refuse_if_def)
  have p: "perform env0 (stub_ops env0) (Do_Camera_Mode 1) (served_by stub_initial)
      ([] @ map Json [Tok_New, Root_New, Tok_Free]) =
      (Result ''{}'', (served_by stub_initial)\<lparr>hs_bsp := stub_initial\<lparr>g_stub_cam_mode := 1\<rparr>\<rparr>,
       map Json [Tok_New, Root_New, Tok_Free])"
    by (simp add: act_def run_bsp_def stub_ops_def stub_set_camera_mode_def status_reply_def)
  have rp: "rpc_parse ?lib ''L'' = ((0, ?req), [Tok_New, Root_New, Tok_Free])"
    by (rule parse_one_request) simp_all
  show ?thesis
    using stub_service_refined [OF one_request_ok env0_libm _ _ rp p [folded a], of 3 peer0 1]
    by (simp add: a [simplified] name_fits_def stub_inv_initial)
qed

text \<open>
  C3. Refinement, hardware build: the same, for samples as the SDK documents them (positions in
  radians, gimbal angles in degrees, a zoom factor that is a \<^verbatim>\<open>float\<close>).
\<close>

theorem real_service_refined:
  assumes "json_lib_ok jl" and "real_wire_inv e (hs_bsp s)" and "g_srv s = Some fd"
    and "rpc_parse jl line = ((0, req), jops)"
    and "perform e (real_ops e) (action_of jl (req_method req) (req_params req)) s (tr @ map Json jops) =
           (rep, s', tr1)"
    and "name_fits (action_of jl (req_method req) (req_params req))"
  shows "handle_rpc e (real_ops e) jl peer line len s tr =
           (0, s', tr1 @ [Net (Sendto fd peer (reply_text (req_id req) rep)), Json Root_Put])"
  using real_wire.handle_rpc_wire [OF assms(1,2) _ assms(4-6), of fd peer len] assms(3)
    perform_g_srv [OF assms(5)]
  by simp

theorem real_service_refined_witness:
  "handle_rpc env0 (real_ops env0) (one_request ''drone.shoot_photo'' []) peer0 ''L'' 1
     (served_by real_initial) [] =
   (0, served_by real_initial,
    map Json [Tok_New, Root_New, Tok_Free] @ [Cam DjiCameraManager_StartShootPhoto] @
    [Net (Sendto 3 peer0 (result_text 7 ''{}'')), Json Root_Put])"
proof -
  let ?lib = "one_request ''drone.shoot_photo'' []"
  let ?req = "request_of ''drone.shoot_photo'' []"
  have a: "action_of ?lib (req_method ?req) (req_params ?req) = Do_Simple Shoot_Photo"
    by (simp add: action_of_def method_table_def)
  have p: "perform env0 (real_ops env0) (Do_Simple Shoot_Photo) (served_by real_initial)
      ([] @ map Json [Tok_New, Root_New, Tok_Free]) =
      (Result ''{}'', served_by real_initial,
       map Json [Tok_New, Root_New, Tok_Free] @ [Cam DjiCameraManager_StartShootPhoto])"
    by (simp add: act_def run_bsp_def real_ops_def real_shoot_photo_def dji_def dji_result_def status_reply_def)
  have rp: "rpc_parse ?lib ''L'' = ((0, ?req), [Tok_New, Root_New, Tok_Free])"
    by (rule parse_one_request) simp_all
  show ?thesis
    using real_service_refined [OF one_request_ok _ _ rp p [folded a], of 3 peer0 1]
    by (simp add: a [simplified] name_fits_def real_wire_initial)
qed

text \<open>
  Round trip of the request id: a client that reads the number after the six bytes
  \<^verbatim>\<open>{"id":\<close> of a reply gets back the id of its request, for results and for errors.
\<close>

theorem reply_id_roundtrip:
  assumes "json_lib_ok jl" and "rpc_parse jl line = ((0, req), jops)"
  shows "atoi (drop 6 (reply_text (req_id req) rep)) = req_id req"
proof -
  have c: "\<not> is_digit (CHR '','')" by (simp add: is_digit_def)
  have i: "- (2 ^ 31) \<le> req_id req" "req_id req < 2 ^ 31"
    using rpc_parse_id_range [OF assms(1), of line] assms(2) by simp_all
  show ?thesis using atoi_stop [OF c i] by (cases rep) (simp_all add: result_text_def error_text_def)
qed

theorem reply_id_roundtrip_witness:
  "atoi (drop 6 (reply_text 7 (Error ''method not found''))) = 7"
  using reply_id_roundtrip [OF one_request_ok parse_one_request [of "''drone.fly''" "[]"],
      of "Error ''method not found''"]
  by simp

text \<open>
  C18. The reply to an upload repeats the file name twice. For a name of 2007 to 2046 bytes, which a
  datagram of 4095 bytes can hold, the reply is longer than its 4096-byte buffer; the builder returns
  the full length instead of a failure, and the send reads past the buffer. Nothing is sent.
\<close>

theorem upload_reply_overrun:
  assumes "rpc_parse jl line = ((0, req), jops)"
    and "action_of jl (req_method req) (req_params req) = Do_Upload name"
    and "2007 \<le> length name" and "length name \<le> 2046" and "g_srv s = Some fd"
  shows "handle_rpc e (stub_ops e) jl peer line len s tr =
    (0, s, tr @ map Json jops @
       [UB (Over_Read (83 + length (fmt_d (req_id req)) + 2 * length name) 4096), Json Root_Put])"
proof -
  let ?body = "uploaded_json name (KMZ_BASE_DIR @ ''/'' @ name)"
  let ?tr1 = "tr @ map Json jops"
  have n: "NUL \<notin> set name" using action_of_upload_no_NUL [OF assms(2)] .
  have P: "perform e (stub_ops e) (Do_Upload name) s ?tr1 = (Result ?body, s, ?tr1)"
    by (simp add: act_def run_bsp_def stub_ops_def stub_upload_kmz_def status_reply_def Let_def KMZ_BASE_DIR_def)
  have "?body \<noteq> []" "NUL \<notin> set ?body"
    using n by (auto simp: uploaded_json_def KMZ_BASE_DIR_no_NUL jkey_def)
  then have f: "fits (Do_Upload name) (Result ?body)"
    using n assms(4) length_uploaded_json [of name] by (simp add: fits_def PATH_MAX_def KMZ_BASE_DIR_def)
  have l: "length (result_text (req_id req) ?body) = 83 + length (fmt_d (req_id req)) + 2 * length name"
    by (simp only: length_result_text length_uploaded_json)
  have "fmt_d (req_id req) \<noteq> []" by (simp add: fmt_d_def)
  then have o: "DRONE_MAX_MSG_LEN < length (result_text (req_id req) ?body)"
    using assms(3) unfolding l by (cases "fmt_d (req_id req)") (auto simp: drone_limits)
  show ?thesis
    using handle_rpc_refines [OF assms(1) P [folded assms(2)] f [folded assms(2)], of peer len]
      reply_event_over [OF o, of fd peer] assms(5) l by (simp add: drone_limits)
qed

lemma strstr_replicate: "a \<noteq> hd pat \<Longrightarrow> pat \<noteq> [] \<Longrightarrow> \<not> strstr (replicate n a) pat"
  by (induction n) (cases pat; auto)+

theorem upload_reply_overrun_witness:
  "handle_rpc env0 (stub_ops env0) (one_request ''drone.upload_kmz'' [(''file'', JStr (replicate 2010 (CHR ''a'')))])
     peer0 ''L'' 1 (served_by stub_initial) [] =
   (0, served_by stub_initial,
    map Json [Tok_New, Root_New, Tok_Free] @ [UB (Over_Read 4104 4096), Json Root_Put])"
proof -
  let ?ps = "[(''file'', JStr (replicate 2010 (CHR ''a'')))]"
  let ?lib = "one_request ''drone.upload_kmz'' ?ps"
  let ?req = "request_of ''drone.upload_kmz'' ?ps"
  have s: "\<not> strstr (replicate 2010 (CHR ''a'')) ''..''" by (rule strstr_replicate) simp_all
  have nn: "NUL \<notin> set (replicate 2010 (CHR ''a''))" by (simp)
  have "rpc_param_str ?lib (Some (JObj ?ps)) ''file'' = Some (replicate 2010 (CHR ''a''))"
    using nn by (simp add: rpc_param_str_def one_request_def cstr_id)
  then have a: "action_of ?lib (req_method ?req) (req_params ?req) = Do_Upload (replicate 2010 (CHR ''a''))"
    using s by (simp add: action_of_def method_table_def refuse_if_def strchr_def)
  have rp: "rpc_parse ?lib ''L'' = ((0, ?req), [Tok_New, Root_New, Tok_Free])"
    by (rule parse_one_request) simp_all
  have "fmt_d 7 = ''7''" by code_simp
  then show ?thesis
    using upload_reply_overrun [OF rp a, of "served_by stub_initial" 3 env0 peer0 1 "[]"]
    by (simp)
qed

text \<open>
  C19. The guard on a new home location: the request is carried out exactly when latitude and longitude
  are within 90 and 180 degrees or not a number, since every comparison with NaN is false; all other
  values, infinities included, and missing ones are refused without any call to the SDK.
\<close>

theorem home_location_guard:
  fixes jl :: "'j json_lib" and params :: "'j option"
  assumes "json_lib_ok jl"
  defines "lat \<equiv> rpc_param_double jl params ''lat'' (Fin False 999)"
    and "lon \<equiv> rpc_param_double jl params ''lon'' (Fin False 999)"
    and "alt \<equiv> to_f32 (rpc_param_double jl params ''alt_m'' fzero)"
  shows "h_drone_set_home_location e ops jl peer i params s tr =
     (if passes_range 90 lat \<and> passes_range 180 lon
      then reply_status e peer i ''PSDK set home location failed''
             (run_bsp (op_set_home_location ops \<lparr>h_lat = lat, h_lon = lon, h_alt_m = alt\<rparr>) s tr)
      else (s, tr @ [reply_event (g_srv s) peer (error_text i ''missing or invalid params: lat, lon'')]))"
proof -
  have r: "in_range f64 (rpc_param_double jl params k (Fin False 999))" for k
    using assms(1) by (auto simp: rpc_param_double_def json_lib_ok_def in_range_999 split: option.split)
  show ?thesis
    unfolding h_drone_set_home_location_def lat_def lon_def alt_def
    using range_guard [OF r, of 90 "''lat''"] range_guard [OF r, of 180 "''lon''"]
    by (auto simp: Let_def send_error_event)
qed

theorem home_location_guard_witness:
  "h_drone_set_home_location env0 (stub_ops env0)
     (one_request ''drone.set_home_location'' [(''lat'', JNum (NaN False)), (''lon'', JNum (NaN False))]) peer0 7
     (Some (JObj [(''lat'', JNum (NaN False)), (''lon'', JNum (NaN False))])) (served_by stub_initial) [] =
   (served_by stub_initial, [Net (Sendto 3 peer0 (result_text 7 ''{}''))])"
proof -
  have t: "length (result_text 7 ''{}'') < DRONE_MAX_MSG_LEN"
    using length_fmt_d [of 1 7] by (simp add: length_result_text drone_limits)
  show ?thesis
  using home_location_guard [OF one_request_ok, of env0 "stub_ops env0" _ _ peer0 7
      "Some (JObj [(''lat'', JNum (NaN False)), (''lon'', JNum (NaN False))])" "served_by stub_initial" "[]"]
  by (simp add: rpc_param_double_def one_request_def passes_range_def in_range_def reply_status_def run_bsp_def
      stub_ops_def stub_set_home_location_def send_empty_result reply_event_fits [OF t])
qed

text \<open>
  C27. The return-to-home altitude, from the request to the SDK: a negative or missing one is refused
  without a call; one from 0 up to below 65536 metres is passed on rounded down, in exactly one call,
  and the reply tells whether it succeeded; anything larger, infinity and NaN reach the cast to
  \<^verbatim>\<open>uint16_t\<close>, where the behaviour of the program is undefined.
\<close>

theorem rth_altitude_cast:
  fixes jl :: "'j json_lib" and params :: "'j option"
  assumes "json_lib_ok jl"
  defines "x \<equiv> to_f32 (rpc_param_double jl params ''altitude_m'' (Fin True 1))"
  shows "(flt x fzero \<longrightarrow>
            h_drone_set_rth_altitude e (real_ops e) jl peer i params s tr =
              (s, tr @ [reply_event (g_srv s) peer (error_text i ''missing param: altitude_m'')])) \<and>
         (\<forall>b m. x = Fin b m \<longrightarrow> \<not> flt x fzero \<longrightarrow> m < 65536 \<longrightarrow>
            0 \<le> \<lfloor>m\<rfloor> \<and> \<lfloor>m\<rfloor> < 65536 \<and>
            h_drone_set_rth_altitude e (real_ops e) jl peer i params s tr =
              (let tr1 = tr @ [FC (DjiFlightController_SetGoHomeAltitude \<lfloor>m\<rfloor>)]
               in (s, tr1 @ [reply_event (g_srv s) peer
                     (if env_dji_ok e tr1 then result_text i ''{}''
                      else error_text i ''PSDK set rth altitude failed'')]))) \<and>
         (\<not> flt x fzero \<longrightarrow> (\<forall>b m. x = Fin b m \<longrightarrow> 65536 \<le> m) \<longrightarrow>
            UB (Float_Cast x) \<in> set (snd (h_drone_set_rth_altitude e (real_ops e) jl peer i params s tr)))"
proof -
  let ?h = "h_drone_set_rth_altitude e (real_ops e) jl peer i params s tr"
  have r: "in_range f32 x"
    using in_range_param [OF assms(1), of "Fin True 1" params "''altitude_m''"] in_range_default(2)
    by (simp add: x_def)
  have h: "?h = (if flt x fzero then (s, send_error e peer i ''missing param: altitude_m'' s tr)
      else reply_status e peer i ''PSDK set rth altitude failed'' (run_bsp (real_set_rth_altitude e x) s tr))"
    by (simp add: h_drone_set_rth_altitude_def x_def real_ops_def)
  have c1: "?h = (s, tr @ [reply_event (g_srv s) peer (error_text i ''missing param: altitude_m'')])"
    if "flt x fzero" using that by (simp add: h send_error_event)
  have c2: "0 \<le> \<lfloor>m\<rfloor> \<and> \<lfloor>m\<rfloor> < 65536 \<and>
      ?h = (let tr1 = tr @ [FC (DjiFlightController_SetGoHomeAltitude \<lfloor>m\<rfloor>)]
            in (s, tr1 @ [reply_event (g_srv s) peer
                  (if env_dji_ok e tr1 then result_text i ''{}''
                   else error_text i ''PSDK set rth altitude failed'')]))"
    if "x = Fin b m" "\<not> flt x fzero" "m < 65536" for b m
  proof -
    have m: "0 \<le> m" "b \<longrightarrow> m = 0" using r that(1,2) by (auto simp: in_range_def)
    then have f: "0 \<le> \<lfloor>m\<rfloor>" "\<lfloor>m\<rfloor> < 65536" using that(3) by (simp_all add: floor_less_iff)
    have "fp_to_uint 16 x = Some \<lfloor>m\<rfloor>" using f m by (auto simp: that(1) Let_def)
    then show ?thesis using f that(2)
      by (simp add: h real_set_rth_altitude_def cast_uint_def run_bsp_def reply_status_def dji_def dji_result_def
          send_empty_result send_error_event Let_def)
  qed
  have c3: "UB (Float_Cast x) \<in> set (snd ?h)" if "\<not> flt x fzero" "\<forall>b m. x = Fin b m \<longrightarrow> 65536 \<le> m"
  proof -
    have "fp_to_uint 16 x = None" using that(2) by (cases x) (auto simp: Let_def le_floor_iff)
    then show ?thesis using that(1)
      by (simp add: h real_set_rth_altitude_def cast_uint_def run_bsp_def reply_status_def dji_def send_empty_result
          send_error_event Let_def)
  qed
  show ?thesis using c1 c2 c3 by blast
qed

lemma to_f32_120: "to_f32 (Fin False 120) = Fin False 120"
  by code_simp

theorem rth_altitude_cast_witness:
  "h_drone_set_rth_altitude env0 (real_ops env0)
     (one_request ''drone.set_rth_altitude'' [(''altitude_m'', JNum (Fin False 120))]) peer0 7
     (Some (JObj [(''altitude_m'', JNum (Fin False 120))])) (served_by real_initial) [] =
   (served_by real_initial, [FC (DjiFlightController_SetGoHomeAltitude 120),
      reply_event (Some 3) peer0 (result_text 7 ''{}'')])"
proof -
  let ?lib = "one_request ''drone.set_rth_altitude'' [(''altitude_m'', JNum (Fin False 120))]"
  have "in_range f64 (Fin False 120)" by (simp add: in_range_def f64_def pow2_def)
  then have "rpc_param_double ?lib (Some (JObj [(''altitude_m'', JNum (Fin False 120))])) ''altitude_m''
      (Fin True 1) = Fin False 120"
    by (simp add: rpc_param_double_def one_request_def)
  then show ?thesis
    using rth_altitude_cast [OF one_request_ok, of "''drone.set_rth_altitude''"
        "[(''altitude_m'', JNum (Fin False 120))]" "Some (JObj [(''altitude_m'', JNum (Fin False 120))])"
        env0 peer0 7 "served_by real_initial" "[]"]
    by (auto simp: to_f32_120 simp del: to_f32.simps)
qed

text \<open>
  C20. The uptime of a ping is the time between the first ping and this one, in whole milliseconds; the
  reading of the first ping stays the reference for the later ones.
\<close>

theorem uptime_elapsed:
  assumes "monotonic_clock e" and "clock_bounded e" and "start_recorded e s tr"
    and "uptime_ms e s tr = (up, s', tr')"
  shows "uint up = (ts_ns (env_clock e tr') - ts_ns (g_start s')) div 1000000 \<and> g_started s' \<and>
         (g_started s \<longrightarrow> g_start s' = g_start s) \<and> start_recorded e s' tr'"
  using assms by (rule uptime_ms_value)

theorem uptime_elapsed_witness:
  "\<exists>s' tr'. uptime_ms env0 (served_by stub_initial) [] = (1000, s', tr') \<and>
     uint (1000 :: u64) = (ts_ns (env_clock env0 tr') - ts_ns (g_start s')) div 1000000"
proof -
  obtain up s' tr' where u: "uptime_ms env0 (served_by stub_initial) [] = (up, s', tr')"
    by (cases "uptime_ms env0 (served_by stub_initial) []") auto
  have "\<not> g_started (served_by stub_initial)" by (simp add: served_by_def handler_initial_def)
  then have st: "start_recorded env0 (served_by stub_initial) []" by (simp add: start_recorded_def)
  have "up = 1000" using u
    by (simp add: uptime_ms_def served_by_def handler_initial_def clock_gettime_def clock0_def)
  then show ?thesis using uptime_elapsed [OF env0_monotonic env0_clock_bounded st u] u by blast
qed

section \<open>Datagrams\<close>

text \<open>
  C21. What the handler is given for a datagram: its bytes, cut at 4095, without trailing line ends and
  spaces, as a C string in the receive buffer. The request the parser sees is the one in these bytes.
\<close>

theorem udp_message_of_datagram:
  assumes "length (us_recv_buf srv) = DRONE_MAX_MSG_LEN"
    and "udp_receive e timeout srv tr = (srv', Some (peer, line, len), tr')"
  shows "\<exists>dgram. env_datagram e tr' = (peer, dgram) \<and> 0 < len \<and> len < 4096 \<and>
           take len line = strip_suffix udp_ws (take 4095 dgram) \<and> line ! len = NUL \<and>
           rpc_parse jl line = rpc_parse jl (strip_suffix udp_ws (take 4095 dgram)) \<and>
           us_fd srv' = us_fd srv \<and> length (us_recv_buf srv') = DRONE_MAX_MSG_LEN"
  using udp_receive_parse [OF assms] by blast

theorem udp_message_of_datagram_witness:
  "\<exists>srv' line len tr'. udp_receive env0 500 fresh_server [] = (srv', Some (peer0, line, len), tr') \<and>
     len < 4096 \<and> line ! len = NUL \<and>
     rpc_parse (table_lib [(''ping'', req_doc 7 ''system.ping'' [])]) line =
     rpc_parse (table_lib [(''ping'', req_doc 7 ''system.ping'' [])]) ''ping''"
proof -
  obtain srv' line len tr' where r: "udp_receive env0 500 fresh_server [] = (srv', Some (peer0, line, len), tr')"
    using sample_receive by blast
  have "strip_suffix udp_ws (take 4095 (''ping'' @ [LF])) = ''ping''" by code_simp
  then show ?thesis
    using udp_message_of_datagram [OF fresh_server_sel(1) r,
        of "table_lib [(''ping'', req_doc 7 ''system.ping'' [])]"] r by auto
qed

text \<open>
  One turn of the poll loop of the hardware build sends at most one datagram, and only to the peer
  whose message was received in this turn; it opens and closes no descriptor and keeps the invariant
  of the cached readings.
\<close>

theorem real_poll_answers_sender:
  assumes "json_lib_ok jl" and "real_inv (hs_bsp s)"
    and "udp_server_poll e (handle_rpc e (real_ops e) jl) t srv s tr = (srv', s', tr')"
  shows "real_inv (hs_bsp s') \<and> us_fd srv' = us_fd srv \<and>
         (\<exists>evs. tr' = tr @ Net (Poll (us_fd srv) t) # evs \<and> (\<forall>ev \<in> set evs. \<not> fd_event ev) \<and>
           length (sends evs) \<le> 1 \<and>
           (sends evs \<noteq> [] \<longrightarrow>
              (\<exists>peer line len tr1. udp_receive e t srv tr = (srv', Some (peer, line, len), tr1) \<and>
                 fst (snd (hd (sends evs))) = peer)))"
  using real_rpc.poll_step [OF conjI [OF assms(1,2)] assms(3)] by simp

theorem real_poll_answers_sender_witness:
  "\<exists>srv' s' evs. udp_server_poll env0 (handle_rpc env0 (real_ops env0) (table_lib [])) 500
       fresh_server (served_by real_initial) [] =
       (srv', s', Net (Poll 3 500) # evs) \<and> real_inv (hs_bsp s') \<and> length (sends evs) \<le> 1"
proof -
  let ?cb = "handle_rpc env0 (real_ops env0) (table_lib [])"
  obtain srv' s' tr' where p: "udp_server_poll env0 ?cb 500 fresh_server (served_by real_initial) [] = (srv', s', tr')"
    by (cases "udp_server_poll env0 ?cb 500 fresh_server (served_by real_initial) []") auto
  show ?thesis using real_poll_answers_sender [OF table_lib_ok _ p] p by (auto simp: real_inv_initial fresh_server_def)
qed

end
